(* ===== verification/Prelude.thy ===== *)
theory Prelude
  imports Main "HOL-Library.Word" "HOL-Library.Signed_Division"
begin

text \<open>
  What every component shares: the collections of simplification rules, the machine integers of
  Go (\<open>int32\<close>, \<open>int64\<close>; Go's \<open>int\<close> and \<open>time.Duration\<close> are \<open>int64\<close> on the
  platforms the service is built for), association lists that keep the order of a Go composite
  literal, and the generic lemmas on trimming a list at both ends.
\<close>

section \<open>Collections of rules\<close>

named_theorems go_string "evaluation and length rules of the Go string functions"
named_theorems go_error_simps "classification of errors along the Unwrap chain"
named_theorems ledger_simps "one-step rules of the ledger operations"
named_theorems wire_simps "the effect each call of the consumer appends to the trace"

section \<open>Machine integers\<close>

type_synonym int32 = "32 word"
type_synonym int64 = "64 word"

text \<open>Go's conversions: \<open>int32(x)\<close> keeps the low 32 bits, \<open>int(x)\<close> of an int32 sign extends.\<close>

definition int32_of_int64 :: "int64 \<Rightarrow> int32" where
  "int32_of_int64 x = ucast x"

definition int64_of_int32 :: "int32 \<Rightarrow> int64" where
  "int64_of_int32 x = scast x"

text \<open>Signed division of Go truncates towards zero and wraps at the width.\<close>

definition int64_div :: "int64 \<Rightarrow> int64 \<Rightarrow> int64" where
  "int64_div x y = word_of_int (sint x sdiv sint y)"

lemma sint_int32_bounds: "- 2147483648 \<le> sint (x :: int32)" "sint (x :: int32) < 2147483648"
  using sint_greater_eq [of x] sint_less [of x] by simp_all

lemma sint_int64_bounds:
  "- 9223372036854775808 \<le> sint (x :: int64)" "sint (x :: int64) < 9223372036854775808"
  using sint_greater_eq [of x] sint_less [of x] by simp_all

lemma sint_int64_of_int:
  assumes "- 9223372036854775808 \<le> i" "i < 9223372036854775808"
  shows "sint (word_of_int i :: int64) = i"
  using assms by (simp add: sint_sbintrunc' signed_take_bit_int_eq_self)

section \<open>Trimming a list at both ends\<close>

definition trim_by :: "('a \<Rightarrow> bool) \<Rightarrow> 'a list \<Rightarrow> 'a list" where
  "trim_by p xs = rev (dropWhile p (rev (dropWhile p xs)))"

lemma trim_by_Nil [simp]: "trim_by p [] = []"
  by (simp add: trim_by_def)

lemma set_trim_by: "set (trim_by p xs) \<subseteq> set xs"
  unfolding trim_by_def by (metis set_dropWhileD set_rev subsetI)

lemma length_trim_by: "length (trim_by p xs) \<le> length xs"
  unfolding trim_by_def by (metis length_dropWhile_le length_rev order_trans)

lemma hd_trim_by:
  assumes "trim_by p xs \<noteq> []"
  shows "\<not> p (hd (trim_by p xs))"
proof -
  let ?d = "dropWhile p xs"
  obtain us where us: "rev ?d = us @ dropWhile p (rev ?d)"
    by (metis takeWhile_dropWhile_id)
  have ne1: "dropWhile p (rev ?d) \<noteq> []"
    using assms unfolding trim_by_def by blast
  then have ne2: "?d \<noteq> []" by fastforce
  note ne = ne1 ne2
  have "?d = rev (dropWhile p (rev ?d)) @ rev us"
    using us by (metis rev_append rev_rev_ident)
  then have "hd ?d = hd (trim_by p xs)"
    using ne by (metis hd_append2 rev_is_Nil_conv trim_by_def)
  moreover have "\<not> p (hd ?d)"
    using ne(2) by (rule hd_dropWhile)
  ultimately show ?thesis by simp
qed

lemma last_trim_by:
  assumes "trim_by p xs \<noteq> []"
  shows "\<not> p (last (trim_by p xs))"
  using assms hd_dropWhile [of p "rev (dropWhile p xs)"]
  by (simp add: trim_by_def last_rev)

lemma trim_by_id:
  assumes "xs \<noteq> [] \<Longrightarrow> \<not> p (hd xs)" "xs \<noteq> [] \<Longrightarrow> \<not> p (last xs)"
  shows "trim_by p xs = xs"
proof (cases "xs = []")
  case False
  then have "dropWhile p xs = xs" using assms(1) by (cases xs) auto
  moreover have "dropWhile p (rev xs) = rev xs"
    using assms(2) [OF False] False by (cases xs rule: rev_cases) auto
  ultimately show ?thesis by (simp add: trim_by_def)
qed simp

lemma trim_by_idem [simp]: "trim_by p (trim_by p xs) = trim_by p xs"
  by (rule trim_by_id) (use hd_trim_by last_trim_by in blast)+

lemma trim_by_eq_Nil_iff: "trim_by p xs = [] \<longleftrightarrow> (\<forall>x \<in> set xs. p x)"
proof
  assume "trim_by p xs = []"
  then have "\<forall>x \<in> set (dropWhile p xs). p x"
    by (simp add: trim_by_def dropWhile_eq_Nil_conv)
  then have "dropWhile p xs = []"
    by (metis hd_dropWhile hd_in_set)
  then show "\<forall>x \<in> set xs. p x" by (simp add: dropWhile_eq_Nil_conv)
next
  assume "\<forall>x \<in> set xs. p x"
  then have d: "dropWhile p xs = []" using dropWhile_eq_Nil_conv by blast
  show "trim_by p xs = []" by (simp only: trim_by_def d rev.simps dropWhile.simps)
qed

text \<open>A trim only removes a prefix and a suffix, both made of trimmed elements.\<close>

lemma trim_by_infix:
  obtains us vs where "xs = us @ trim_by p xs @ vs"
    "\<forall>x \<in> set us. p x" "\<forall>x \<in> set vs. p x"
proof -
  let ?d = "dropWhile p xs"
  have "xs = takeWhile p xs @ ?d" by simp
  moreover have "?d = trim_by p xs @ rev (takeWhile p (rev ?d))"
    unfolding trim_by_def by (metis rev_append rev_rev_ident takeWhile_dropWhile_id)
  ultimately have "xs = takeWhile p xs @ trim_by p xs @ rev (takeWhile p (rev ?d))"
    by metis
  then show ?thesis
    by (rule that) (auto dest: set_takeWhileD)
qed

end
