(* ===== verification/Utf8.thy ===== *)
theory Utf8
  imports Prelude
begin

text \<open>
  Go strings are byte sequences; a range loop, \<open>[]rune(s)\<close>, \<open>strings.ToLower\<close>,
  \<open>strings.TrimSpace\<close> and \<open>strings.ToValidUTF8\<close> read them as UTF-8. A string of the
  model is a list of \<^typ>\<open>char\<close>, one per byte. \<open>decode_rune\<close> is the decoder of the
  language: an invalid byte is the rune U+FFFD of width one. \<open>chunks\<close> splits a string the way
  a range loop walks it. The section ends with the round trip: decoding what \<open>encode_runes\<close>
  wrote gives the runes back.
\<close>

section \<open>Decoding\<close>

type_synonym rune = nat

definition rune_error :: rune where
  "rune_error = 0xFFFD"

definition in_range :: "nat \<Rightarrow> nat \<Rightarrow> nat \<Rightarrow> bool" where
  "in_range lo hi b \<longleftrightarrow> lo \<le> b \<and> b \<le> hi"

text \<open>The rune at the front of a string of byte values and its width in bytes.\<close>

fun decode_bytes :: "nat list \<Rightarrow> rune \<times> nat" where
  "decode_bytes [] = (rune_error, 0)"
| "decode_bytes (b0 # bs) =
     (if b0 < 0x80 then (b0, 1)
      else if in_range 0xC2 0xDF b0 then
        (case bs of
           b1 # _ \<Rightarrow>
             if in_range 0x80 0xBF b1 then ((b0 - 0xC0) * 64 + (b1 - 0x80), 2)
             else (rune_error, 1)
         | _ \<Rightarrow> (rune_error, 1))
      else if in_range 0xE0 0xEF b0 then
        (case bs of
           b1 # b2 # _ \<Rightarrow>
             if in_range (if b0 = 0xE0 then 0xA0 else 0x80) (if b0 = 0xED then 0x9F else 0xBF) b1
                \<and> in_range 0x80 0xBF b2
             then ((b0 - 0xE0) * 4096 + (b1 - 0x80) * 64 + (b2 - 0x80), 3)
             else (rune_error, 1)
         | _ \<Rightarrow> (rune_error, 1))
      else if in_range 0xF0 0xF4 b0 then
        (case bs of
           b1 # b2 # b3 # _ \<Rightarrow>
             if in_range (if b0 = 0xF0 then 0x90 else 0x80) (if b0 = 0xF4 then 0x8F else 0xBF) b1
                \<and> in_range 0x80 0xBF b2 \<and> in_range 0x80 0xBF b3
             then ((b0 - 0xF0) * 262144 + (b1 - 0x80) * 4096 + (b2 - 0x80) * 64 + (b3 - 0x80), 4)
             else (rune_error, 1)
         | _ \<Rightarrow> (rune_error, 1))
      else (rune_error, 1))"

declare decode_bytes.simps(2) [simp del]

definition byte_of :: "char \<Rightarrow> nat" where
  "byte_of c = of_char c"

definition decode_rune :: "string \<Rightarrow> rune \<times> nat" where
  "decode_rune s = decode_bytes (map byte_of (take 4 s))"

text \<open>The walk of a range loop: each rune with the bytes it was read from.\<close>

function chunks :: "string \<Rightarrow> (rune \<times> string) list" where
  "chunks [] = []"
| "chunks (c # cs) =
     (let (r, n) = decode_rune (c # cs) in (r, c # take (n - 1) cs) # chunks (drop (n - 1) cs))"
  by pat_completeness auto
termination
  by (relation "measure length") auto

declare chunks.simps(2) [simp del]

definition runes :: "string \<Rightarrow> rune list" where
  "runes s = map fst (chunks s)"

section \<open>Encoding\<close>

definition scalar :: "rune \<Rightarrow> bool" where
  "scalar r \<longleftrightarrow> r < 0xD800 \<or> (0xE000 \<le> r \<and> r \<le> 0x10FFFF)"

definition encode_bytes :: "rune \<Rightarrow> nat list" where
  "encode_bytes r0 =
     (let r = (if scalar r0 then r0 else rune_error) in
      if r < 0x80 then [r]
      else if r < 0x800 then [0xC0 + r div 64, 0x80 + r mod 64]
      else if r < 0x10000 then [0xE0 + r div 4096, 0x80 + r div 64 mod 64, 0x80 + r mod 64]
      else [0xF0 + r div 262144, 0x80 + r div 4096 mod 64, 0x80 + r div 64 mod 64, 0x80 + r mod 64])"

definition encode_rune :: "rune \<Rightarrow> string" where
  "encode_rune r = map char_of (encode_bytes r)"

definition encode_runes :: "rune list \<Rightarrow> string" where
  "encode_runes rs = concat (map encode_rune rs)"

section \<open>Facts about one rune\<close>

lemma byte_of_less [simp]: "byte_of c < 256"
  by (simp add: byte_of_def)

lemma byte_of_char_of [simp]: "n < 256 \<Longrightarrow> byte_of (char_of n) = n"
  by (simp add: byte_of_def)

lemma char_of_byte_of [simp]: "char_of (byte_of c) = c"
  by (simp add: byte_of_def)

lemma scalar_rune_error [simp]: "scalar rune_error"
  by (simp add: scalar_def rune_error_def)

lemma encode_bytes_small: "\<forall>b \<in> set (encode_bytes r). b < 256"
  by (auto simp: encode_bytes_def scalar_def rune_error_def Let_def)

lemma encode_bytes_length: "1 \<le> length (encode_bytes r) \<and> length (encode_bytes r) \<le> 4"
  by (simp add: encode_bytes_def Let_def)

text \<open>The base-64 digits of a rune, and the four shapes of its encoding.\<close>

lemma base64_digits:
  fixes r :: nat
  assumes "r = a * 64 + c" "c < 64"
  shows "r div 64 = a" "r mod 64 = c"
  using assms by simp_all

lemma encode_bytes_2:
  assumes "r = a * 64 + c" "c < 64" "0x80 \<le> r" "r < 0x800"
  shows "encode_bytes r = [0xC0 + a, 0x80 + c]"
  using assms base64_digits [OF assms(1,2)] by (simp add: encode_bytes_def scalar_def)

lemma encode_bytes_3:
  assumes r: "r = (a * 64 + b) * 64 + c" and "c < 64" "b < 64" "0x800 \<le> r" "r < 0x10000" "scalar r"
  shows "encode_bytes r = [0xE0 + a, 0x80 + b, 0x80 + c]"
proof -
  have d: "r div 64 = a * 64 + b" "r mod 64 = c" using base64_digits [OF r] assms by auto
  have "r div 4096 = r div 64 div 64" by (simp flip: div_mult2_eq)
  then have "r div 4096 = a" "r div 64 mod 64 = b" using d assms by simp_all
  then show ?thesis using assms d by (simp add: encode_bytes_def)
qed

lemma encode_bytes_4:
  assumes r: "r = ((a * 64 + b) * 64 + c) * 64 + d" and "d < 64" "c < 64" "b < 64"
    "0x10000 \<le> r" "scalar r"
  shows "encode_bytes r = [0xF0 + a, 0x80 + b, 0x80 + c, 0x80 + d]"
proof -
  have d: "r div 64 = (a * 64 + b) * 64 + c" "r mod 64 = d" using base64_digits [OF r] assms by auto
  note e = base64_digits [OF d(1) \<open>c < 64\<close>]
  have "r div 4096 = r div 64 div 64" "r div 262144 = r div 64 div 64 div 64"
    by (simp_all flip: div_mult2_eq)
  then have "r div 262144 = a" "r div 4096 mod 64 = b" using e assms by simp_all
  then show ?thesis using assms d e by (simp add: encode_bytes_def)
qed

lemma encode_bytes_decode:
  assumes "scalar r"
  shows "decode_bytes (encode_bytes r @ bs) = (r, length (encode_bytes r))"
proof -
  define c where "c = r mod 64"
  define b where "b = r div 64 mod 64"
  define b' where "b' = r div 64 div 64 mod 64"
  have c: "c < 64" "r = (r div 64) * 64 + c" by (simp_all add: c_def)
  have b: "b < 64" "r div 64 = (r div 64 div 64) * 64 + b" by (simp_all add: b_def)
  have b': "b' < 64" "r div 64 div 64 = (r div 64 div 64 div 64) * 64 + b'" by (simp_all add: b'_def)
  consider "r < 0x80" | "0x80 \<le> r" "r < 0x800" | "0x800 \<le> r" "r < 0x10000" | "0x10000 \<le> r"
    by linarith
  then show ?thesis
  proof cases
    case 1
    then show ?thesis by (simp add: encode_bytes_def scalar_def decode_bytes.simps(2))
  next
    case 2
    then have "2 \<le> r div 64" "r div 64 < 32" by simp_all
    then show ?thesis using c(1) c(2) [symmetric]
      by (simp add: encode_bytes_2 [OF c(2) c(1) 2] decode_bytes.simps(2) in_range_def)
  next
    case 3
    define a where "a = r div 64 div 64"
    have r: "r = (a * 64 + b) * 64 + c" using c b by (simp add: a_def)
    have "a < 16" using 3 by (simp add: a_def flip: div_mult2_eq)
    moreover have "32 \<le> b" if "a = 0" using that r 3 c(1) by simp
    moreover have "b \<le> 31" if "a = 13" using that r 3 c(1) b(1) assms by (simp add: scalar_def)
    ultimately show ?thesis using c(1) b(1) r
      unfolding encode_bytes_3 [OF r c(1) b(1) 3 assms]
      by (simp add: decode_bytes.simps(2) in_range_def)
  next
    case 4
    define a where "a = r div 64 div 64 div 64"
    have r: "r = ((a * 64 + b') * 64 + b) * 64 + c" using c b b' by (simp add: a_def)
    have hi: "r \<le> 0x10FFFF" using assms 4 by (simp add: scalar_def)
    have "a \<le> 4" using hi r by simp
    moreover have "16 \<le> b'" if "a = 0" using that r 4 c(1) b(1) by simp
    moreover have "b' \<le> 15" if "a = 4" using that r hi c(1) b(1) by simp
    ultimately show ?thesis using c(1) b(1) b'(1) r
      unfolding encode_bytes_4 [OF r c(1) b(1) b'(1) 4 assms]
      by (simp add: decode_bytes.simps(2) in_range_def)
  qed
qed

section \<open>Strings of runes\<close>

lemma map_byte_of_encode [simp]: "map byte_of (encode_rune r) = encode_bytes r"
  using encode_bytes_small [of r] by (simp add: encode_rune_def map_idI)

lemma encode_rune_length: "1 \<le> length (encode_rune r)" "length (encode_rune r) \<le> 4"
  using encode_bytes_length [of r] by (simp_all add: encode_rune_def)

lemma decode_rune_encode:
  assumes "scalar r"
  shows "decode_rune (encode_rune r @ s) = (r, length (encode_rune r))"
proof -
  have "take 4 (encode_rune r @ s) = encode_rune r @ take (4 - length (encode_rune r)) s"
    using encode_rune_length [of r] by simp
  then show ?thesis
    using encode_bytes_decode [OF assms] by (simp add: decode_rune_def) (simp add: encode_rune_def)
qed

lemma chunks_encode:
  assumes "scalar r"
  shows "chunks (encode_rune r @ s) = (r, encode_rune r) # chunks s"
proof -
  obtain c cs where e: "encode_rune r = c # cs"
    using encode_rune_length [of r] by (cases "encode_rune r") auto
  have "decode_rune (c # cs @ s) = (r, Suc (length cs))"
    using decode_rune_encode [OF assms, of s] e by simp
  then show ?thesis using e by (simp add: chunks.simps(2))
qed

lemma chunks_encode_runes:
  "\<forall>r \<in> set rs. scalar r \<Longrightarrow> chunks (encode_runes rs) = map (\<lambda>r. (r, encode_rune r)) rs"
  by (induction rs) (simp_all add: encode_runes_def chunks_encode)

lemma runes_encode_runes: "\<forall>r \<in> set rs. scalar r \<Longrightarrow> runes (encode_runes rs) = rs"
  by (simp add: runes_def chunks_encode_runes comp_def)

lemma chunks_concat: "concat (map snd (chunks s)) = s"
  by (induction s rule: chunks.induct) (simp_all add: chunks.simps(2) split: prod.split)

text \<open>What the decoder returns: a scalar value, in between one and four bytes.\<close>

lemma scalar_two_bytes:
  assumes "in_range 0xC2 0xDF b0" "in_range 0x80 0xBF b1"
  shows "scalar ((b0 - 0xC0) * 64 + (b1 - 0x80))"
proof -
  have "b0 - 0xC0 \<le> 31" "b1 - 0x80 \<le> 63" using assms by (auto simp: in_range_def)
  then show ?thesis by (simp add: scalar_def)
qed

lemma scalar_three_bytes:
  assumes "in_range 0xE0 0xEF b0"
    "in_range (if b0 = 0xE0 then 0xA0 else 0x80) (if b0 = 0xED then 0x9F else 0xBF) b1"
    "in_range 0x80 0xBF b2"
  shows "scalar ((b0 - 0xE0) * 4096 + (b1 - 0x80) * 64 + (b2 - 0x80))"
proof -
  have b: "b1 - 0x80 \<le> 63" "b2 - 0x80 \<le> 63" "b0 = 0xED \<Longrightarrow> b1 - 0x80 \<le> 31"
    using assms by (auto simp: in_range_def split: if_splits)
  consider "b0 - 0xE0 \<le> 12" | "b0 = 0xED" | "14 \<le> b0 - 0xE0" "b0 - 0xE0 \<le> 15"
    using assms(1) unfolding in_range_def by linarith
  then show ?thesis by cases (use b in \<open>simp_all add: scalar_def\<close>)
qed

lemma scalar_four_bytes:
  assumes "in_range 0xF0 0xF4 b0"
    "in_range (if b0 = 0xF0 then 0x90 else 0x80) (if b0 = 0xF4 then 0x8F else 0xBF) b1"
    "in_range 0x80 0xBF b2" "in_range 0x80 0xBF b3"
  shows "scalar ((b0 - 0xF0) * 262144 + (b1 - 0x80) * 4096 + (b2 - 0x80) * 64 + (b3 - 0x80))"
proof -
  have b: "b1 - 0x80 \<le> 63" "b2 - 0x80 \<le> 63" "b3 - 0x80 \<le> 63"
    "b0 = 0xF0 \<Longrightarrow> 16 \<le> b1 - 0x80" "b0 = 0xF4 \<Longrightarrow> b1 - 0x80 \<le> 15"
    using assms by (auto simp: in_range_def split: if_splits)
  consider "b0 = 0xF0" | "1 \<le> b0 - 0xF0" "b0 - 0xF0 \<le> 3" | "b0 = 0xF4"
    using assms(1) unfolding in_range_def by linarith
  then show ?thesis by cases (use b in \<open>simp_all add: scalar_def\<close>)
qed

lemma scalar_one_byte: "b < 0x80 \<Longrightarrow> scalar b"
  by (simp add: scalar_def)

lemma scalar_if:
  "(c \<Longrightarrow> scalar (fst a)) \<Longrightarrow> (\<not> c \<Longrightarrow> scalar (fst b)) \<Longrightarrow> scalar (fst (if c then a else b))"
  by simp

lemma scalar_case_list:
  "scalar (fst e) \<Longrightarrow> (\<And>x xs. scalar (fst (f x xs))) \<Longrightarrow>
   scalar (fst (case bs of [] \<Rightarrow> e | x # xs \<Rightarrow> f x xs))"
  by (simp split: list.split)

lemma decode_bytes_scalar: "scalar (fst (decode_bytes bs))"
proof (cases bs)
  case Nil
  then show ?thesis by simp
next
  case (Cons b0 bs')
  show ?thesis
    unfolding Cons decode_bytes.simps(2)
    by (intro scalar_if scalar_case_list)
       (auto simp only: fst_conv scalar_rune_error
        intro: scalar_one_byte scalar_two_bytes scalar_three_bytes scalar_four_bytes)
qed

lemma decode_rune_scalar: "scalar (fst (decode_rune s))"
  by (simp add: decode_rune_def decode_bytes_scalar)

lemma runes_Nil [simp]: "runes [] = []"
  by (simp add: runes_def)

lemma runes_Cons:
  "runes (c # cs) = fst (decode_rune (c # cs)) # runes (drop (snd (decode_rune (c # cs)) - 1) cs)"
  by (simp add: runes_def chunks.simps(2) split: prod.split)

lemma scalar_runes: "r \<in> set (runes s) \<Longrightarrow> scalar r"
proof (induction "length s" arbitrary: s rule: less_induct)
  case less
  show ?case
  proof (cases s)
    case (Cons c cs)
    with less.prems consider "r = fst (decode_rune s)"
      | "r \<in> set (runes (drop (snd (decode_rune s) - 1) cs))"
      by (auto simp: runes_Cons)
    then show ?thesis
      by cases (use less.hyps [of "drop (snd (decode_rune s) - 1) cs"] Cons
        in \<open>auto simp: decode_rune_scalar\<close>)
  qed (use less.prems in simp)
qed

text \<open>ASCII bytes are runes of their own.\<close>

definition ascii :: "char \<Rightarrow> bool" where
  "ascii c \<longleftrightarrow> byte_of c < 0x80"

lemma chunks_ascii_Cons [simp]: "ascii c \<Longrightarrow> chunks (c # cs) = (byte_of c, [c]) # chunks cs"
  by (simp add: chunks.simps(2) decode_rune_def decode_bytes.simps(2) ascii_def)

lemma chunks_ascii: "\<forall>c \<in> set s. ascii c \<Longrightarrow> chunks s = map (\<lambda>c. (byte_of c, [c])) s"
  by (induction s) simp_all

lemma runes_ascii: "\<forall>c \<in> set s. ascii c \<Longrightarrow> runes s = map byte_of s"
  by (simp add: runes_def chunks_ascii comp_def)

section \<open>Validity\<close>

text \<open>An invalid byte is a chunk of one byte whose rune is the error rune.\<close>

definition bad_chunk :: "rune \<times> string \<Rightarrow> bool" where
  "bad_chunk p \<longleftrightarrow> fst p = rune_error \<and> length (snd p) = 1"

definition utf8_valid :: "string \<Rightarrow> bool" where
  "utf8_valid s \<longleftrightarrow> \<not> list_ex bad_chunk (chunks s)"

lemma encode_rune_error_length [simp]: "length (encode_rune rune_error) = 3"
  by (simp add: encode_rune_def encode_bytes_def rune_error_def scalar_def)

lemma utf8_valid_encode_runes: "\<forall>r \<in> set rs. scalar r \<Longrightarrow> utf8_valid (encode_runes rs)"
  by (auto simp: utf8_valid_def chunks_encode_runes list_ex_iff bad_chunk_def)

text \<open>A chunk that is not bad is the encoding of its rune: decoding and encoding are inverse.\<close>

definition good_read :: "nat list \<Rightarrow> rune \<times> nat \<Rightarrow> bool" where
  "good_read bs p \<longleftrightarrow> 1 \<le> snd p \<and> snd p \<le> length bs \<and>
     (take (snd p) bs = encode_bytes (fst p) \<or> p = (rune_error, 1))"

lemma good_read_if:
  "(c \<Longrightarrow> good_read bs a) \<Longrightarrow> (\<not> c \<Longrightarrow> good_read bs b) \<Longrightarrow> good_read bs (if c then a else b)"
  by simp

lemma good_read_error [simp]: "good_read (b # bs) (rune_error, 1)"
  by (simp add: good_read_def)

lemma good_read_1: "b < 0x80 \<Longrightarrow> good_read (b # bs) (b, 1)"
  by (simp add: good_read_def encode_bytes_def scalar_def)

lemma in_range_offset:
  assumes "in_range lo hi b"
  obtains k where "b = lo + k" "k \<le> hi - lo"
proof -
  have "b = lo + (b - lo)" "b - lo \<le> hi - lo" using assms unfolding in_range_def by linarith+
  then show ?thesis by (rule that)
qed

lemma good_read_2:
  assumes "in_range 0xC2 0xDF b0" "in_range 0x80 0xBF b1"
  shows "good_read (b0 # b1 # bs) ((b0 - 0xC0) * 64 + (b1 - 0x80), 2)"
proof -
  obtain a where a: "b0 = 0xC2 + a" "a \<le> 29" using assms(1) by (rule in_range_offset) simp
  obtain b where b: "b1 = 0x80 + b" "b \<le> 63" using assms(2) by (rule in_range_offset) simp
  have "encode_bytes ((a + 2) * 64 + b) = [0xC0 + (a + 2), 0x80 + b]"
    by (rule encode_bytes_2 [OF refl]) (use a b in simp_all)
  then show ?thesis by (simp add: good_read_def a b)
qed

lemma good_read_3:
  assumes "in_range 0xE0 0xEF b0"
    "in_range (if b0 = 0xE0 then 0xA0 else 0x80) (if b0 = 0xED then 0x9F else 0xBF) b1"
    "in_range 0x80 0xBF b2"
  shows "good_read (b0 # b1 # b2 # bs) ((b0 - 0xE0) * 4096 + (b1 - 0x80) * 64 + (b2 - 0x80), 3)"
proof -
  obtain a where a: "b0 = 0xE0 + a" "a \<le> 15" using assms(1) by (rule in_range_offset) simp
  have "in_range 0x80 0xBF b1" using assms(2) by (auto simp: in_range_def split: if_splits)
  then obtain b where b: "b1 = 0x80 + b" "b \<le> 63" by (rule in_range_offset) simp
  obtain c where c: "b2 = 0x80 + c" "c \<le> 63" using assms(3) by (rule in_range_offset) simp
  have eq: "a * 4096 + b * 64 + c = (a * 64 + b) * 64 + c" by simp
  have "32 \<le> b" if "a = 0" using assms(2) that by (simp add: a b in_range_def)
  then have "0x800 \<le> (a * 64 + b) * 64 + c" by (cases "a = 0") simp_all
  moreover have "(a * 64 + b) * 64 + c < 0x10000" using a b c by simp
  moreover have "scalar ((a * 64 + b) * 64 + c)"
    using scalar_three_bytes [OF assms] unfolding eq [symmetric] by (simp only: a b c diff_add_inverse)
  ultimately have "encode_bytes (a * 4096 + b * 64 + c) = [0xE0 + a, 0x80 + b, 0x80 + c]"
    unfolding eq using b c by (intro encode_bytes_3 [OF refl]) simp_all
  then show ?thesis by (simp add: good_read_def a b c)
qed

lemma good_read_4:
  assumes "in_range 0xF0 0xF4 b0"
    "in_range (if b0 = 0xF0 then 0x90 else 0x80) (if b0 = 0xF4 then 0x8F else 0xBF) b1"
    "in_range 0x80 0xBF b2" "in_range 0x80 0xBF b3"
  shows "good_read (b0 # b1 # b2 # b3 # bs)
    ((b0 - 0xF0) * 262144 + (b1 - 0x80) * 4096 + (b2 - 0x80) * 64 + (b3 - 0x80), 4)"
proof -
  obtain a where a: "b0 = 0xF0 + a" "a \<le> 4" using assms(1) by (rule in_range_offset) simp
  have "in_range 0x80 0xBF b1" using assms(2) by (auto simp: in_range_def split: if_splits)
  then obtain b where b: "b1 = 0x80 + b" "b \<le> 63" by (rule in_range_offset) simp
  obtain c where c: "b2 = 0x80 + c" "c \<le> 63" using assms(3) by (rule in_range_offset) simp
  obtain d where d: "b3 = 0x80 + d" "d \<le> 63" using assms(4) by (rule in_range_offset) simp
  have eq: "a * 262144 + b * 4096 + c * 64 + d = ((a * 64 + b) * 64 + c) * 64 + d" by simp
  have "16 \<le> b" if "a = 0" using assms(2) that by (simp add: a b in_range_def)
  then have "0x10000 \<le> ((a * 64 + b) * 64 + c) * 64 + d" by (cases "a = 0") simp_all
  moreover have "scalar (((a * 64 + b) * 64 + c) * 64 + d)"
    using scalar_four_bytes [OF assms] unfolding eq [symmetric] by (simp only: a b c d diff_add_inverse)
  ultimately have "encode_bytes (a * 262144 + b * 4096 + c * 64 + d) = [0xF0 + a, 0x80 + b, 0x80 + c, 0x80 + d]"
    unfolding eq using b c d by (intro encode_bytes_4 [OF refl]) simp_all
  then show ?thesis by (simp add: good_read_def a b c d)
qed

lemma good_read_case_list:
  "good_read bs e \<Longrightarrow> (\<And>x xs. ys = x # xs \<Longrightarrow> good_read bs (f x xs)) \<Longrightarrow>
   good_read bs (case ys of [] \<Rightarrow> e | x # xs \<Rightarrow> f x xs)"
  by (simp split: list.split)

lemma decode_bytes_good: "good_read (b # bs) (decode_bytes (b # bs))"
  unfolding decode_bytes.simps(2)
  by (intro good_read_if good_read_case_list; (elim conjE)?; hypsubst_thin?)
     (simp_all only: good_read_error good_read_1 good_read_2 good_read_3 good_read_4)

lemma length_encode_bytes_le: "length (encode_bytes r) \<le> 4"
  using encode_bytes_length by blast

text \<open>The same for chunks of a string, and the string with no bad chunk read back.\<close>

lemma decode_bytes_take: "decode_bytes (take 4 bs) = decode_bytes bs"
  by (cases bs rule: decode_bytes.cases)
     (simp_all add: decode_bytes.simps(2) take_Cons' split: list.split)

lemma decode_rune_read: "good_read (map byte_of (c # cs)) (decode_rune (c # cs))"
proof -
  have "decode_rune (c # cs) = decode_bytes (map byte_of (c # cs))"
    unfolding decode_rune_def by (metis decode_bytes_take take_map)
  then show ?thesis using decode_bytes_good by simp
qed

lemma decode_rune_width:
  "1 \<le> snd (decode_rune (c # cs))" "snd (decode_rune (c # cs)) \<le> Suc (length cs)"
  using decode_rune_read [of c cs] by (simp_all add: good_read_def)

lemma decode_rune_good:
  assumes d: "decode_rune (c # cs) = (r, n)" and nb: "\<not> bad_chunk (r, take n (c # cs))"
  shows "take n (c # cs) = encode_rune r"
proof -
  have g: "good_read (map byte_of (c # cs)) (r, n)" using decode_rune_read [of c cs] d by simp
  moreover have "(r, n) \<noteq> (rune_error, 1)" using nb by (auto simp: bad_chunk_def)
  ultimately have "map byte_of (take n (c # cs)) = encode_bytes r"
    by (auto simp add: good_read_def simp flip: take_map)
  then have "map char_of (map byte_of (take n (c # cs))) = encode_rune r"
    by (simp add: encode_rune_def)
  then show ?thesis by (simp add: comp_def)
qed

lemma chunks_Cons:
  "chunks (c # cs) = (fst (decode_rune (c # cs)), take (snd (decode_rune (c # cs))) (c # cs)) #
     chunks (drop (snd (decode_rune (c # cs))) (c # cs))"
  using decode_rune_width(1) [of c cs]
  by (simp add: chunks.simps(2) take_Cons' drop_Cons' split: prod.split)

lemma chunk_encoding: "p \<in> set (chunks s) \<Longrightarrow> \<not> bad_chunk p \<Longrightarrow> snd p = encode_rune (fst p)"
proof (induction "length s" arbitrary: s rule: less_induct)
  case less
  show ?case
  proof (cases s)
    case (Cons c cs)
    let ?n = "snd (decode_rune s)"
    have shorter: "length (drop ?n s) < length s"
      using decode_rune_width(1) [of c cs] Cons by simp
    from less.prems(1) consider "p = (fst (decode_rune s), take ?n s)" | "p \<in> set (chunks (drop ?n s))"
      unfolding Cons chunks_Cons by auto
    then show ?thesis
    proof cases
      case 1
      then show ?thesis using decode_rune_good [of c cs] less.prems(2) Cons by (metis fst_conv prod.collapse snd_conv)
    next
      case 2
      then show ?thesis using less.hyps [OF shorter] less.prems(2) by blast
    qed
  qed (use less.prems in simp)
qed

lemma encode_runes_valid:
  assumes "utf8_valid s"
  shows "encode_runes (runes s) = s"
proof -
  have "map snd (chunks s) = map (encode_rune \<circ> fst) (chunks s)"
    using assms chunk_encoding [of _ s] by (auto simp: utf8_valid_def list_ex_iff)
  then have "encode_runes (runes s) = concat (map snd (chunks s))"
    by (simp only: encode_runes_def runes_def map_map)
  then show ?thesis by (simp add: chunks_concat)
qed

end
