(* ===== verification/GoStrings.thy ===== *)
theory GoStrings
  imports Utf8
begin

text \<open>
  The string functions of Go's standard library that the service calls: \<open>strings.TrimSpace\<close>,
  \<open>strings.Trim\<close> with a one-byte cutset, \<open>strings.ToLower\<close>, \<open>strings.ToValidUTF8\<close>,
  the conversions between strings and \<open>[]rune\<close>, and \<open>fmt.Sprintf\<close> with \<open>%d\<close>.
  They follow the documentation of packages strings, unicode and fmt. The lower-case mapping is the
  table of simple case mappings of Unicode, so that the two non-ASCII letters whose lower case is
  ASCII (U+0130 and U+212A) are treated as Go treats them.
\<close>

section \<open>strings.TrimSpace\<close>

definition is_space :: "rune \<Rightarrow> bool" where
  "is_space r \<longleftrightarrow>
     in_range 9 13 r \<or> r = 0x20 \<or> r = 0x85 \<or> r = 0xA0 \<or> r = 0x1680 \<or> in_range 0x2000 0x200A r \<or>
     r = 0x2028 \<or> r = 0x2029 \<or> r = 0x202F \<or> r = 0x205F \<or> r = 0x3000"

definition TrimSpace :: "string \<Rightarrow> string" where
  "TrimSpace s = concat (map snd (trim_by (is_space \<circ> fst) (chunks s)))"

text \<open>The test \<open>strings.TrimSpace(s) == ""\<close>, which the code writes out each time.\<close>

definition blank :: "string \<Rightarrow> bool" where
  "blank s \<longleftrightarrow> TrimSpace s = []"

section \<open>strings.Trim with a single-byte cutset\<close>

definition Trim1 :: "char \<Rightarrow> string \<Rightarrow> string" where
  "Trim1 c s = trim_by (\<lambda>x. x = c) s"

section \<open>strings.ToLower\<close>

text \<open>Ranges (first, last, step, offset) of the non-ASCII runes with a lower case.\<close>

definition lower_table :: "(rune \<times> rune \<times> nat \<times> int) list" where
  "lower_table =
    [(192, 214, 1, 32), (216, 222, 1, 32), (256, 302, 2, 1), (304, 304, 1, - 199),
     (306, 310, 2, 1), (313, 327, 2, 1), (330, 374, 2, 1), (376, 376, 1, - 121),
     (377, 381, 2, 1), (385, 385, 1, 210), (386, 388, 2, 1), (390, 390, 1, 206),
     (391, 391, 1, 1), (393, 394, 1, 205), (395, 395, 1, 1), (398, 398, 1, 79),
     (399, 399, 1, 202), (400, 400, 1, 203), (401, 401, 1, 1), (403, 403, 1, 205),
     (404, 404, 1, 207), (406, 406, 1, 211), (407, 407, 1, 209), (408, 408, 1, 1),
     (412, 412, 1, 211), (413, 413, 1, 213), (415, 415, 1, 214), (416, 420, 2, 1),
     (422, 422, 1, 218), (423, 423, 1, 1), (425, 425, 1, 218), (428, 428, 1, 1),
     (430, 430, 1, 218), (431, 431, 1, 1), (433, 434, 1, 217), (435, 437, 2, 1),
     (439, 439, 1, 219), (440, 440, 1, 1), (444, 444, 1, 1), (452, 452, 1, 2),
     (453, 453, 1, 1), (455, 455, 1, 2), (456, 456, 1, 1), (458, 458, 1, 2), (459, 475, 2, 1),
     (478, 494, 2, 1), (497, 497, 1, 2), (498, 500, 2, 1), (502, 502, 1, - 97),
     (503, 503, 1, - 56), (504, 542, 2, 1), (544, 544, 1, - 130), (546, 562, 2, 1),
     (570, 570, 1, 10795), (571, 571, 1, 1), (573, 573, 1, - 163), (574, 574, 1, 10792),
     (577, 577, 1, 1), (579, 579, 1, - 195), (580, 580, 1, 69), (581, 581, 1, 71),
     (582, 590, 2, 1), (880, 882, 2, 1), (886, 886, 1, 1), (895, 895, 1, 116),
     (902, 902, 1, 38), (904, 906, 1, 37), (908, 908, 1, 64), (910, 911, 1, 63),
     (913, 929, 1, 32), (931, 939, 1, 32), (975, 975, 1, 8), (984, 1006, 2, 1),
     (1012, 1012, 1, - 60), (1015, 1015, 1, 1), (1017, 1017, 1, - 7), (1018, 1018, 1, 1),
     (1021, 1023, 1, - 130), (1024, 1039, 1, 80), (1040, 1071, 1, 32), (1120, 1152, 2, 1),
     (1162, 1214, 2, 1), (1216, 1216, 1, 15), (1217, 1229, 2, 1), (1232, 1326, 2, 1),
     (1329, 1366, 1, 48), (4256, 4293, 1, 7264), (4295, 4295, 1, 7264), (4301, 4301, 1, 7264),
     (5024, 5103, 1, 38864), (5104, 5109, 1, 8), (7312, 7354, 1, - 3008),
     (7357, 7359, 1, - 3008), (7680, 7828, 2, 1), (7838, 7838, 1, - 7615), (7840, 7934, 2, 1),
     (7944, 7951, 1, - 8), (7960, 7965, 1, - 8), (7976, 7983, 1, - 8), (7992, 7999, 1, - 8),
     (8008, 8013, 1, - 8), (8025, 8031, 2, - 8), (8040, 8047, 1, - 8), (8072, 8079, 1, - 8),
     (8088, 8095, 1, - 8), (8104, 8111, 1, - 8), (8120, 8121, 1, - 8), (8122, 8123, 1, - 74),
     (8124, 8124, 1, - 9), (8136, 8139, 1, - 86), (8140, 8140, 1, - 9), (8152, 8153, 1, - 8),
     (8154, 8155, 1, - 100), (8168, 8169, 1, - 8), (8170, 8171, 1, - 112),
     (8172, 8172, 1, - 7), (8184, 8185, 1, - 128), (8186, 8187, 1, - 126),
     (8188, 8188, 1, - 9), (8486, 8486, 1, - 7517), (8490, 8490, 1, - 8383),
     (8491, 8491, 1, - 8262), (8498, 8498, 1, 28), (8544, 8559, 1, 16), (8579, 8579, 1, 1),
     (9398, 9423, 1, 26), (11264, 11311, 1, 48), (11360, 11360, 1, 1),
     (11362, 11362, 1, - 10743), (11363, 11363, 1, - 3814), (11364, 11364, 1, - 10727),
     (11367, 11371, 2, 1), (11373, 11373, 1, - 10780), (11374, 11374, 1, - 10749),
     (11375, 11375, 1, - 10783), (11376, 11376, 1, - 10782), (11378, 11378, 1, 1),
     (11381, 11381, 1, 1), (11390, 11391, 1, - 10815), (11392, 11490, 2, 1),
     (11499, 11501, 2, 1), (11506, 11506, 1, 1), (42560, 42604, 2, 1), (42624, 42650, 2, 1),
     (42786, 42798, 2, 1), (42802, 42862, 2, 1), (42873, 42875, 2, 1),
     (42877, 42877, 1, - 35332), (42878, 42886, 2, 1), (42891, 42891, 1, 1),
     (42893, 42893, 1, - 42280), (42896, 42898, 2, 1), (42902, 42920, 2, 1),
     (42922, 42922, 1, - 42308), (42923, 42923, 1, - 42319), (42924, 42924, 1, - 42315),
     (42925, 42925, 1, - 42305), (42926, 42926, 1, - 42308), (42928, 42928, 1, - 42258),
     (42929, 42929, 1, - 42282), (42930, 42930, 1, - 42261), (42931, 42931, 1, 928),
     (42932, 42946, 2, 1), (42948, 42948, 1, - 48), (42949, 42949, 1, - 42307),
     (42950, 42950, 1, - 35384), (42951, 42953, 2, 1), (42960, 42960, 1, 1),
     (42966, 42968, 2, 1), (42997, 42997, 1, 1), (65313, 65338, 1, 32), (66560, 66599, 1, 40),
     (66736, 66771, 1, 40), (66928, 66938, 1, 39), (66940, 66954, 1, 39),
     (66956, 66962, 1, 39), (66964, 66965, 1, 39), (68736, 68786, 1, 64),
     (71840, 71871, 1, 32), (93760, 93791, 1, 32), (125184, 125217, 1, 34)]"

definition to_lower_rune :: "rune \<Rightarrow> rune" where
  "to_lower_rune r =
     (if r < 0x80 then (if in_range 65 90 r then r + 32 else r)
      else case List.find (\<lambda>(lo, hi, st, d). lo \<le> r \<and> r \<le> hi \<and> (r - lo) mod st = 0) lower_table of
             None \<Rightarrow> r
           | Some (lo, hi, st, d) \<Rightarrow> nat (int r + d))"

definition ToLower :: "string \<Rightarrow> string" where
  "ToLower s = encode_runes (map to_lower_rune (runes s))"

section \<open>strings.ToValidUTF8\<close>

text \<open>Each run of invalid bytes becomes one copy of the replacement.\<close>

fun to_valid_chunks :: "string \<Rightarrow> bool \<Rightarrow> (rune \<times> string) list \<Rightarrow> string" where
  "to_valid_chunks rep bad [] = []"
| "to_valid_chunks rep bad (p # ps) =
     (if bad_chunk p then (if bad then [] else rep) @ to_valid_chunks rep True ps
      else snd p @ to_valid_chunks rep False ps)"

definition ToValidUTF8 :: "string \<Rightarrow> string \<Rightarrow> string" where
  "ToValidUTF8 s rep = to_valid_chunks rep False (chunks s)"

section \<open>Decimal numbers\<close>

fun show_nat :: "nat \<Rightarrow> string" where
  "show_nat n =
     (if n < 10 then [char_of (48 + n)] else show_nat (n div 10) @ [char_of (48 + n mod 10)])"

declare show_nat.simps [simp del]

definition show_int :: "int \<Rightarrow> string" where
  "show_int i = (if i < 0 then CHR ''-'' # show_nat (nat (- i)) else show_nat (nat i))"

section \<open>Facts\<close>

lemma TrimSpace_Nil [simp]: "TrimSpace [] = []"
  by (simp add: TrimSpace_def)

lemma blank_Nil [simp]: "blank []"
  by (simp add: blank_def)

lemma Trim1_idem [simp]: "Trim1 c (Trim1 c s) = Trim1 c s"
  by (simp add: Trim1_def)

lemma length_Trim1: "length (Trim1 c s) \<le> length s"
  by (simp add: Trim1_def length_trim_by)

lemma set_Trim1: "set (Trim1 c s) \<subseteq> set s"
  by (simp add: Trim1_def set_trim_by)

lemma Trim1_ends:
  assumes "Trim1 c s \<noteq> []"
  shows "hd (Trim1 c s) \<noteq> c" "last (Trim1 c s) \<noteq> c"
  using assms hd_trim_by last_trim_by unfolding Trim1_def by blast+

lemma Trim1_id:
  assumes "s \<noteq> [] \<Longrightarrow> hd s \<noteq> c" "s \<noteq> [] \<Longrightarrow> last s \<noteq> c"
  shows "Trim1 c s = s"
  unfolding Trim1_def by (rule trim_by_id) (use assms in blast)+

text \<open>On ASCII text the functions work byte by byte.\<close>

lemma TrimSpace_ascii:
  assumes "\<forall>c \<in> set s. ascii c"
  shows "TrimSpace s = trim_by (\<lambda>c. is_space (byte_of c)) s"
proof -
  have "trim_by (is_space \<circ> fst) (map (\<lambda>c. (byte_of c, [c])) s) =
        map (\<lambda>c. (byte_of c, [c])) (trim_by (\<lambda>c. is_space (byte_of c)) s)"
    by (simp add: trim_by_def dropWhile_map comp_def rev_map)
  then show ?thesis
    by (simp add: TrimSpace_def chunks_ascii [OF assms] comp_def)
qed

lemma encode_rune_ascii: "r < 0x80 \<Longrightarrow> encode_rune r = [char_of r]"
  by (simp add: encode_rune_def encode_bytes_def scalar_def)

lemma ToLower_ascii:
  assumes "\<forall>c \<in> set s. ascii c"
  shows "ToLower s = map (\<lambda>c. char_of (to_lower_rune (byte_of c))) s"
proof -
  have "encode_rune (to_lower_rune (byte_of c)) = [char_of (to_lower_rune (byte_of c))]"
    if "c \<in> set s" for c
    using assms that
    by (intro encode_rune_ascii) (auto simp: to_lower_rune_def ascii_def in_range_def)
  then have "concat (map (\<lambda>c. encode_rune (to_lower_rune (byte_of c))) s) =
      map (\<lambda>c. char_of (to_lower_rune (byte_of c))) s"
    by (induction s) simp_all
  then show ?thesis
    by (simp add: ToLower_def encode_runes_def runes_ascii [OF assms] comp_def)
qed

lemma show_nat_not_Nil [simp]: "show_nat n \<noteq> []"
  by (simp add: show_nat.simps [of n])

text \<open>The characters and the value of a decimal numeral, from which it is injective.\<close>

definition digit_val :: "char \<Rightarrow> nat" where
  "digit_val c = byte_of c - 48"

definition read_nat :: "string \<Rightarrow> nat" where
  "read_nat s = foldl (\<lambda>n c. 10 * n + digit_val c) 0 s"

lemma read_show_nat: "read_nat (show_nat n) = n"
proof (induction n rule: show_nat.induct)
  case (1 n)
  then show ?case
    by (subst show_nat.simps) (auto simp: read_nat_def digit_val_def byte_of_def)
qed

lemma show_nat_inject [simp]: "show_nat m = show_nat n \<longleftrightarrow> m = n"
  by (metis read_show_nat)

lemma show_nat_digits: "c \<in> set (show_nat n) \<Longrightarrow> 48 \<le> byte_of c \<and> byte_of c \<le> 57"
proof (induction n rule: show_nat.induct)
  case (1 n)
  show ?case
  proof (cases "n < 10")
    case True
    then show ?thesis using 1 by (simp add: show_nat.simps [of n] byte_of_def)
  next
    case False
    then show ?thesis using 1 by (auto simp: show_nat.simps [of n] byte_of_def)
  qed
qed

end
