(* ===== verification/GoErrors.thy ===== *)
theory GoErrors
  imports GoStrings
begin

text \<open>
  The error values of the service and the contexts its calls run under. An \<open>error\<close> of the code
  is an option of \<open>go_error\<close>: the sentinel and the error types that \<open>consumer.go\<close>,
  \<open>rollout.go\<close> and \<open>reconciler.go\<close> declare, the two errors of package context,
  \<open>errors.New\<close>, \<open>fmt.Errorf\<close> with \<open>%w\<close> at its end, and the errors that come from code
  outside the repository (the Kubernetes client, the database driver, the AMQP client). Of the last
  the model knows what the service can ask of them: their text and the answers of the predicates of
  package apierrors, of \<open>errors.As\<close> for \<open>net.Error\<close> and \<open>*url.Error\<close> and of
  \<open>errors.Is\<close> for the errors of package context.
\<close>

section \<open>Errors\<close>

record ext_error =
  x_Error :: string
  x_IsNotFound :: bool
  x_IsAlreadyExists :: bool
  x_IsConflict :: bool
  x_IsInvalid :: bool
  x_IsTimeout :: bool
  x_IsServerTimeout :: bool
  x_IsServiceUnavailable :: bool
  x_IsTooManyRequests :: bool
  x_IsInternalError :: bool
  x_AsNetError :: bool
  x_AsURLError :: bool
  x_IsDeadlineExceeded :: bool

datatype go_error =
    ErrorString string
  | WrapError string go_error
  | OrchestrationLeaseBusy
  | OwnershipError string
  | RolloutTimeoutError (rt_namespace: string) (rt_deploymentName: string)
  | RolloutFailedError (rf_namespace: string) (rf_deploymentName: string)
      (rf_reason: string) (rf_message: string)
  | ContextCanceled
  | ContextDeadlineExceeded
  | ExtError ext_error

text \<open>The \<open>Error()\<close> methods.\<close>

fun error_text :: "go_error \<Rightarrow> string" where
  "error_text (ErrorString s) = s"
| "error_text (WrapError s e) = s @ error_text e"
| "error_text OrchestrationLeaseBusy = ''orchestration stage lease is owned by another worker''"
| "error_text (OwnershipError s) = s"
| "error_text (RolloutTimeoutError ns d) = ''deployment rollout timed out for '' @ ns @ ''/'' @ d"
| "error_text (RolloutFailedError ns d reason msg) =
     ''deployment rollout failed for '' @ ns @ ''/'' @ d @ '': '' @
     (if msg \<noteq> [] then msg else reason)"
| "error_text ContextCanceled = ''context canceled''"
| "error_text ContextDeadlineExceeded = ''context deadline exceeded''"
| "error_text (ExtError x) = x_Error x"

text \<open>The end of an error's \<open>Unwrap\<close> chain, which \<open>errors.Is\<close> and \<open>errors.As\<close> search.\<close>

fun root_cause :: "go_error \<Rightarrow> go_error" where
  "root_cause (WrapError s e) = root_cause e"
| "root_cause e = e"

definition is_lease_busy :: "go_error \<Rightarrow> bool" where
  "is_lease_busy e \<longleftrightarrow> root_cause e = OrchestrationLeaseBusy"

fun is_ownership_error :: "go_error \<Rightarrow> bool" where
  "is_ownership_error (WrapError s e) = is_ownership_error e"
| "is_ownership_error (OwnershipError s) = True"
| "is_ownership_error e = False"

fun is_rollout_timeout :: "go_error \<Rightarrow> bool" where
  "is_rollout_timeout (WrapError s e) = is_rollout_timeout e"
| "is_rollout_timeout (RolloutTimeoutError ns d) = True"
| "is_rollout_timeout e = False"

fun is_rollout_failed :: "go_error \<Rightarrow> bool" where
  "is_rollout_failed (WrapError s e) = is_rollout_failed e"
| "is_rollout_failed (RolloutFailedError ns d r m) = True"
| "is_rollout_failed e = False"

fun is_deadline_exceeded :: "go_error \<Rightarrow> bool" where
  "is_deadline_exceeded (WrapError s e) = is_deadline_exceeded e"
| "is_deadline_exceeded ContextDeadlineExceeded = True"
| "is_deadline_exceeded (ExtError x) = x_IsDeadlineExceeded x"
| "is_deadline_exceeded e = False"

text \<open>
  A predicate of package apierrors: it sees wrapped errors and is false of any error that is not
  a status of the Kubernetes API.
\<close>

fun api_error :: "(ext_error \<Rightarrow> bool) \<Rightarrow> go_error \<Rightarrow> bool" where
  "api_error p (WrapError s e) = api_error p e"
| "api_error p (ExtError x) = p x"
| "api_error p e = False"

text \<open>\<open>errors.As\<close> for \<open>net.Error\<close>: \<open>context.DeadlineExceeded\<close> implements that interface.\<close>

fun as_net_error :: "go_error \<Rightarrow> bool" where
  "as_net_error (WrapError s e) = as_net_error e"
| "as_net_error ContextDeadlineExceeded = True"
| "as_net_error (ExtError x) = x_AsNetError x"
| "as_net_error e = False"

section \<open>Contexts\<close>

text \<open>
  A context of the code is made by \<open>context.Background\<close> or \<open>context.WithTimeout\<close> of it. Time
  is counted in nanoseconds. A context that is done stays done: cancelling it after its deadline
  does not change its error.
\<close>

record ctx =
  ctx_deadline :: "int option"
  ctx_canceled :: bool

definition background :: ctx where
  "background = \<lparr>ctx_deadline = None, ctx_canceled = False\<rparr>"

definition with_timeout :: "int \<Rightarrow> int \<Rightarrow> ctx" where
  "with_timeout now d = \<lparr>ctx_deadline = Some (now + d), ctx_canceled = False\<rparr>"

definition ctx_err :: "int \<Rightarrow> ctx \<Rightarrow> go_error option" where
  "ctx_err now c =
     (if ctx_canceled c then Some ContextCanceled
      else case ctx_deadline c of
             None \<Rightarrow> None
           | Some t \<Rightarrow> if t \<le> now then Some ContextDeadlineExceeded else None)"

definition cancel :: "int \<Rightarrow> ctx \<Rightarrow> ctx" where
  "cancel now c = (if ctx_err now c = None then c\<lparr>ctx_canceled := True\<rparr> else c)"

definition second :: int where
  "second = 1000000000"

section \<open>Facts\<close>

lemma root_cause_not_wrap: "root_cause e \<noteq> WrapError s e'"
  by (induction e) auto

lemma error_class_root [go_error_simps]:
  "is_ownership_error (root_cause e) = is_ownership_error e"
  "is_rollout_timeout (root_cause e) = is_rollout_timeout e"
  "is_rollout_failed (root_cause e) = is_rollout_failed e"
  "is_deadline_exceeded (root_cause e) = is_deadline_exceeded e"
  "api_error p (root_cause e) = api_error p e"
  "as_net_error (root_cause e) = as_net_error e"
  by (induction e) auto

lemma is_lease_busy_simps [simp]:
  "is_lease_busy OrchestrationLeaseBusy"
  "is_lease_busy (WrapError s e) = is_lease_busy e"
  "\<not> is_lease_busy (ErrorString s)"
  "\<not> is_lease_busy (OwnershipError s)"
  by (simp_all add: is_lease_busy_def)

text \<open>The rollout errors are told apart: no error is of two of the classes.\<close>

lemma error_classes_disjoint:
  "\<not> (is_rollout_timeout e \<and> is_rollout_failed e)"
  "\<not> (is_rollout_timeout e \<and> is_ownership_error e)"
  "\<not> (is_rollout_failed e \<and> is_ownership_error e)"
  by (induction e) auto

lemma ctx_err_background [simp]: "ctx_err now background = None"
  by (simp add: ctx_err_def background_def)

lemma ctx_err_with_timeout [simp]:
  "ctx_err t (with_timeout now d) = (if now + d \<le> t then Some ContextDeadlineExceeded else None)"
  by (simp add: ctx_err_def with_timeout_def)

lemma ctx_err_cancel: "t0 \<le> t \<Longrightarrow> ctx_err t (cancel t0 c) \<noteq> None"
  by (auto simp: cancel_def ctx_err_def split: option.splits)

lemma ctx_err_mono: "ctx_err t c \<noteq> None \<Longrightarrow> t \<le> t' \<Longrightarrow> ctx_err t' c \<noteq> None"
  by (auto simp: ctx_err_def split: option.splits if_splits)

end
