(* ===== verification/Config.thy ===== *)
theory Config
  imports GoErrors
begin

text \<open>
  \<open>config.go\<close>: the configuration record that the other components read. Durations are
  nanoseconds in an int64, as \<open>time.Duration\<close> is.
\<close>

record registry_config =
  rc_Host :: string
  rc_Username :: string
  rc_Password :: string

record resource_defaults =
  rd_CPURequest :: string
  rd_CPULimit :: string
  rd_MemoryRequest :: string
  rd_MemoryLimit :: string

record config =
  HTTPPort :: string
  RabbitMQURL :: string
  RabbitMQExchange :: string
  DeploymentExchange :: string
  AppDeployQueue :: string
  BuildSucceededRoutingKey :: string
  DeploySucceededRoutingKey :: string
  DeployFailedRoutingKey :: string
  OrchestrationStartedRoutingKey :: string
  OrchestrationDeployedRoutingKey :: string
  OrchestrationRunningRoutingKey :: string
  OrchestrationFailedRoutingKey :: string
  OrchestrationRetryingRoutingKey :: string
  DatabaseURL :: string
  LedgerSchema :: string
  LeaseDuration :: int64
  MaxAttempts :: int64
  RetryBackoffs :: "int64 list"
  RetryQueuePrefix :: string
  DLQ :: string
  KubeconfigPath :: string
  BaseDomain :: string
  IngressClassName :: string
  NamespacePrefix :: string
  DefaultReplicas :: int32
  DefaultContainerPort :: int32
  RolloutTimeout :: int64
  RolloutPollInterval :: int64
  ImagePullSecretName :: string
  TLSSecretName :: string
  DeploymentProgressDeadline :: int32
  cfg_ResourceDefaults :: resource_defaults
  cfg_Registry :: registry_config

definition defaultAppContainerPort :: int32 where
  "defaultAppContainerPort = 3000"

text \<open>A concrete configuration (the defaults of \<open>loadConfig\<close> where it has them), for examples.\<close>

definition sample_config :: config where
  "sample_config = \<lparr>HTTPPort = ''8086'', RabbitMQURL = [], RabbitMQExchange = ''shiply.events'',
     DeploymentExchange = ''shiply.deployments'', AppDeployQueue = ''app.deploy'',
     BuildSucceededRoutingKey = ''build.succeeded'', DeploySucceededRoutingKey = ''deploy.succeeded'',
     DeployFailedRoutingKey = ''deploy.failed'', OrchestrationStartedRoutingKey = ''orchestration.started'',
     OrchestrationDeployedRoutingKey = ''orchestration.deployed'',
     OrchestrationRunningRoutingKey = ''orchestration.running'',
     OrchestrationFailedRoutingKey = ''orchestration.failed'',
     OrchestrationRetryingRoutingKey = ''orchestration.retrying'', DatabaseURL = [], LedgerSchema = ''public'',
     LeaseDuration = 900000000000, MaxAttempts = 5, RetryBackoffs = [30000000000, 120000000000],
     RetryQueuePrefix = ''app.deploy.retry'', DLQ = ''app.deploy.dlq'', KubeconfigPath = [],
     BaseDomain = ''localhost'', IngressClassName = ''nginx'', NamespacePrefix = ''shiply-prj'',
     DefaultReplicas = 1, DefaultContainerPort = 3000, RolloutTimeout = 1200000000000,
     RolloutPollInterval = 2000000000, ImagePullSecretName = [], TLSSecretName = [],
     DeploymentProgressDeadline = 600,
     cfg_ResourceDefaults = \<lparr>rd_CPURequest = ''100m'', rd_CPULimit = ''500m'', rd_MemoryRequest = ''128Mi'',
       rd_MemoryLimit = ''512Mi''\<rparr>,
     cfg_Registry = \<lparr>rc_Host = [], rc_Username = [], rc_Password = []\<rparr>\<rparr>"

end
