(* ===== verification/Names.thy ===== *)
theory Names
  imports Config
begin

text \<open>
  \<open>names.go\<close> and the event types it reads (\<open>events.go\<close>): how a build event becomes a deploy
  request, and a deploy request the names of the Kubernetes objects. The lemmas show that every
  generated name is a DNS-1123 label whatever the event holds, that sanitising is idempotent and
  the identity on clean labels, and on which slugs the names of two services can be told apart.
\<close>

section \<open>Data\<close>

record build_payload =
  bp_ImageTag :: string
  bp_CommitSHA :: string
  bp_Builder :: string
  bp_ProjectSlug :: string
  bp_ServiceSlug :: string
  bp_ContainerPort :: int32

text \<open>\<open>ServiceEvent[T]\<close>; the timestamp is the raw JSON text of the event.\<close>

record 't service_event =
  se_EventID :: string
  se_EventType :: string
  se_Timestamp :: string
  se_DeploymentID :: string
  se_ProjectID :: string
  se_ServiceID :: string
  se_ServiceName :: string
  se_UserID :: string
  se_Payload :: 't

record env_var =
  env_Name :: string
  env_Value :: string

record deploy_request =
  dr_ProjectID :: string
  dr_ServiceID :: string
  dr_ServiceName :: string
  dr_UserID :: string
  dr_DeploymentID :: string
  dr_ImageTag :: string
  dr_CommitSHA :: string
  dr_Environment :: "env_var list"
  dr_ProjectSlug :: string
  dr_ServiceSlug :: string
  dr_ContainerPort :: int32

record deployment_target =
  dt_Namespace :: string
  dt_DeploymentName :: string
  dt_ServiceName :: string
  dt_IngressName :: string
  dt_IngressHost :: string
  dt_ContainerPort :: int32
  dt_TLSEnabled :: bool

definition zero_target :: deployment_target where
  "zero_target = \<lparr>dt_Namespace = [], dt_DeploymentName = [], dt_ServiceName = [], dt_IngressName = [],
     dt_IngressHost = [], dt_ContainerPort = 0, dt_TLSEnabled = False\<rparr>"

section \<open>Operations\<close>

fun firstNonEmpty :: "string list \<Rightarrow> string" where
  "firstNonEmpty [] = []"
| "firstNonEmpty (v # vs) = (if \<not> blank v then v else firstNonEmpty vs)"

definition truncateDNSLabel :: "string \<Rightarrow> string" where
  "truncateDNSLabel value0 =
     (let value = Trim1 (CHR ''-'') value0 in
      if length value \<le> 63 then value else Trim1 (CHR ''-'') (take 63 value))"

definition isAlphaNum :: "rune \<Rightarrow> bool" where
  "isAlphaNum r \<longleftrightarrow> in_range 97 122 r \<or> in_range 48 57 r"

text \<open>The loop of \<open>sanitizeDNSLabel\<close> over the runes of the text, with the builder and \<open>lastDash\<close>.\<close>

fun sanitize_loop :: "rune list \<Rightarrow> string \<Rightarrow> bool \<Rightarrow> string" where
  "sanitize_loop [] builder lastDash = builder"
| "sanitize_loop (r # rs) builder lastDash =
     (if isAlphaNum r then sanitize_loop rs (builder @ encode_rune r) False
      else if length builder = 0 \<or> lastDash then sanitize_loop rs builder lastDash
      else sanitize_loop rs (builder @ [CHR ''-'']) True)"

definition sanitizeDNSLabel :: "string \<Rightarrow> string \<Rightarrow> string" where
  "sanitizeDNSLabel value fallback =
     (let text0 = ToLower (TrimSpace value);
          text = (if text0 = [] then fallback else text0);
          result0 = Trim1 (CHR ''-'') (sanitize_loop (runes text) [] False);
          result = (if result0 = [] then fallback else result0)
      in truncateDNSLabel result)"

definition buildNamespaceName :: "string \<Rightarrow> string \<Rightarrow> string" where
  "buildNamespaceName prefix projectSlug =
     truncateDNSLabel (sanitizeDNSLabel prefix ''shiply-prj'' @ ''-'' @ sanitizeDNSLabel projectSlug ''project'')"

definition buildResourceName :: "string \<Rightarrow> string \<Rightarrow> string" where
  "buildResourceName prefix serviceSlug =
     truncateDNSLabel (sanitizeDNSLabel prefix ''app'' @ ''-'' @ sanitizeDNSLabel serviceSlug ''service'')"

definition buildIngressHost :: "string \<Rightarrow> string \<Rightarrow> string \<Rightarrow> go_error + string" where
  "buildIngressHost serviceSlug projectSlug baseDomain0 =
     (let baseDomain = Trim1 (CHR ''.'') (ToLower (TrimSpace baseDomain0)) in
      if baseDomain = [] then Inl (ErrorString ''missing PLATFORM_BASE_DOMAIN'')
      else let leftLabel = truncateDNSLabel
             (sanitizeDNSLabel serviceSlug ''service'' @ ''-'' @ sanitizeDNSLabel projectSlug ''project'')
           in Inr (leftLabel @ ''.'' @ baseDomain))"

definition deployRequestFromEvent :: "config \<Rightarrow> build_payload service_event \<Rightarrow> deploy_request" where
  "deployRequestFromEvent cfg event =
     (let port = (if sint (DefaultContainerPort cfg) \<le> 0 then defaultAppContainerPort
                  else DefaultContainerPort cfg)
      in \<lparr>dr_ProjectID = se_ProjectID event,
          dr_ServiceID = se_ServiceID event,
          dr_ServiceName = firstNonEmpty [se_ServiceName event, se_ServiceID event],
          dr_UserID = se_UserID event,
          dr_DeploymentID = se_DeploymentID event,
          dr_ImageTag = TrimSpace (bp_ImageTag (se_Payload event)),
          dr_CommitSHA = TrimSpace (bp_CommitSHA (se_Payload event)),
          dr_Environment = [],
          dr_ProjectSlug = firstNonEmpty [bp_ProjectSlug (se_Payload event), se_ProjectID event],
          dr_ServiceSlug = firstNonEmpty [bp_ServiceSlug (se_Payload event), se_ServiceID event],
          dr_ContainerPort = port\<rparr>)"

definition targetForRequest :: "config \<Rightarrow> deploy_request \<Rightarrow> go_error + deployment_target" where
  "targetForRequest cfg request =
     (let projectSlug = sanitizeDNSLabel (dr_ProjectSlug request) ''project'';
          serviceSlug = sanitizeDNSLabel (dr_ServiceSlug request) ''service''
      in case buildIngressHost serviceSlug projectSlug (BaseDomain cfg) of
           Inl err \<Rightarrow> Inl err
         | Inr host \<Rightarrow>
             Inr \<lparr>dt_Namespace = buildNamespaceName (NamespacePrefix cfg) projectSlug,
                  dt_DeploymentName = buildResourceName ''app'' serviceSlug,
                  dt_ServiceName = buildResourceName ''app'' serviceSlug,
                  dt_IngressName = buildResourceName ''app'' serviceSlug,
                  dt_IngressHost = host,
                  dt_ContainerPort = dr_ContainerPort request,
                  dt_TLSEnabled = (TLSSecretName cfg \<noteq> [])\<rparr>)"

text \<open>A Go map literal, as the list of its entries in the order of the source.\<close>

definition labelsForRequest :: "deploy_request \<Rightarrow> (string \<times> string) list" where
  "labelsForRequest request =
     [(''shiply.io/managed-by'', ''orchestration-service''),
      (''shiply.io/deployment-id'', dr_DeploymentID request),
      (''shiply.io/project-id'', dr_ProjectID request),
      (''shiply.io/project-slug'', sanitizeDNSLabel (dr_ProjectSlug request) ''project''),
      (''shiply.io/service-id'', dr_ServiceID request),
      (''shiply.io/service-slug'', sanitizeDNSLabel (dr_ServiceSlug request) ''service'')]"

section \<open>DNS labels\<close>

definition label_char :: "char \<Rightarrow> bool" where
  "label_char c \<longleftrightarrow> isAlphaNum (byte_of c) \<or> c = CHR ''-''"

definition no_double_dash :: "string \<Rightarrow> bool" where
  "no_double_dash s \<longleftrightarrow> successively (\<lambda>a b. \<not> (a = CHR ''-'' \<and> b = CHR ''-'')) s"

text \<open>The characters and ends of a clean label, of any length.\<close>

definition clean :: "string \<Rightarrow> bool" where
  "clean s \<longleftrightarrow> s \<noteq> [] \<and> (\<forall>c \<in> set s. label_char c) \<and> hd s \<noteq> CHR ''-'' \<and> last s \<noteq> CHR ''-'' \<and>
     no_double_dash s"

text \<open>A label of RFC 1123 as Kubernetes wants names to be.\<close>

definition dns_label :: "string \<Rightarrow> bool" where
  "dns_label s \<longleftrightarrow> s \<noteq> [] \<and> length s \<le> 63 \<and> (\<forall>c \<in> set s. label_char c) \<and>
     hd s \<noteq> CHR ''-'' \<and> last s \<noteq> CHR ''-''"

lemma dns_label_clean: "clean s \<Longrightarrow> length s \<le> 63 \<Longrightarrow> dns_label s"
  by (simp add: clean_def dns_label_def)

lemma alnum_not_dash [simp]: "isAlphaNum (byte_of c) \<Longrightarrow> c \<noteq> CHR ''-''"
  by (auto simp: isAlphaNum_def in_range_def byte_of_def)

lemma isAlphaNum_ascii: "isAlphaNum r \<Longrightarrow> r < 0x80"
  by (auto simp: isAlphaNum_def in_range_def)

lemma label_char_ascii: "label_char c \<Longrightarrow> ascii c"
  by (auto simp: label_char_def ascii_def byte_of_def dest: isAlphaNum_ascii)

lemma label_char_dash [simp]: "label_char (CHR ''-'')"
  by (simp add: label_char_def)

lemma label_char_encode: "isAlphaNum r \<Longrightarrow> encode_rune r = [char_of r] \<and> label_char (char_of r) \<and>
    char_of r \<noteq> CHR ''-''"
  using isAlphaNum_ascii [of r] alnum_not_dash [of "char_of r"]
  by (auto simp: encode_rune_ascii label_char_def)

subsection \<open>The sanitising loop builds a clean text\<close>

text \<open>The builder's invariant: \<open>lastDash\<close> says whether the last character written is a dash.\<close>

definition builder_inv :: "string \<Rightarrow> bool \<Rightarrow> bool" where
  "builder_inv b ld \<longleftrightarrow> (\<forall>c \<in> set b. label_char c) \<and> (b \<noteq> [] \<longrightarrow> hd b \<noteq> CHR ''-'') \<and>
     no_double_dash b \<and> (ld \<longleftrightarrow> b \<noteq> [] \<and> last b = CHR ''-'')"

lemma builder_inv_char:
  "builder_inv b ld \<Longrightarrow> label_char c \<Longrightarrow> c \<noteq> CHR ''-'' \<Longrightarrow> builder_inv (b @ [c]) False"
  by (cases "b = []") (auto simp: builder_inv_def no_double_dash_def successively_append_iff)

lemma builder_inv_dash:
  "builder_inv b ld \<Longrightarrow> \<not> ld \<Longrightarrow> b \<noteq> [] \<Longrightarrow> builder_inv (b @ [CHR ''-'']) True"
  by (auto simp: builder_inv_def no_double_dash_def successively_append_iff)

lemma sanitize_loop_inv: "builder_inv b ld \<Longrightarrow> \<exists>ld'. builder_inv (sanitize_loop rs b ld) ld'"
proof (induction rs arbitrary: b ld)
  case (Cons r rs)
  consider "isAlphaNum r" | "\<not> isAlphaNum r" "b = [] \<or> ld" | "\<not> isAlphaNum r" "b \<noteq> []" "\<not> ld"
    by blast
  then show ?case
  proof cases
    case 1
    then have "builder_inv (b @ encode_rune r) False"
      using builder_inv_char [OF Cons.prems] label_char_encode by auto
    with Cons.IH show ?thesis using 1 by simp
  next
    case 2
    with Cons show ?thesis by auto
  next
    case 3
    then have "builder_inv (b @ [CHR ''-'']) True" using Cons.prems by (intro builder_inv_dash)
    with Cons.IH show ?thesis using 3 by simp
  qed
qed auto

text \<open>Any infix of a dash-separated text that starts and ends with a letter or digit is clean.\<close>

lemma no_double_dash_infix: "no_double_dash (us @ s @ vs) \<Longrightarrow> no_double_dash s"
  by (simp add: no_double_dash_def successively_append_iff)

lemma Trim1_clean:
  assumes "\<forall>c \<in> set s. label_char c" "no_double_dash s" "Trim1 (CHR ''-'') s \<noteq> []"
  shows "clean (Trim1 (CHR ''-'') s)"
proof -
  obtain us vs where s: "s = us @ Trim1 (CHR ''-'') s @ vs"
    using trim_by_infix unfolding Trim1_def by metis
  then have "no_double_dash (Trim1 (CHR ''-'') s)"
    using assms(2) no_double_dash_infix by metis
  then show ?thesis
    using assms Trim1_ends [OF assms(3)] set_Trim1 [of "CHR ''-''" s] by (auto simp: clean_def)
qed

lemma clean_Trim1 [simp]: "clean s \<Longrightarrow> Trim1 (CHR ''-'') s = s"
  by (rule Trim1_id) (simp_all add: clean_def)

lemma truncateDNSLabel_clean:
  assumes "clean s"
  shows "clean (truncateDNSLabel s)" "length (truncateDNSLabel s) \<le> 63"
proof -
  let ?t = "take 63 s"
  have s: "s = [] @ ?t @ drop 63 s" by simp
  have lab: "\<forall>c \<in> set ?t. label_char c" using assms by (auto simp: clean_def dest: in_set_takeD)
  have dd: "no_double_dash ?t" using assms s no_double_dash_infix unfolding clean_def by metis
  have ne: "?t \<noteq> []" and "hd ?t \<noteq> CHR ''-''"
    using assms by (simp_all add: clean_def hd_take)
  with hd_in_set [OF ne] have "Trim1 (CHR ''-'') ?t \<noteq> []" unfolding Trim1_def trim_by_eq_Nil_iff by blast
  then have "clean (Trim1 (CHR ''-'') ?t)" using lab dd Trim1_clean by blast
  then show "clean (truncateDNSLabel s)" using assms by (simp add: truncateDNSLabel_def Let_def)
  show "length (truncateDNSLabel s) \<le> 63"
    using assms length_Trim1 [of "CHR ''-''" ?t] by (simp add: truncateDNSLabel_def Let_def)
qed

lemma truncateDNSLabel_short [simp]: "clean s \<Longrightarrow> length s \<le> 63 \<Longrightarrow> truncateDNSLabel s = s"
  by (simp add: truncateDNSLabel_def)

lemma sanitizeDNSLabel_clean:
  assumes "clean fallback"
  shows "clean (sanitizeDNSLabel value fallback) \<and> length (sanitizeDNSLabel value fallback) \<le> 63"
proof -
  let ?text = "if ToLower (TrimSpace value) = [] then fallback else ToLower (TrimSpace value)"
  let ?b = "sanitize_loop (runes ?text) [] False"
  let ?r = "Trim1 (CHR ''-'') ?b"
  have "builder_inv [] False" by (simp add: builder_inv_def no_double_dash_def)
  then obtain ld where "builder_inv ?b ld" using sanitize_loop_inv by blast
  then have "?r \<noteq> [] \<Longrightarrow> clean ?r" using Trim1_clean [of ?b] by (simp add: builder_inv_def)
  then have "clean (if ?r = [] then fallback else ?r)" using assms by simp
  then show ?thesis
    using truncateDNSLabel_clean by (simp add: sanitizeDNSLabel_def Let_def)
qed

subsection \<open>Sanitising a clean label changes nothing\<close>

lemma sanitize_loop_clean:
  "\<lbrakk>\<forall>c \<in> set s. label_char c; no_double_dash s; s \<noteq> [] \<and> (b = [] \<or> ld) \<longrightarrow> hd s \<noteq> CHR ''-''\<rbrakk>
   \<Longrightarrow> sanitize_loop (map byte_of s) b ld = b @ s"
proof (induction s arbitrary: b ld)
  case (Cons c s)
  have dd: "no_double_dash s" and nd: "c = CHR ''-'' \<Longrightarrow> s \<noteq> [] \<Longrightarrow> hd s \<noteq> CHR ''-''"
    using Cons.prems(2) by (cases s; simp add: no_double_dash_def)+
  show ?case
  proof (cases "c = CHR ''-''")
    case True
    have "\<not> isAlphaNum (byte_of c)" using True by (simp add: isAlphaNum_def in_range_def byte_of_def)
    moreover have "b \<noteq> [] \<and> \<not> ld" using Cons.prems(3) True by auto
    ultimately show ?thesis using Cons.IH [of "b @ ''-''" True] Cons.prems(1) dd nd True by simp
  next
    case False
    then have a: "isAlphaNum (byte_of c)" using Cons.prems(1) by (simp add: label_char_def)
    then show ?thesis
      using Cons.IH [of "b @ [c]" False] Cons.prems(1) dd label_char_encode [OF a] by simp
  qed
qed simp

lemma label_char_not_space: "label_char c \<Longrightarrow> \<not> is_space (byte_of c)"
  by (auto simp: label_char_def isAlphaNum_def is_space_def in_range_def byte_of_def)

lemma label_char_lower: "label_char c \<Longrightarrow> char_of (to_lower_rune (byte_of c)) = c"
  by (auto simp: label_char_def isAlphaNum_def to_lower_rune_def in_range_def byte_of_def)

lemma TrimSpace_label: "\<forall>c \<in> set s. label_char c \<Longrightarrow> TrimSpace s = s"
  by (subst TrimSpace_ascii) (auto simp: label_char_ascii label_char_not_space intro!: trim_by_id)

lemma ToLower_label: "\<forall>c \<in> set s. label_char c \<Longrightarrow> ToLower s = s"
  by (subst ToLower_ascii) (auto simp: label_char_ascii label_char_lower intro: map_idI)

lemma sanitizeDNSLabel_id:
  assumes "clean s" "length s \<le> 63"
  shows "sanitizeDNSLabel s fallback = s"
proof -
  have l: "\<forall>c \<in> set s. label_char c" and ne: "s \<noteq> []" using assms(1) by (simp_all add: clean_def)
  have "runes s = map byte_of s" using l by (intro runes_ascii) (simp add: label_char_ascii)
  moreover have "sanitize_loop (map byte_of s) [] False = s"
    using assms(1) by (subst sanitize_loop_clean) (simp_all add: clean_def)
  ultimately show ?thesis
    using assms l ne by (simp add: sanitizeDNSLabel_def TrimSpace_label ToLower_label Let_def)
qed

subsection \<open>The names of the Kubernetes objects\<close>

lemma clean_join: "clean a \<Longrightarrow> clean b \<Longrightarrow> clean (a @ ''-'' @ b)"
  by (cases b) (auto simp: clean_def no_double_dash_def successively_append_iff successively_Cons)

lemma clean_constants [simp]:
  "clean ''app''" "clean ''project''" "clean ''service''" "clean ''shiply-prj''"
  by (simp_all add: clean_def label_char_def isAlphaNum_def in_range_def byte_of_def no_double_dash_def)

lemma clean_sanitized [simp]:
  "clean (sanitizeDNSLabel v ''app'')" "clean (sanitizeDNSLabel v ''project'')"
  "clean (sanitizeDNSLabel v ''service'')" "clean (sanitizeDNSLabel v ''shiply-prj'')"
  by (simp_all add: sanitizeDNSLabel_clean)

lemma sanitize_sanitized [simp]:
  "sanitizeDNSLabel (sanitizeDNSLabel v ''project'') fb = sanitizeDNSLabel v ''project''"
  "sanitizeDNSLabel (sanitizeDNSLabel v ''service'') fb = sanitizeDNSLabel v ''service''"
  by (simp_all add: sanitizeDNSLabel_id sanitizeDNSLabel_clean)

lemma sanitize_app [simp]: "sanitizeDNSLabel ''app'' fb = ''app''"
  by (simp add: sanitizeDNSLabel_id)

lemma buildNamespaceName_clean:
  "clean (buildNamespaceName prefix slug) \<and> length (buildNamespaceName prefix slug) \<le> 63"
  unfolding buildNamespaceName_def by (intro conjI truncateDNSLabel_clean clean_join) simp_all

lemma buildResourceName_clean:
  "clean (buildResourceName prefix slug) \<and> length (buildResourceName prefix slug) \<le> 63"
  unfolding buildResourceName_def by (intro conjI truncateDNSLabel_clean clean_join) simp_all

lemmas built_names_label =
  dns_label_clean [OF buildNamespaceName_clean [THEN conjunct1] buildNamespaceName_clean [THEN conjunct2]]
  dns_label_clean [OF buildResourceName_clean [THEN conjunct1] buildResourceName_clean [THEN conjunct2]]

lemma targetForRequest_Inr:
  assumes "targetForRequest cfg r = Inr t"
  shows "dt_Namespace t = buildNamespaceName (NamespacePrefix cfg) (dr_ProjectSlug r)"
    "dt_DeploymentName t = buildResourceName ''app'' (dr_ServiceSlug r)"
    "dt_ServiceName t = dt_DeploymentName t" "dt_IngressName t = dt_DeploymentName t"
    "buildIngressHost (dr_ServiceSlug r) (dr_ProjectSlug r) (BaseDomain cfg) = Inr (dt_IngressHost t)"
    "dt_ContainerPort t = dr_ContainerPort r" "dt_TLSEnabled t \<longleftrightarrow> TLSSecretName cfg \<noteq> []"
  using assms
  by (auto simp: targetForRequest_def buildNamespaceName_def buildResourceName_def
      buildIngressHost_def Let_def split: sum.splits if_splits)

section \<open>Properties\<close>

text \<open>C34. For every request the names of the Kubernetes objects and the left label of the ingress host
  are DNS-1123 labels, the three objects share one name, and the only error is an empty base domain.\<close>

theorem targetForRequest_names:
  "case targetForRequest cfg r of
     Inl e \<Rightarrow> Trim1 (CHR ''.'') (ToLower (TrimSpace (BaseDomain cfg))) = [] \<and>
              e = ErrorString ''missing PLATFORM_BASE_DOMAIN''
   | Inr t \<Rightarrow> dns_label (dt_Namespace t) \<and> dns_label (dt_DeploymentName t) \<and>
       dt_ServiceName t = dt_DeploymentName t \<and> dt_IngressName t = dt_DeploymentName t \<and>
       dt_ContainerPort t = dr_ContainerPort r \<and> (dt_TLSEnabled t \<longleftrightarrow> TLSSecretName cfg \<noteq> []) \<and>
       Trim1 (CHR ''.'') (ToLower (TrimSpace (BaseDomain cfg))) \<noteq> [] \<and>
       (\<exists>label. dns_label label \<and>
          dt_IngressHost t = label @ ''.'' @ Trim1 (CHR ''.'') (ToLower (TrimSpace (BaseDomain cfg))))"
proof (cases "targetForRequest cfg r")
  case (Inl e)
  then show ?thesis by (auto simp: targetForRequest_def buildIngressHost_def Let_def split: if_splits)
next
  case (Inr t)
  have j: "clean (sanitizeDNSLabel a ''service'' @ ''-'' @ sanitizeDNSLabel b ''project'')" for a b
    by (intro clean_join) simp_all
  have h: "dns_label (truncateDNSLabel (sanitizeDNSLabel a ''service'' @ ''-'' @ sanitizeDNSLabel b ''project''))" for a b
    by (intro dns_label_clean truncateDNSLabel_clean j)
  have "Trim1 (CHR ''.'') (ToLower (TrimSpace (BaseDomain cfg))) \<noteq> [] \<and> (\<exists>label. dns_label label \<and>
      dt_IngressHost t = label @ ''.'' @ Trim1 (CHR ''.'') (ToLower (TrimSpace (BaseDomain cfg))))"
    using targetForRequest_Inr(5) [OF Inr] h unfolding buildIngressHost_def Let_def
    by (metis sum.distinct(1) sum.inject(2))
  then show ?thesis
    using targetForRequest_Inr [OF Inr] built_names_label Inr by simp
qed

text \<open>Sanitising twice is sanitising once, and gives a DNS-1123 label whatever the input.\<close>

theorem sanitizeDNSLabel_idempotent:
  "sanitizeDNSLabel (sanitizeDNSLabel v ''project'') fb = sanitizeDNSLabel v ''project'' \<and>
   sanitizeDNSLabel (sanitizeDNSLabel v ''service'') fb = sanitizeDNSLabel v ''service'' \<and>
   dns_label (sanitizeDNSLabel v ''project'') \<and> dns_label (sanitizeDNSLabel v ''service'')"
  using sanitizeDNSLabel_clean [of "''project''" v] sanitizeDNSLabel_clean [of "''service''" v]
  by (simp add: dns_label_clean)

text \<open>Slugs that are clean labels give different namespaces and different object names, as long as
  the name fits into the 63 characters of a label.\<close>

theorem names_are_injective:
  assumes "clean a" "clean b" "clean p" "length p + length a < 63" "length p + length b < 63"
  shows "(buildNamespaceName p a = buildNamespaceName p b \<longleftrightarrow> a = b) \<and>
    (buildResourceName p a = buildResourceName p b \<longleftrightarrow> a = b)"
proof -
  have s: "sanitizeDNSLabel x fb = x" if "clean x" "length x \<le> 63" for x fb
    by (rule sanitizeDNSLabel_id [OF that])
  have t: "truncateDNSLabel (p @ ''-'' @ x) = p @ ''-'' @ x" if "clean x" "length p + length x < 63" for x
    using that assms(3) by (intro truncateDNSLabel_short clean_join) auto
  show ?thesis
    using assms s t by (simp add: buildNamespaceName_def buildResourceName_def)
qed

theorem names_are_injective_witness:
  "buildNamespaceName ''shiply-prj'' ''app'' \<noteq> buildNamespaceName ''shiply-prj'' ''service''"
  using names_are_injective [of "''app''" "''service''" "''shiply-prj''"] by simp

text \<open>C40. The ingress host does not tell the service from the project: moving a part of the project's slug
  to the service's slug gives the host of another service of another project.\<close>

theorem ingress_host_is_ambiguous:
  assumes "clean a" "clean b" "clean c" "length a + length b + length c < 62"
  shows "buildIngressHost (a @ ''-'' @ b) c domain = buildIngressHost a (b @ ''-'' @ c) domain"
proof -
  have "sanitizeDNSLabel a fb = a" "sanitizeDNSLabel c fb = c" for fb
    using assms by (simp_all add: sanitizeDNSLabel_id)
  moreover have "sanitizeDNSLabel (a @ ''-'' @ b) fb = a @ ''-'' @ b" "sanitizeDNSLabel (b @ ''-'' @ c) fb = b @ ''-'' @ c" for fb
    using assms by (intro sanitizeDNSLabel_id clean_join; simp)+
  ultimately show ?thesis by (simp add: buildIngressHost_def Let_def)
qed

theorem ingress_host_is_ambiguous_witness:
  "buildIngressHost ''app-service'' ''project'' ''localhost'' = buildIngressHost ''app'' ''service-project'' ''localhost''"
  using ingress_host_is_ambiguous [of "''app''" "''service''" "''project''" "''localhost''"] by simp

end
