(* ===== verification/Json.thy ===== *)
theory Json
  imports GoStrings
begin

text \<open>
  What the service uses of \<open>encoding/json\<close>: the values, the text that \<open>json.Marshal\<close> writes
  (strings escaped for HTML as Go does, no white space) and the parser behind \<open>json.Unmarshal\<close>.
  A number is kept as its literal. \<open>parse_json\<close> has a fuel argument inside; the fuel it starts
  with is twice the length of the text, and every call spends one unit for at least half a byte.
\<close>

datatype json =
    JNull
  | JBool bool
  | JNum string
  | JStr string
  | JArr "json list"
  | JObj "(string \<times> json) list"

section \<open>Printing\<close>

definition hex4 :: "nat \<Rightarrow> string" where
  "hex4 n = map (\<lambda>d. ''0123456789abcdef'' ! d) [n div 4096 mod 16, n div 256 mod 16, n div 16 mod 16, n mod 16]"

text \<open>How one chunk of a string is written.\<close>

definition quote_chunk :: "rune \<times> string \<Rightarrow> string" where
  "quote_chunk p =
     (let r = fst p in
      if r < 0x80 then
        (if r = 0x22 \<or> r = 0x5C then [CHR 0x5C, char_of r]
         else if r = 8 then [CHR 0x5C, CHR ''b'']
         else if r = 9 then [CHR 0x5C, CHR ''t'']
         else if r = 10 then [CHR 0x5C, CHR ''n'']
         else if r = 12 then [CHR 0x5C, CHR ''f'']
         else if r = 13 then [CHR 0x5C, CHR ''r'']
         else if r < 0x20 \<or> r = 0x3C \<or> r = 0x3E \<or> r = 0x26 then [CHR 0x5C, CHR ''u''] @ hex4 r
         else [char_of r])
      else if bad_chunk p then [CHR 0x5C, CHR ''u''] @ hex4 0xFFFD
      else if r = 0x2028 \<or> r = 0x2029 then [CHR 0x5C, CHR ''u''] @ hex4 r
      else snd p)"

definition quote_string :: "string \<Rightarrow> string" where
  "quote_string s = CHR 0x22 # concat (map quote_chunk (chunks s)) @ [CHR 0x22]"

definition comma_sep :: "string list \<Rightarrow> string" where
  "comma_sep xs = (case xs of [] \<Rightarrow> [] | y # ys \<Rightarrow> y @ concat (map (\<lambda>z. CHR '','' # z) ys))"

fun json_text :: "json \<Rightarrow> string" where
  "json_text JNull = ''null''"
| "json_text (JBool b) = (if b then ''true'' else ''false'')"
| "json_text (JNum n) = n"
| "json_text (JStr s) = quote_string s"
| "json_text (JArr js) = ''['' @ comma_sep (map json_text js) @ '']''"
| "json_text (JObj kvs) =
     ''{'' @ comma_sep (map (\<lambda>(k, v). quote_string k @ '':'' @ json_text v) kvs) @ ''}''"

section \<open>Parsing\<close>

definition json_space :: "char \<Rightarrow> bool" where
  "json_space c \<longleftrightarrow> c = CHR '' '' \<or> byte_of c = 9 \<or> byte_of c = 10 \<or> byte_of c = 13"

definition skip_space :: "string \<Rightarrow> string" where
  "skip_space s = dropWhile json_space s"

definition is_digit :: "char \<Rightarrow> bool" where
  "is_digit c \<longleftrightarrow> in_range 48 57 (byte_of c)"

definition hex_value :: "char \<Rightarrow> nat option" where
  "hex_value c =
     (let b = byte_of c in
      if in_range 48 57 b then Some (b - 48)
      else if in_range 97 102 b then Some (b - 87)
      else if in_range 65 70 b then Some (b - 55)
      else None)"

text \<open>Four hexadecimal digits at the front of a string.\<close>

fun get_u4 :: "string \<Rightarrow> nat option" where
  "get_u4 (a # b # c # d # s) =
     (case (hex_value a, hex_value b, hex_value c, hex_value d) of
        (Some w, Some x, Some y, Some z) \<Rightarrow> Some (((w * 16 + x) * 16 + y) * 16 + z)
      | _ \<Rightarrow> None)"
| "get_u4 _ = None"

text \<open>
  The rune of an escape \<open>\\uXXXX\<close> and how many bytes after its four digits belong to it: a high
  surrogate joins a low one that follows it, and any other surrogate is U+FFFD.
\<close>

definition u_escape :: "nat \<Rightarrow> string \<Rightarrow> rune \<times> nat" where
  "u_escape u rest =
     (if 0xD800 \<le> u \<and> u < 0xE000 then
        (if u < 0xDC00 \<and> take 2 rest = [CHR 0x5C, CHR ''u''] then
           (case get_u4 (drop 2 rest) of
              Some v \<Rightarrow> if 0xDC00 \<le> v \<and> v < 0xE000
                        then ((u - 0xD800) * 0x400 + (v - 0xDC00) + 0x10000, 6)
                        else (rune_error, 0)
            | None \<Rightarrow> (rune_error, 0))
         else (rune_error, 0))
      else (u, 0))"

definition simple_escape :: "char \<Rightarrow> char option" where
  "simple_escape c =
     map_of [(CHR 0x22, CHR 0x22), (CHR 0x5C, CHR 0x5C), (CHR ''/'', CHR ''/''), (CHR ''b'', CHR 0x08),
       (CHR ''f'', CHR 0x0C), (CHR ''n'', CHR 0x0A), (CHR ''r'', CHR 0x0D), (CHR ''t'', CHR 0x09)] c"

text \<open>The characters of a string literal after its opening quote, and what follows the closing one.\<close>

fun parse_chars :: "nat \<Rightarrow> string \<Rightarrow> (string \<times> string) option" where
  "parse_chars 0 s = None"
| "parse_chars (Suc n) [] = None"
| "parse_chars (Suc n) (c # s) =
     (if c = CHR 0x22 then Some ([], s)
      else if byte_of c < 0x20 then None
      else if c = CHR 0x5C then
        (case s of
           [] \<Rightarrow> None
         | e # t \<Rightarrow>
             if e = CHR ''u'' then
               (case get_u4 t of
                  None \<Rightarrow> None
                | Some u \<Rightarrow>
                    let (r, k) = u_escape u (drop 4 t)
                    in map_option (\<lambda>(x, y). (encode_rune r @ x, y)) (parse_chars n (drop (4 + k) t)))
             else (case simple_escape e of
                     None \<Rightarrow> None
                   | Some d \<Rightarrow> map_option (\<lambda>(x, y). (d # x, y)) (parse_chars n t)))
      else let (r, k) = decode_rune (c # s)
           in map_option (\<lambda>(x, y). (encode_rune r @ x, y)) (parse_chars n (drop (k - 1) s)))"

text \<open>A number literal at the front of a string: sign, integer part, fraction, exponent.\<close>

definition unsigned_prefix :: "string \<Rightarrow> string option" where
  "unsigned_prefix s1 =
     (let ip = (if take 1 s1 = ''0'' then ''0'' else takeWhile is_digit s1);
          s2 = drop (length ip) s1;
          fd = takeWhile is_digit (drop 1 s2);
          fr = (if take 1 s2 = ''.'' then ''.'' @ fd else []);
          s3 = drop (length fr) s2;
          em = (take 1 s3 = ''e'' \<or> take 1 s3 = ''E'');
          s4 = drop 1 s3;
          es = (if take 1 s4 = ''+'' \<or> take 1 s4 = ''-'' then take 1 s4 else []);
          ed = takeWhile is_digit (drop (length es) s4);
          ex = (if em then take 1 s3 @ es @ ed else [])
      in if ip = [] \<or> (fr \<noteq> [] \<and> fd = []) \<or> (em \<and> ed = []) then None
         else Some (ip @ fr @ ex))"

definition number_prefix :: "string \<Rightarrow> string option" where
  "number_prefix s =
     (if take 1 s = ''-'' then map_option (\<lambda>x. CHR ''-'' # x) (unsigned_prefix (drop 1 s))
      else unsigned_prefix s)"

definition strip_prefix :: "string \<Rightarrow> string \<Rightarrow> string option" where
  "strip_prefix p s = (if take (length p) s = p then Some (drop (length p) s) else None)"

text \<open>Does the text go on with this character?\<close>

definition starts :: "char \<Rightarrow> string \<Rightarrow> bool" where
  "starts c s \<longleftrightarrow> s \<noteq> [] \<and> hd s = c"

fun parse_value :: "nat \<Rightarrow> string \<Rightarrow> (json \<times> string) option"
  and parse_elems :: "nat \<Rightarrow> string \<Rightarrow> (json list \<times> string) option"
  and parse_members :: "nat \<Rightarrow> string \<Rightarrow> ((string \<times> json) list \<times> string) option" where
  "parse_value 0 s0 = None"
| "parse_value (Suc n) s0 =
     (let s = skip_space s0; t = skip_space (tl s) in
      if s = [] then None
      else if starts (CHR 0x22) s then
        map_option (\<lambda>(x, y). (JStr x, y)) (parse_chars (length s) (tl s))
      else if starts (CHR ''['') s then
        (if starts (CHR '']'') t then Some (JArr [], tl t)
         else map_option (\<lambda>(x, y). (JArr x, y)) (parse_elems n t))
      else if starts (CHR ''{'') s then
        (if starts (CHR ''}'') t then Some (JObj [], tl t)
         else map_option (\<lambda>(x, y). (JObj x, y)) (parse_members n t))
      else if starts (CHR ''n'') s then map_option (\<lambda>y. (JNull, y)) (strip_prefix ''null'' s)
      else if starts (CHR ''t'') s then map_option (\<lambda>y. (JBool True, y)) (strip_prefix ''true'' s)
      else if starts (CHR ''f'') s then map_option (\<lambda>y. (JBool False, y)) (strip_prefix ''false'' s)
      else map_option (\<lambda>x. (JNum x, drop (length x) s)) (number_prefix s))"
| "parse_elems 0 s = None"
| "parse_elems (Suc n) s =
     (case parse_value n s of
        None \<Rightarrow> None
      | Some (v, t0) \<Rightarrow>
          let t = skip_space t0 in
          if starts (CHR '','') t then map_option (\<lambda>(x, y). (v # x, y)) (parse_elems n (tl t))
          else if starts (CHR '']'') t then Some ([v], tl t)
          else None)"
| "parse_members 0 s0 = None"
| "parse_members (Suc n) s0 =
     (let s = skip_space s0 in
      if \<not> starts (CHR 0x22) s then None
      else case parse_chars (length s) (tl s) of
             None \<Rightarrow> None
           | Some (k, t0) \<Rightarrow>
               let t = skip_space t0 in
               if \<not> starts (CHR '':'') t then None
               else case parse_value n (tl t) of
                      None \<Rightarrow> None
                    | Some (v, u0) \<Rightarrow>
                        let u = skip_space u0 in
                        if starts (CHR '','') u
                        then map_option (\<lambda>(m, y). ((k, v) # m, y)) (parse_members n (tl u))
                        else if starts (CHR ''}'') u then Some ([(k, v)], tl u)
                        else None)"

fun json_depth :: "json \<Rightarrow> nat" where
  "json_depth (JArr js) = Suc (fold max (map json_depth js) 0)"
| "json_depth (JObj kvs) = Suc (fold max (map (\<lambda>(k, v). json_depth v) kvs) 0)"
| "json_depth _ = 0"

text \<open>
  The whole text is one value, with white space around it, nested at most 10000 deep: what
  \<open>json.Unmarshal\<close> checks before it decodes.
\<close>

definition parse_json :: "string \<Rightarrow> json option" where
  "parse_json s =
     (case parse_value (2 * length s + 2) s of
        None \<Rightarrow> None
      | Some (v, t) \<Rightarrow> if skip_space t = [] \<and> json_depth v \<le> 10000 then Some v else None)"

section \<open>Decoding into fields\<close>

text \<open>
  Keys of an object are matched to the fields of a struct without regard to case. The fold of an
  ASCII letter is its capital, and two runes outside ASCII fold to one (U+017F and U+212A).
\<close>

definition fold_rune :: "rune \<Rightarrow> rune" where
  "fold_rune r = (if in_range 97 122 r then r - 32 else if r = 0x17F then 83 else if r = 0x212A then 75 else r)"

definition same_key :: "string \<Rightarrow> string \<Rightarrow> bool" where
  "same_key a b \<longleftrightarrow> map fold_rune (runes a) = map fold_rune (runes b)"

text \<open>
  Storing a value into a field: \<open>null\<close> leaves it as it is, a value of the wrong kind is an error.
  An error does not stop the decoder, but \<open>json.Unmarshal\<close> returns it in the end.
\<close>

definition set_string :: "json \<Rightarrow> string \<Rightarrow> string option" where
  "set_string v old = (case v of JStr s \<Rightarrow> Some s | JNull \<Rightarrow> Some old | _ \<Rightarrow> None)"

fun digits_val :: "string \<Rightarrow> nat option" where
  "digits_val s = (if s \<noteq> [] \<and> list_all is_digit s then Some (read_nat s) else None)"

definition int_literal :: "string \<Rightarrow> int option" where
  "int_literal s =
     (if starts (CHR ''-'') s then map_option (\<lambda>n. - int n) (digits_val (tl s))
      else map_option int (digits_val s))"

definition set_int32 :: "json \<Rightarrow> int32 \<Rightarrow> int32 option" where
  "set_int32 v old =
     (case v of
        JNum n \<Rightarrow> (case int_literal n of
                    Some i \<Rightarrow> if - 2147483648 \<le> i \<and> i < 2147483648 then Some (word_of_int i) else None
                  | None \<Rightarrow> None)
      | JNull \<Rightarrow> Some old
      | _ \<Rightarrow> None)"

end
