(* ===== verification/Sha256.thy ===== *)
theory Sha256
  imports GoStrings
begin

text \<open>
  \<open>crypto/sha256\<close> and \<open>encoding/hex\<close>, which \<open>deploymentEventID\<close> (\<open>events.go\<close>) calls:
  the hash of FIPS 180-4 on lists of byte values, and lower-case hexadecimal.
\<close>

unbundle bit_operations_syntax

type_synonym word32 = "32 word"

text \<open>The round constants (the fractions of the cube roots of the first 64 primes) and the initial state.\<close>

definition sha_K :: "word32 list" where
  "sha_K =
     [1116352408, 1899447441, 3049323471, 3921009573, 961987163, 1508970993, 2453635748, 2870763221,
      3624381080, 310598401, 607225278, 1426881987, 1925078388, 2162078206, 2614888103, 3248222580,
      3835390401, 4022224774, 264347078, 604807628, 770255983, 1249150122, 1555081692, 1996064986,
      2554220882, 2821834349, 2952996808, 3210313671, 3336571891, 3584528711, 113926993, 338241895,
      666307205, 773529912, 1294757372, 1396182291, 1695183700, 1986661051, 2177026350, 2456956037,
      2730485921, 2820302411, 3259730800, 3345764771, 3516065817, 3600352804, 4094571909, 275423344,
      430227734, 506948616, 659060556, 883997877, 958139571, 1322822218, 1537002063, 1747873779,
      1955562222, 2024104815, 2227730452, 2361852424, 2428436474, 2756734187, 3204031479, 3329325298]"

definition sha_init :: "word32 list" where
  "sha_init = [1779033703, 3144134277, 1013904242, 2773480762, 1359893119, 2600822924, 528734635, 1541459225]"

definition sigma0 :: "word32 \<Rightarrow> word32" where
  "sigma0 x = (word_rotr 7 x XOR word_rotr 18 x) XOR drop_bit 3 x"

definition sigma1 :: "word32 \<Rightarrow> word32" where
  "sigma1 x = (word_rotr 17 x XOR word_rotr 19 x) XOR drop_bit 10 x"

definition Sigma0 :: "word32 \<Rightarrow> word32" where
  "Sigma0 x = (word_rotr 2 x XOR word_rotr 13 x) XOR word_rotr 22 x"

definition Sigma1 :: "word32 \<Rightarrow> word32" where
  "Sigma1 x = (word_rotr 6 x XOR word_rotr 11 x) XOR word_rotr 25 x"

text \<open>Big-endian numbers.\<close>

fun be_word :: "nat list \<Rightarrow> word32" where
  "be_word [a, b, c, d] = of_nat (((a * 256 + b) * 256 + c) * 256 + d)"
| "be_word _ = 0"

fun be_bytes :: "nat \<Rightarrow> nat \<Rightarrow> nat list" where
  "be_bytes 0 n = []"
| "be_bytes (Suc k) n = be_bytes k (n div 256) @ [n mod 256]"

fun groups :: "nat \<Rightarrow> nat \<Rightarrow> 'a list \<Rightarrow> 'a list list" where
  "groups 0 k xs = []"
| "groups (Suc n) k xs = take k xs # groups n k (drop k xs)"

definition sha_pad :: "nat list \<Rightarrow> nat list" where
  "sha_pad m =
     (let l = length m; z = (119 - l mod 64) mod 64
      in m @ [0x80] @ replicate z 0 @ be_bytes 8 (8 * l mod 2 ^ 64))"

fun sha_schedule :: "nat \<Rightarrow> word32 list \<Rightarrow> word32 list" where
  "sha_schedule 0 w = w"
| "sha_schedule (Suc n) w =
     (let t = length w
      in sha_schedule n (w @ [sigma1 (w ! (t - 2)) + w ! (t - 7) + sigma0 (w ! (t - 15)) + w ! (t - 16)]))"

fun sha_round :: "word32 \<times> word32 \<Rightarrow> word32 list \<Rightarrow> word32 list" where
  "sha_round (k, w) [a, b, c, d, e, f, g, h] =
     (let t1 = h + Sigma1 e + ((e AND f) XOR (NOT e AND g)) + k + w;
          t2 = Sigma0 a + ((a AND b) XOR (a AND c) XOR (b AND c))
      in [t1 + t2, a, b, c, d + t1, e, f, g])"
| "sha_round _ s = s"

definition sha_block :: "nat list \<Rightarrow> word32 list \<Rightarrow> word32 list" where
  "sha_block blk hs =
     (let w = sha_schedule 48 (map be_word (groups 16 4 blk))
      in map2 (+) hs (fold sha_round (zip sha_K w) hs))"

definition sha256 :: "nat list \<Rightarrow> nat list" where
  "sha256 m =
     (let p = sha_pad m
      in concat (map (\<lambda>x. be_bytes 4 (unat x))
           (fold sha_block (groups (length p div 64) 64 p) sha_init)))"

section \<open>Hexadecimal\<close>

definition hex_digit :: "nat \<Rightarrow> char" where
  "hex_digit n = ''0123456789abcdef'' ! n"

definition hex_encode :: "nat list \<Rightarrow> string" where
  "hex_encode bs = concat (map (\<lambda>b. [hex_digit (b div 16), hex_digit (b mod 16)]) bs)"

section \<open>Facts\<close>

lemma length_be_bytes [simp]: "length (be_bytes k n) = k"
  by (induction k n rule: be_bytes.induct) simp_all

lemma be_bytes_less: "b \<in> set (be_bytes k n) \<Longrightarrow> b < 256"
  by (induction k n rule: be_bytes.induct) auto

lemma length_sha_round [simp]: "length (sha_round kw s) = length s"
  by (induction kw s rule: sha_round.induct) (simp_all add: Let_def)

lemma length_fold_sha_round [simp]: "length (fold sha_round kws s) = length s"
  by (induction kws arbitrary: s) simp_all

lemma length_sha_block [simp]: "length (sha_block blk hs) = length hs"
  by (simp add: sha_block_def Let_def)

lemma length_fold_sha_block [simp]: "length (fold sha_block bs hs) = length hs"
  by (induction bs arbitrary: hs) simp_all

text \<open>The padded message is a whole number of blocks.\<close>

lemma sha_pad_blocks: "length (sha_pad m) mod 64 = 0"
proof -
  have "(l + 1 + (119 - l mod 64) mod 64 + 8) mod 64 = 0" for l :: nat
  proof -
    obtain q r where l: "l = 64 * q + r" "r < 64" "l mod 64 = r"
      by (metis mult_div_mod_eq mod_less_divisor zero_less_numeral)
    have "(119 - r) mod 64 = (if r \<le> 55 then 55 - r else 119 - r)"
    proof (cases "r \<le> 55")
      case True
      then have "119 - r = (55 - r) + 64" by simp
      then show ?thesis using True mod_add_self2 [of "55 - r" 64] by simp
    qed simp
    then have "l + 1 + (119 - l mod 64) mod 64 + 8 = 64 * (if r \<le> 55 then q + 1 else q + 2)"
      using l by simp
    then show ?thesis by (metis mod_mult_self1_is_0)
  qed
  then show ?thesis by (simp add: sha_pad_def Let_def ac_simps)
qed

lemma length_concat_const: "(\<And>x. length (f x) = k) \<Longrightarrow> length (concat (map f xs)) = k * length xs"
  by (induction xs) simp_all

lemma length_sha256: "length (sha256 m) = 32"
  by (simp add: sha256_def Let_def length_concat_const [where k = 4] sha_init_def)

lemma sha256_bytes: "b \<in> set (sha256 m) \<Longrightarrow> b < 256"
  by (auto simp: sha256_def Let_def dest: be_bytes_less)

lemma length_hex_encode: "length (hex_encode bs) = 2 * length bs"
  by (simp add: hex_encode_def length_concat_const [where k = 2])

lemma hex_digit_alnum: "n < 16 \<Longrightarrow> hex_digit n \<in> set ''0123456789abcdef''"
  unfolding hex_digit_def by (rule nth_mem) simp

lemma hex_encode_digits:
  assumes "\<forall>b \<in> set bs. b < 256"
  shows "set (hex_encode bs) \<subseteq> set ''0123456789abcdef''"
proof
  fix c assume "c \<in> set (hex_encode bs)"
  then obtain b where "b \<in> set bs" "c = hex_digit (b div 16) \<or> c = hex_digit (b mod 16)"
    by (auto simp: hex_encode_def)
  moreover have "b div 16 < 16" "b mod 16 < 16" using \<open>b \<in> set bs\<close> assms by auto
  ultimately show "c \<in> set ''0123456789abcdef''" using hex_digit_alnum by blast
qed

end
