(* ===== verification/Events.thy ===== *)
theory Events
  imports Names Json Sha256 "HOL-Library.List_Lexorder" "HOL-Library.Char_ord"
begin

text \<open>
  \<open>events.go\<close>: the events the service publishes, how they are built from the build event, and
  their JSON form (the struct tags). \<open>event_any\<close> is what the code passes as \<open>any\<close> to a publish
  function. A \<open>map[string]any\<close> is the list of its entries in source order; \<open>json.Marshal\<close> writes
  them sorted by key. The texts of the errors of \<open>encoding/json\<close> are abstracted to one constant
  per cause, since the service only logs them and copies them into a header.
\<close>

section \<open>Constants\<close>

definition deploySucceededEventType :: string where "deploySucceededEventType = ''deploy.succeeded''"
definition deployFailedEventType :: string where "deployFailedEventType = ''deploy.failed''"
definition deploymentOrchestrationStartedType :: string where
  "deploymentOrchestrationStartedType = ''deployment.orchestration.started''"
definition deploymentOrchestrationDeployedType :: string where
  "deploymentOrchestrationDeployedType = ''deployment.orchestration.deployed''"
definition deploymentOrchestrationRunningType :: string where
  "deploymentOrchestrationRunningType = ''deployment.orchestration.running''"
definition deploymentOrchestrationFailedType :: string where
  "deploymentOrchestrationFailedType = ''deployment.orchestration.failed''"
definition deploymentOrchestrationRetryingType :: string where
  "deploymentOrchestrationRetryingType = ''deployment.orchestration.retrying''"
definition orchestrationStatus :: string where "orchestrationStatus = ''ORCHESTRATING''"
definition deployedStatus :: string where "deployedStatus = ''DEPLOYED''"
definition runningStatus :: string where "runningStatus = ''RUNNING''"
definition deployFailedStatus :: string where "deployFailedStatus = ''DEPLOY_FAILED''"
definition deployRetryingStatus :: string where "deployRetryingStatus = ''DEPLOY_RETRYING''"

section \<open>Event types\<close>

datatype meta = MetaString string | MetaInt int | MetaBool bool

record deployment_event =
  de_EventID :: string
  de_DeploymentID :: string
  de_ProjectID :: string
  de_ServiceName :: string
  de_EventType :: string
  de_Status :: string
  de_Timestamp :: int
  de_Metadata :: "(string \<times> meta) list"

record deploy_succeeded_payload =
  sp_ImageTag :: string
  sp_CommitSHA :: string
  sp_Namespace :: string
  sp_DeploymentName :: string
  sp_ServiceName :: string
  sp_IngressHost :: string
  sp_ContainerPort :: int32

record deploy_failed_payload =
  fp_ImageTag :: string
  fp_CommitSHA :: string
  fp_Namespace :: string
  fp_DeploymentName :: string
  fp_IngressHost :: string
  fp_ContainerPort :: int32
  fp_ErrorMessage :: string

datatype event_any =
    SucceededEvent "deploy_succeeded_payload service_event"
  | FailedEvent "deploy_failed_payload service_event"
  | ProgressEvent deployment_event
  | StoredEvent json

section \<open>Time stamps\<close>

text \<open>The civil date of a day number (days since 1970-01-01) in the Gregorian calendar.\<close>

definition civil_of_days :: "int \<Rightarrow> int \<times> int \<times> int" where
  "civil_of_days days =
     (let z = days + 719468;
          era = z div 146097;
          doe = z mod 146097;
          yoe = (doe - doe div 1460 + doe div 36524 - doe div 146096) div 365;
          doy = doe - (365 * yoe + yoe div 4 - yoe div 100);
          mp = (5 * doy + 2) div 153;
          d = doy - (153 * mp + 2) div 5 + 1;
          m = (if mp < 10 then mp + 3 else mp - 9);
          y = yoe + era * 400 + (if m \<le> 2 then 1 else 0)
      in (y, m, d))"

definition pad_left :: "nat \<Rightarrow> string \<Rightarrow> string" where
  "pad_left n s = replicate (n - length s) (CHR ''0'') @ s"

text \<open>\<open>time.Time.MarshalJSON\<close> of a UTC time: RFC 3339 with nanoseconds, trailing zeros dropped.\<close>

definition marshal_time :: "int \<Rightarrow> string option" where
  "marshal_time t =
     (let secs = t div 1000000000; ns = t mod 1000000000;
          (y, m, d) = civil_of_days (secs div 86400);
          sod = secs mod 86400;
          frac = rev (dropWhile (\<lambda>c. c = CHR ''0'') (rev (pad_left 9 (show_int ns))))
      in if y < 0 \<or> 9999 < y then None
         else Some ([CHR 0x22] @ pad_left 4 (show_int y) @ ''-'' @ pad_left 2 (show_int m) @ ''-'' @
           pad_left 2 (show_int d) @ ''T'' @ pad_left 2 (show_int (sod div 3600)) @ '':'' @
           pad_left 2 (show_int (sod div 60 mod 60)) @ '':'' @ pad_left 2 (show_int (sod mod 60)) @
           (if frac = [] then [] else ''.'' @ frac) @ ''Z'' @ [CHR 0x22]))"

definition marshalTimestamp :: "int \<Rightarrow> string" where
  "marshalTimestamp timestamp = (case marshal_time timestamp of None \<Rightarrow> ''null'' | Some payload \<Rightarrow> payload)"

section \<open>Constructors\<close>

definition deploymentEventID :: "string \<Rightarrow> string \<Rightarrow> string \<Rightarrow> string" where
  "deploymentEventID deploymentID stage status =
     hex_encode (sha256 (map byte_of (deploymentID @ '':'' @ stage @ '':'' @ status)))"

text \<open>The replacement is U+FFFD; the slice \<open>runes[:2000]\<close> is taken when there are more.\<close>

definition sanitizeFailureMessage :: "string \<Rightarrow> string" where
  "sanitizeFailureMessage message0 =
     (let message = ToValidUTF8 message0 (encode_rune rune_error);
          rs0 = runes message;
          rs = (if 2000 < length rs0 then take 2000 rs0 else rs0)
      in encode_runes rs)"

definition newDeploySucceededEvent ::
  "int \<Rightarrow> build_payload service_event \<Rightarrow> deployment_target \<Rightarrow> deploy_succeeded_payload service_event" where
  "newDeploySucceededEvent now request target =
     \<lparr>se_EventID = deploymentEventID (se_DeploymentID request) ''orchestration'' runningStatus,
      se_EventType = deploySucceededEventType,
      se_Timestamp = marshalTimestamp now,
      se_DeploymentID = se_DeploymentID request,
      se_ProjectID = se_ProjectID request,
      se_ServiceID = se_ServiceID request,
      se_ServiceName = se_ServiceName request,
      se_UserID = se_UserID request,
      se_Payload = \<lparr>sp_ImageTag = bp_ImageTag (se_Payload request),
        sp_CommitSHA = bp_CommitSHA (se_Payload request),
        sp_Namespace = dt_Namespace target,
        sp_DeploymentName = dt_DeploymentName target,
        sp_ServiceName = dt_ServiceName target,
        sp_IngressHost = dt_IngressHost target,
        sp_ContainerPort = dt_ContainerPort target\<rparr>\<rparr>"

definition newDeployFailedEvent ::
  "int \<Rightarrow> build_payload service_event \<Rightarrow> deployment_target \<Rightarrow> go_error \<Rightarrow>
   deploy_failed_payload service_event" where
  "newDeployFailedEvent now request target err =
     \<lparr>se_EventID = deploymentEventID (se_DeploymentID request) ''orchestration'' deployFailedStatus,
      se_EventType = deployFailedEventType,
      se_Timestamp = marshalTimestamp now,
      se_DeploymentID = se_DeploymentID request,
      se_ProjectID = se_ProjectID request,
      se_ServiceID = se_ServiceID request,
      se_ServiceName = se_ServiceName request,
      se_UserID = se_UserID request,
      se_Payload = \<lparr>fp_ImageTag = bp_ImageTag (se_Payload request),
        fp_CommitSHA = bp_CommitSHA (se_Payload request),
        fp_Namespace = dt_Namespace target,
        fp_DeploymentName = dt_DeploymentName target,
        fp_IngressHost = dt_IngressHost target,
        fp_ContainerPort = dt_ContainerPort target,
        fp_ErrorMessage = sanitizeFailureMessage (error_text err)\<rparr>\<rparr>"

definition newOrchestrationRetryingEvent ::
  "int \<Rightarrow> build_payload service_event \<Rightarrow> int64 \<Rightarrow> go_error \<Rightarrow> deployment_event" where
  "newOrchestrationRetryingEvent now request attempt err =
     \<lparr>de_EventID = deploymentEventID (se_DeploymentID request) ''orchestration''
        (deployRetryingStatus @ '':'' @ show_int (sint attempt)),
      de_DeploymentID = se_DeploymentID request,
      de_ProjectID = se_ProjectID request,
      de_ServiceName = se_ServiceName request,
      de_EventType = deploymentOrchestrationRetryingType,
      de_Status = deployRetryingStatus,
      de_Timestamp = now,
      de_Metadata = [(''serviceId'', MetaString (se_ServiceID request)),
        (''attempt'', MetaInt (sint attempt)), (''errorMessage'', MetaString (error_text err))]\<rparr>"

definition newOrchestrationRolloutPendingEvent ::
  "int \<Rightarrow> build_payload service_event \<Rightarrow> deployment_target \<Rightarrow> go_error \<Rightarrow> deployment_event" where
  "newOrchestrationRolloutPendingEvent now request target err =
     \<lparr>de_EventID = deploymentEventID (se_DeploymentID request) ''orchestration'' ''ROLLOUT_PENDING'',
      de_DeploymentID = se_DeploymentID request,
      de_ProjectID = se_ProjectID request,
      de_ServiceName = se_ServiceName request,
      de_EventType = deploymentOrchestrationRetryingType,
      de_Status = deployRetryingStatus,
      de_Timestamp = now,
      de_Metadata = [(''serviceId'', MetaString (se_ServiceID request)),
        (''namespace'', MetaString (dt_Namespace target)),
        (''deploymentName'', MetaString (dt_DeploymentName target)),
        (''errorMessage'', MetaString (error_text err))]\<rparr>"

definition newOrchestrationStartedEvent ::
  "int \<Rightarrow> build_payload service_event \<Rightarrow> deployment_event" where
  "newOrchestrationStartedEvent now request =
     \<lparr>de_EventID = deploymentEventID (se_DeploymentID request) ''orchestration'' orchestrationStatus,
      de_DeploymentID = se_DeploymentID request,
      de_ProjectID = se_ProjectID request,
      de_ServiceName = se_ServiceName request,
      de_EventType = deploymentOrchestrationStartedType,
      de_Status = orchestrationStatus,
      de_Timestamp = now,
      de_Metadata = [(''serviceId'', MetaString (se_ServiceID request)),
        (''imageTag'', MetaString (bp_ImageTag (se_Payload request))),
        (''commitSha'', MetaString (bp_CommitSHA (se_Payload request))),
        (''projectSlug'', MetaString (bp_ProjectSlug (se_Payload request))),
        (''serviceSlug'', MetaString (bp_ServiceSlug (se_Payload request))),
        (''containerPort'', MetaInt (sint (bp_ContainerPort (se_Payload request))))]\<rparr>"

text \<open>The metadata literal that the deployed, running and failed events repeat.\<close>

definition target_metadata :: "build_payload service_event \<Rightarrow> deployment_target \<Rightarrow> (string \<times> meta) list" where
  "target_metadata request target =
     [(''serviceId'', MetaString (se_ServiceID request)),
      (''imageTag'', MetaString (bp_ImageTag (se_Payload request))),
      (''commitSha'', MetaString (bp_CommitSHA (se_Payload request))),
      (''namespace'', MetaString (dt_Namespace target)),
      (''deploymentName'', MetaString (dt_DeploymentName target)),
      (''kubernetesServiceName'', MetaString (dt_ServiceName target)),
      (''ingressHost'', MetaString (dt_IngressHost target)),
      (''containerPort'', MetaInt (sint (dt_ContainerPort target))),
      (''tlsEnabled'', MetaBool (dt_TLSEnabled target))]"

definition newOrchestrationDeployedEvent ::
  "int \<Rightarrow> build_payload service_event \<Rightarrow> deployment_target \<Rightarrow> deployment_event" where
  "newOrchestrationDeployedEvent now request target =
     \<lparr>de_EventID = deploymentEventID (se_DeploymentID request) ''orchestration'' deployedStatus,
      de_DeploymentID = se_DeploymentID request,
      de_ProjectID = se_ProjectID request,
      de_ServiceName = se_ServiceName request,
      de_EventType = deploymentOrchestrationDeployedType,
      de_Status = deployedStatus,
      de_Timestamp = now,
      de_Metadata = target_metadata request target\<rparr>"

definition newOrchestrationRunningEvent ::
  "int \<Rightarrow> build_payload service_event \<Rightarrow> deployment_target \<Rightarrow> deployment_event" where
  "newOrchestrationRunningEvent now request target =
     \<lparr>de_EventID = deploymentEventID (se_DeploymentID request) ''orchestration'' runningStatus,
      de_DeploymentID = se_DeploymentID request,
      de_ProjectID = se_ProjectID request,
      de_ServiceName = se_ServiceName request,
      de_EventType = deploymentOrchestrationRunningType,
      de_Status = runningStatus,
      de_Timestamp = now,
      de_Metadata = target_metadata request target\<rparr>"

definition newOrchestrationFailedEvent ::
  "int \<Rightarrow> build_payload service_event \<Rightarrow> deployment_target \<Rightarrow> go_error \<Rightarrow> deployment_event" where
  "newOrchestrationFailedEvent now request target err =
     \<lparr>de_EventID = deploymentEventID (se_DeploymentID request) ''orchestration'' deployFailedStatus,
      de_DeploymentID = se_DeploymentID request,
      de_ProjectID = se_ProjectID request,
      de_ServiceName = se_ServiceName request,
      de_EventType = deploymentOrchestrationFailedType,
      de_Status = deployFailedStatus,
      de_Timestamp = now,
      de_Metadata = target_metadata request target @ [(''errorMessage'', MetaString (error_text err))]\<rparr>"

end
