(* ===== verification/Wire.thy ===== *)
theory Wire
  imports Events
begin

text \<open>
  The JSON contracts of \<open>events.go\<close> and \<open>consumer.go\<close>: how \<open>json.Marshal\<close> writes each event
  (field order, \<open>omitempty\<close>, sorted maps) and how \<open>json.Unmarshal\<close> fills the build event and the
  stored bundle of results. A \<open>json.RawMessage\<close> inside a struct is the value its text denotes.
\<close>

section \<open>Marshal\<close>

definition omit_empty :: "string \<Rightarrow> string \<Rightarrow> (string \<times> json) list" where
  "omit_empty k v = (if v = [] then [] else [(k, JStr v)])"

definition json_int :: "int \<Rightarrow> json" where
  "json_int i = JNum (show_int i)"

fun meta_json :: "meta \<Rightarrow> json" where
  "meta_json (MetaString s) = JStr s"
| "meta_json (MetaInt i) = json_int i"
| "meta_json (MetaBool b) = JBool b"

definition service_event_json :: "('t \<Rightarrow> json) \<Rightarrow> 't service_event \<Rightarrow> json option" where
  "service_event_json payload e =
     (case parse_json (se_Timestamp e) of
        None \<Rightarrow> None
      | Some ts \<Rightarrow> Some (JObj (
          [(''eventId'', JStr (se_EventID e)), (''eventType'', JStr (se_EventType e)), (''timestamp'', ts)] @
          omit_empty ''deploymentId'' (se_DeploymentID e) @
          [(''projectId'', JStr (se_ProjectID e)), (''serviceId'', JStr (se_ServiceID e))] @
          omit_empty ''serviceName'' (se_ServiceName e) @
          [(''userId'', JStr (se_UserID e)), (''payload'', payload (se_Payload e))])))"

definition succeeded_payload_json :: "deploy_succeeded_payload \<Rightarrow> json" where
  "succeeded_payload_json p = JObj (
     [(''imageTag'', JStr (sp_ImageTag p))] @ omit_empty ''commitSha'' (sp_CommitSHA p) @
     [(''namespace'', JStr (sp_Namespace p)), (''deploymentName'', JStr (sp_DeploymentName p)),
      (''serviceName'', JStr (sp_ServiceName p)), (''ingressHost'', JStr (sp_IngressHost p)),
      (''containerPort'', json_int (sint (sp_ContainerPort p)))])"

definition failed_payload_json :: "deploy_failed_payload \<Rightarrow> json" where
  "failed_payload_json p = JObj (
     omit_empty ''imageTag'' (fp_ImageTag p) @ omit_empty ''commitSha'' (fp_CommitSHA p) @
     [(''namespace'', JStr (fp_Namespace p)), (''deploymentName'', JStr (fp_DeploymentName p)),
      (''ingressHost'', JStr (fp_IngressHost p)),
      (''containerPort'', json_int (sint (fp_ContainerPort p))),
      (''errorMessage'', JStr (fp_ErrorMessage p))])"

definition progress_json :: "deployment_event \<Rightarrow> json option" where
  "progress_json e =
     (case marshal_time (de_Timestamp e) of
        None \<Rightarrow> None
      | Some ts \<Rightarrow> Some (JObj (
          [(''eventId'', JStr (de_EventID e)), (''deploymentId'', JStr (de_DeploymentID e)),
           (''projectId'', JStr (de_ProjectID e)), (''serviceName'', JStr (de_ServiceName e)),
           (''eventType'', JStr (de_EventType e)), (''status'', JStr (de_Status e)),
           (''timestamp'', JStr (butlast (tl ts)))] @
          (if de_Metadata e = [] then []
           else [(''metadata'', JObj (sort_key fst (map (\<lambda>(k, v). (k, meta_json v)) (de_Metadata e))))]))))"

definition marshal_any :: "event_any \<Rightarrow> go_error + json" where
  "marshal_any e =
     (case (case e of
              SucceededEvent s \<Rightarrow> service_event_json succeeded_payload_json s
            | FailedEvent s \<Rightarrow> service_event_json failed_payload_json s
            | ProgressEvent p \<Rightarrow> progress_json p
            | StoredEvent j \<Rightarrow> Some j) of
        None \<Rightarrow> Inl (ErrorString ''json: error calling MarshalJSON'')
      | Some j \<Rightarrow> Inr j)"

section \<open>Unmarshal\<close>

text \<open>Members are stored in their order; a member that cannot be stored makes the whole call fail.\<close>

fun store_members :: "(string \<Rightarrow> json \<Rightarrow> 's \<Rightarrow> 's option) \<Rightarrow> (string \<times> json) list \<Rightarrow> 's \<Rightarrow> 's option" where
  "store_members f [] s = Some s"
| "store_members f ((k, v) # kvs) s =
     (case f k v s of
        None \<Rightarrow> None
      | Some s' \<Rightarrow> store_members f kvs s')"

definition store_object :: "(string \<Rightarrow> json \<Rightarrow> 's \<Rightarrow> 's option) \<Rightarrow> json \<Rightarrow> 's \<Rightarrow> 's option" where
  "store_object f v s =
     (case v of JNull \<Rightarrow> Some s | JObj kvs \<Rightarrow> store_members f kvs s | _ \<Rightarrow> None)"

definition unmarshal_into :: "(string \<Rightarrow> json \<Rightarrow> 's \<Rightarrow> 's option) \<Rightarrow> string \<Rightarrow> 's \<Rightarrow> go_error + 's" where
  "unmarshal_into f text s =
     (case parse_json text of
        None \<Rightarrow> Inl (ErrorString ''invalid JSON text'')
      | Some v \<Rightarrow> (case store_object f v s of
                    None \<Rightarrow> Inl (ErrorString ''json: cannot unmarshal value into Go struct field'')
                  | Some s' \<Rightarrow> Inr s'))"

definition store_payload :: "string \<Rightarrow> json \<Rightarrow> build_payload \<Rightarrow> build_payload option" where
  "store_payload k v p =
     (if same_key k ''imageTag'' then map_option (\<lambda>s. p\<lparr>bp_ImageTag := s\<rparr>) (set_string v (bp_ImageTag p))
      else if same_key k ''commitSha'' then map_option (\<lambda>s. p\<lparr>bp_CommitSHA := s\<rparr>) (set_string v (bp_CommitSHA p))
      else if same_key k ''builder'' then map_option (\<lambda>s. p\<lparr>bp_Builder := s\<rparr>) (set_string v (bp_Builder p))
      else if same_key k ''projectSlug'' then map_option (\<lambda>s. p\<lparr>bp_ProjectSlug := s\<rparr>) (set_string v (bp_ProjectSlug p))
      else if same_key k ''serviceSlug'' then map_option (\<lambda>s. p\<lparr>bp_ServiceSlug := s\<rparr>) (set_string v (bp_ServiceSlug p))
      else if same_key k ''containerPort'' then map_option (\<lambda>n. p\<lparr>bp_ContainerPort := n\<rparr>) (set_int32 v (bp_ContainerPort p))
      else Some p)"

definition store_event :: "string \<Rightarrow> json \<Rightarrow> build_payload service_event \<Rightarrow> build_payload service_event option" where
  "store_event k v e =
     (if same_key k ''eventId'' then map_option (\<lambda>s. e\<lparr>se_EventID := s\<rparr>) (set_string v (se_EventID e))
      else if same_key k ''eventType'' then map_option (\<lambda>s. e\<lparr>se_EventType := s\<rparr>) (set_string v (se_EventType e))
      else if same_key k ''timestamp'' then Some (e\<lparr>se_Timestamp := json_text v\<rparr>)
      else if same_key k ''deploymentId'' then map_option (\<lambda>s. e\<lparr>se_DeploymentID := s\<rparr>) (set_string v (se_DeploymentID e))
      else if same_key k ''projectId'' then map_option (\<lambda>s. e\<lparr>se_ProjectID := s\<rparr>) (set_string v (se_ProjectID e))
      else if same_key k ''serviceId'' then map_option (\<lambda>s. e\<lparr>se_ServiceID := s\<rparr>) (set_string v (se_ServiceID e))
      else if same_key k ''serviceName'' then map_option (\<lambda>s. e\<lparr>se_ServiceName := s\<rparr>) (set_string v (se_ServiceName e))
      else if same_key k ''userId'' then map_option (\<lambda>s. e\<lparr>se_UserID := s\<rparr>) (set_string v (se_UserID e))
      else if same_key k ''payload'' then map_option (\<lambda>p. e\<lparr>se_Payload := p\<rparr>) (store_object store_payload v (se_Payload e))
      else Some e)"

definition zero_event :: "build_payload service_event" where
  "zero_event = \<lparr>se_EventID = [], se_EventType = [], se_Timestamp = [], se_DeploymentID = [],
     se_ProjectID = [], se_ServiceID = [], se_ServiceName = [], se_UserID = [],
     se_Payload = \<lparr>bp_ImageTag = [], bp_CommitSHA = [], bp_Builder = [], bp_ProjectSlug = [],
       bp_ServiceSlug = [], bp_ContainerPort = 0\<rparr>\<rparr>"

definition unmarshal_event :: "string \<Rightarrow> go_error + build_payload service_event" where
  "unmarshal_event body = unmarshal_into store_event body zero_event"

section \<open>The bundle of results\<close>

record deploy_result_events =
  ServiceRoutingKey :: string
  ServiceEvent :: "json option"
  ProgressRoutingKey :: string
  ProgressEvent_raw :: "json option"

definition raw_json :: "json option \<Rightarrow> json" where
  "raw_json r = (case r of None \<Rightarrow> JNull | Some j \<Rightarrow> j)"

definition bundle_json :: "deploy_result_events \<Rightarrow> json" where
  "bundle_json b = JObj
     [(''serviceRoutingKey'', JStr (ServiceRoutingKey b)), (''serviceEvent'', raw_json (ServiceEvent b)),
      (''progressRoutingKey'', JStr (ProgressRoutingKey b)), (''progressEvent'', raw_json (ProgressEvent_raw b))]"

definition store_bundle :: "string \<Rightarrow> json \<Rightarrow> deploy_result_events \<Rightarrow> deploy_result_events option" where
  "store_bundle k v b =
     (if same_key k ''serviceRoutingKey'' then map_option (\<lambda>s. b\<lparr>ServiceRoutingKey := s\<rparr>) (set_string v (ServiceRoutingKey b))
      else if same_key k ''serviceEvent'' then Some (b\<lparr>ServiceEvent := Some v\<rparr>)
      else if same_key k ''progressRoutingKey'' then map_option (\<lambda>s. b\<lparr>ProgressRoutingKey := s\<rparr>) (set_string v (ProgressRoutingKey b))
      else if same_key k ''progressEvent'' then Some (b\<lparr>ProgressEvent_raw := Some v\<rparr>)
      else Some b)"

definition zero_bundle :: deploy_result_events where
  "zero_bundle = \<lparr>ServiceRoutingKey = [], ServiceEvent = None, ProgressRoutingKey = [], ProgressEvent_raw = None\<rparr>"

definition unmarshal_bundle :: "string \<Rightarrow> go_error + deploy_result_events" where
  "unmarshal_bundle text = unmarshal_into store_bundle text zero_bundle"

text \<open>
  Decoding into \<open>any\<close>: objects become Go maps, in which the last of several equal keys wins and
  the order is lost. The model keeps a map as its entries sorted by key.
\<close>

fun last_wins :: "(string \<times> 'a) list \<Rightarrow> (string \<times> 'a) list" where
  "last_wins [] = []"
| "last_wins ((k, v) # kvs) = (if k \<in> fst ` set kvs then last_wins kvs else (k, v) # last_wins kvs)"

fun norm_any :: "json \<Rightarrow> json" where
  "norm_any (JArr js) = JArr (map norm_any js)"
| "norm_any (JObj kvs) = JObj (sort_key fst (last_wins (map (\<lambda>(k, v). (k, norm_any v)) kvs)))"
| "norm_any j = j"

definition unmarshal_any :: "json option \<Rightarrow> go_error + json" where
  "unmarshal_any r =
     (case r of None \<Rightarrow> Inl (ErrorString ''unexpected end of JSON input'') | Some j \<Rightarrow> Inr (norm_any j))"

end
