(* ===== verification/Ledger.thy ===== *)
theory Ledger
  imports Wire
begin

text \<open>
  \<open>ledger.go\<close> and \<open>migrations/001_stage_ledger.sql\<close>: the stage ledger that keeps one row per
  deployment and stage, with a lease. \<open>stage_ledger\<close> is the Go interface; \<open>pg_Claim\<close> and its
  companions are the methods of \<open>PostgresStageLedger\<close> over a model of the table. The SQL text is in
  the source, so each statement is a definition; what is outside (does the n-th statement fail, was
  it applied all the same, how long did it take, how does the server write a jsonb value back) is a
  field of the database state and arbitrary.
\<close>

section \<open>Types of the interface\<close>

datatype stage_state = StateInProgress | StateCompleted | StateFailed

datatype claim_disposition = ClaimAcquired | ClaimCompleted | ClaimBusy | ClaimFailed

record stage_record =
  sr_DeploymentID :: string
  sr_Stage :: string
  sr_State :: "stage_state option"
  sr_Attempt :: int
  sr_LeaseExpiresAt :: "int option"
  sr_ResultJSON :: string

definition zero_record :: stage_record where
  "zero_record = \<lparr>sr_DeploymentID = [], sr_Stage = [], sr_State = None, sr_Attempt = 0,
     sr_LeaseExpiresAt = None, sr_ResultJSON = []\<rparr>"

type_synonym claim_result = "claim_disposition \<times> stage_record \<times> go_error option"

text \<open>The Go interface \<open>StageLedger\<close>, over whatever state its implementation keeps.\<close>

record 'e stage_ledger =
  sl_Claim :: "ctx \<Rightarrow> string \<Rightarrow> string \<Rightarrow> int64 \<Rightarrow> 'e \<Rightarrow> claim_result \<times> 'e"
  sl_Renew :: "ctx \<Rightarrow> string \<Rightarrow> string \<Rightarrow> int64 \<Rightarrow> 'e \<Rightarrow> go_error option \<times> 'e"
  sl_Complete :: "ctx \<Rightarrow> string \<Rightarrow> string \<Rightarrow> deploy_result_events \<Rightarrow> 'e \<Rightarrow> go_error option \<times> 'e"
  sl_Fail :: "ctx \<Rightarrow> string \<Rightarrow> string \<Rightarrow> deploy_result_events \<Rightarrow> 'e \<Rightarrow> go_error option \<times> 'e"
  sl_Release :: "ctx \<Rightarrow> string \<Rightarrow> string \<Rightarrow> 'e \<Rightarrow> go_error option \<times> 'e"

section \<open>The table\<close>

record pg_row =
  row_state :: stage_state
  row_attempt :: int
  row_lease :: "int option"
  row_result :: "string option"

type_synonym pg_table = "string \<times> string \<Rightarrow> pg_row option"

record pg_db =
  pg_rows :: pg_table
  pg_clock :: int
  pg_count :: nat
  pg_fault :: "nat \<Rightarrow> (go_error \<times> bool) option"
  pg_delay :: "nat \<Rightarrow> nat"
  pg_jsonb :: "string \<Rightarrow> go_error + string"

text \<open>
  One round trip to the server. Package database/sql does not send a statement under a context
  that is done. A statement that fails (\<open>pg_fault\<close>) may have been applied or not.
\<close>

definition pg_tick :: "pg_db \<Rightarrow> pg_db" where
  "pg_tick db = db\<lparr>pg_count := Suc (pg_count db), pg_clock := pg_clock db + int (pg_delay db (pg_count db))\<rparr>"

definition pg_stmt :: "ctx \<Rightarrow> (pg_table \<Rightarrow> go_error + 'a \<times> pg_table) \<Rightarrow> pg_db \<Rightarrow> (go_error + 'a) \<times> pg_db" where
  "pg_stmt c f db =
     (case ctx_err (pg_clock db) c of
        Some e \<Rightarrow> (Inl e, db)
      | None \<Rightarrow>
          (case f (pg_rows db) of
             Inl e \<Rightarrow> (Inl e, pg_tick db)
           | Inr (r, t) \<Rightarrow>
               (case pg_fault db (pg_count db) of
                  None \<Rightarrow> (Inr r, (pg_tick db)\<lparr>pg_rows := t\<rparr>)
                | Some (e, applied) \<Rightarrow>
                    (Inl e, (pg_tick db)\<lparr>pg_rows := (if applied then t else pg_rows db)\<rparr>))))"

text \<open>
  Statements of a transaction work on a copy; the commit is the statement that replaces the rows
  the transaction started from (\<open>base\<close>) by the copy, and a rollback drops the copy.
\<close>

definition pg_rollback :: "pg_db \<Rightarrow> pg_db \<Rightarrow> pg_db" where
  "pg_rollback base db = db\<lparr>pg_rows := pg_rows base\<rparr>"

definition pg_commit :: "ctx \<Rightarrow> pg_db \<Rightarrow> pg_db \<Rightarrow> go_error option \<times> pg_db" where
  "pg_commit c base db =
     (case pg_stmt c (\<lambda>t. Inr ((), pg_rows db)) (pg_rollback base db) of
        (Inl e, db') \<Rightarrow> (Some e, db')
      | (Inr _, db') \<Rightarrow> (None, db'))"

section \<open>The SQL statements\<close>

text \<open>\<open>INSERT ... ON CONFLICT DO NOTHING\<close>: was a row inserted?\<close>

definition sql_insert :: "string \<Rightarrow> string \<Rightarrow> int \<Rightarrow> pg_table \<Rightarrow> go_error + bool \<times> pg_table" where
  "sql_insert dep stage lease t =
     (case t (dep, stage) of
        None \<Rightarrow> Inr (True, t((dep, stage) \<mapsto> \<lparr>row_state = StateInProgress, row_attempt = 1,
                        row_lease = Some lease, row_result = None\<rparr>))
      | Some _ \<Rightarrow> Inr (False, t))"

text \<open>
  \<open>SELECT ... FOR UPDATE\<close> and \<open>Scan\<close>. The last destination is a \<open>*json.RawMessage\<close>, which is
  neither a \<open>*[]byte\<close> nor a \<open>Scanner\<close>: package database/sql cannot store a NULL there.
\<close>

definition scan_null_error :: go_error where
  "scan_null_error = ErrorString (''sql: Scan error on column index 5, name '' @ [CHR 0x22] @ ''result_json'' @
     [CHR 0x22] @ '': unsupported Scan, storing driver.Value type <nil> into type *json.RawMessage'')"

definition sql_select :: "string \<Rightarrow> string \<Rightarrow> pg_table \<Rightarrow> stage_record \<times> go_error option" where
  "sql_select dep stage t =
     (case t (dep, stage) of
        None \<Rightarrow> (zero_record, Some (ErrorString ''sql: no rows in result set''))
      | Some r \<Rightarrow>
          (\<lparr>sr_DeploymentID = dep, sr_Stage = stage, sr_State = Some (row_state r),
            sr_Attempt = row_attempt r, sr_LeaseExpiresAt = row_lease r,
            sr_ResultJSON = (case row_result r of None \<Rightarrow> [] | Some j \<Rightarrow> j)\<rparr>,
           (if row_result r = None then Some scan_null_error else None)))"

text \<open>The columns \<open>attempt integer CHECK (attempt > 0)\<close> bound what an update may store.\<close>

definition attempt_check :: "int \<Rightarrow> bool" where
  "attempt_check a \<longleftrightarrow> 0 < a \<and> a < 2147483648"

definition sql_update :: "string \<Rightarrow> string \<Rightarrow> (pg_row \<Rightarrow> pg_row) \<Rightarrow> pg_table \<Rightarrow> go_error + unit \<times> pg_table" where
  "sql_update dep stage f t =
     (case t (dep, stage) of
        None \<Rightarrow> Inr ((), t)
      | Some r \<Rightarrow>
          if attempt_check (row_attempt (f r)) then Inr ((), t((dep, stage) \<mapsto> f r))
          else Inl (ErrorString ''ERROR: stage_ledger.attempt out of range''))"

section \<open>PostgresStageLedger\<close>

text \<open>
  \<open>Claim\<close> after an insert that met a row: read it under a row lock and decide. \<open>tx0\<close> is the
  transaction's start, \<open>tx1\<close> the state after the insert.
\<close>

definition pg_claim_existing ::
  "ctx \<Rightarrow> string \<Rightarrow> string \<Rightarrow> int64 \<Rightarrow> int \<Rightarrow> pg_db \<Rightarrow> pg_db \<Rightarrow> claim_result \<times> pg_db" where
  "pg_claim_existing c dep stage d now tx0 tx1 =
     (case pg_stmt c (\<lambda>t. Inr (sql_select dep stage t, t)) tx1 of
        (Inl e, tx2) \<Rightarrow> ((ClaimAcquired, zero_record, Some e), pg_rollback tx0 tx2)
      | (Inr (r, Some e), tx2) \<Rightarrow> ((ClaimAcquired, r, Some e), pg_rollback tx0 tx2)
      | (Inr (r, None), tx2) \<Rightarrow>
          if sr_State r = Some StateCompleted then
            (let (e, db1) = pg_commit c tx0 tx2 in ((ClaimCompleted, r, e), db1))
          else if sr_State r = Some StateFailed then
            (let (e, db1) = pg_commit c tx0 tx2 in ((ClaimFailed, r, e), db1))
          else if (case sr_LeaseExpiresAt r of None \<Rightarrow> False | Some t \<Rightarrow> now < t) then
            (let (e, db1) = pg_commit c tx0 tx2 in ((ClaimBusy, r, e), db1))
          else
            let r' = r\<lparr>sr_Attempt := sr_Attempt r + 1, sr_LeaseExpiresAt := Some (now + sint d)\<rparr> in
            (case pg_stmt c (sql_update dep stage (\<lambda>w. w\<lparr>row_state := StateInProgress,
                    row_attempt := sr_Attempt r', row_lease := sr_LeaseExpiresAt r'\<rparr>)) tx2 of
               (Inl e, tx3) \<Rightarrow> ((ClaimAcquired, r', Some e), pg_rollback tx0 tx3)
             | (Inr _, tx3) \<Rightarrow>
                 let (e, db1) = pg_commit c tx0 tx3 in ((ClaimAcquired, r', e), db1)))"

definition pg_Claim :: "ctx \<Rightarrow> string \<Rightarrow> string \<Rightarrow> int64 \<Rightarrow> pg_db \<Rightarrow> claim_result \<times> pg_db" where
  "pg_Claim c dep stage d db0 =
     (case pg_stmt c (\<lambda>t. Inr ((), t)) db0 of
        (Inl e, tx0) \<Rightarrow> ((ClaimAcquired, zero_record, Some e), tx0)
      | (Inr _, tx0) \<Rightarrow>
          let now = pg_clock tx0; leaseExpiresAt = now + sint d in
          case pg_stmt c (sql_insert dep stage leaseExpiresAt) tx0 of
            (Inl e, tx1) \<Rightarrow> ((ClaimAcquired, zero_record, Some e), pg_rollback tx0 tx1)
          | (Inr inserted, tx1) \<Rightarrow>
              if inserted then
                let r = \<lparr>sr_DeploymentID = dep, sr_Stage = stage, sr_State = Some StateInProgress,
                         sr_Attempt = 1, sr_LeaseExpiresAt = Some leaseExpiresAt, sr_ResultJSON = []\<rparr>;
                    (e, db1) = pg_commit c tx0 tx1
                in ((ClaimAcquired, r, e), db1)
              else pg_claim_existing c dep stage d now tx0 tx1)"

text \<open>The statements outside a transaction.\<close>

definition pg_exec :: "ctx \<Rightarrow> (pg_table \<Rightarrow> go_error + unit \<times> pg_table) \<Rightarrow> pg_db \<Rightarrow> go_error option \<times> pg_db" where
  "pg_exec c f db = (case pg_stmt c f db of (Inl e, db') \<Rightarrow> (Some e, db') | (Inr _, db') \<Rightarrow> (None, db'))"

definition pg_Renew :: "ctx \<Rightarrow> string \<Rightarrow> string \<Rightarrow> int64 \<Rightarrow> pg_db \<Rightarrow> go_error option \<times> pg_db" where
  "pg_Renew c dep stage d db =
     pg_exec c (sql_update dep stage (\<lambda>r. if row_state r = StateInProgress
        then r\<lparr>row_lease := Some (pg_clock db + sint d)\<rparr> else r)) db"

definition pg_set :: "ctx \<Rightarrow> string \<Rightarrow> string \<Rightarrow> stage_state \<Rightarrow> deploy_result_events \<Rightarrow> pg_db \<Rightarrow> go_error option \<times> pg_db" where
  "pg_set c dep stage s v db =
     pg_exec c (\<lambda>t. case pg_jsonb db (json_text (bundle_json v)) of
        Inl e \<Rightarrow> Inl e
      | Inr b \<Rightarrow> sql_update dep stage (\<lambda>r. r\<lparr>row_state := s, row_result := Some b, row_lease := None\<rparr>) t) db"

definition pg_Complete :: "ctx \<Rightarrow> string \<Rightarrow> string \<Rightarrow> deploy_result_events \<Rightarrow> pg_db \<Rightarrow> go_error option \<times> pg_db" where
  "pg_Complete c dep stage v = pg_set c dep stage StateCompleted v"

definition pg_Fail :: "ctx \<Rightarrow> string \<Rightarrow> string \<Rightarrow> deploy_result_events \<Rightarrow> pg_db \<Rightarrow> go_error option \<times> pg_db" where
  "pg_Fail c dep stage v = pg_set c dep stage StateFailed v"

definition pg_Release :: "ctx \<Rightarrow> string \<Rightarrow> string \<Rightarrow> pg_db \<Rightarrow> go_error option \<times> pg_db" where
  "pg_Release c dep stage db =
     pg_exec c (sql_update dep stage (\<lambda>r. r\<lparr>row_state := StateInProgress, row_lease := None\<rparr>)) db"

definition postgresLedger :: "pg_db stage_ledger" where
  "postgresLedger = \<lparr>sl_Claim = pg_Claim, sl_Renew = pg_Renew, sl_Complete = pg_Complete,
     sl_Fail = pg_Fail, sl_Release = pg_Release\<rparr>"

section \<open>Statements and commits\<close>

text \<open>What no statement changes, and the clock, which never runs backwards.\<close>

definition pg_same :: "pg_db \<Rightarrow> pg_db \<Rightarrow> bool" where
  "pg_same db db' \<longleftrightarrow> pg_fault db' = pg_fault db \<and> pg_delay db' = pg_delay db \<and> pg_jsonb db' = pg_jsonb db \<and>
     pg_clock db \<le> pg_clock db' \<and> pg_count db \<le> pg_count db'"

lemma pg_same_refl [simp]: "pg_same db db"
  by (simp add: pg_same_def)

lemma pg_same_trans: "pg_same a b \<Longrightarrow> pg_same b c \<Longrightarrow> pg_same a c"
  by (simp add: pg_same_def)

lemma pg_stmt_same: "pg_stmt c f db = (r, db') \<Longrightarrow> pg_same db db'"
  by (auto simp: pg_stmt_def pg_tick_def pg_same_def split: option.splits sum.splits prod.splits)

lemma pg_rollback_same [simp]: "pg_same base (pg_rollback db0 db) \<longleftrightarrow> pg_same base db"
  by (simp add: pg_rollback_def pg_same_def)

lemma pg_same_rollback [simp]: "pg_same (pg_rollback db0 db) db' \<longleftrightarrow> pg_same db db'"
  by (simp add: pg_rollback_def pg_same_def)

lemma pg_rows_rollback [simp]: "pg_rows (pg_rollback base db) = pg_rows base"
  by (simp add: pg_rollback_def)

lemma pg_stmt_Inr:
  "pg_stmt c f db = (Inr r, db') \<Longrightarrow>
     ctx_err (pg_clock db) c = None \<and> pg_fault db (pg_count db) = None \<and>
     f (pg_rows db) = Inr (r, pg_rows db')"
  by (auto simp: pg_stmt_def split: option.splits sum.splits prod.splits)

lemma pg_stmt_Inl:
  "pg_stmt c f db = (Inl e, db') \<Longrightarrow>
     pg_rows db' = pg_rows db \<or> (\<exists>r. f (pg_rows db) = Inr (r, pg_rows db'))"
  by (auto simp: pg_stmt_def pg_tick_def split: option.splits sum.splits prod.splits if_splits)

lemma pg_commit_same: "pg_commit c base db = (e, db') \<Longrightarrow> pg_same db db'"
  by (auto simp: pg_commit_def dest!: pg_stmt_same split: prod.splits sum.splits)

lemma pg_commit_None: "pg_commit c base db = (None, db') \<Longrightarrow> pg_rows db' = pg_rows db"
  by (auto simp: pg_commit_def dest!: pg_stmt_Inr split: prod.splits sum.splits)

lemma pg_commit_rows: "pg_commit c base db = (e, db') \<Longrightarrow> pg_rows db' = pg_rows db \<or> pg_rows db' = pg_rows base"
  by (auto simp: pg_commit_def dest!: pg_stmt_Inr pg_stmt_Inl split: prod.splits sum.splits)

definition claim_step :: "int \<Rightarrow> int \<Rightarrow> pg_row option \<Rightarrow> (claim_disposition \<times> pg_row) option" where
  "claim_step now lease row =
     (case row of
        None \<Rightarrow> Some (ClaimAcquired, \<lparr>row_state = StateInProgress, row_attempt = 1,
                   row_lease = Some lease, row_result = None\<rparr>)
      | Some r \<Rightarrow>
          if row_result r = None then None
          else case row_state r of
                 StateCompleted \<Rightarrow> Some (ClaimCompleted, r)
               | StateFailed \<Rightarrow> Some (ClaimFailed, r)
               | StateInProgress \<Rightarrow>
                   if (\<exists>t. row_lease r = Some t \<and> now < t) then Some (ClaimBusy, r)
                   else if attempt_check (row_attempt r + 1) then
                     Some (ClaimAcquired, r\<lparr>row_state := StateInProgress,
                       row_attempt := row_attempt r + 1, row_lease := Some lease\<rparr>)
                   else None)"

definition record_of_row :: "string \<Rightarrow> string \<Rightarrow> pg_row \<Rightarrow> stage_record" where
  "record_of_row dep stage w = \<lparr>sr_DeploymentID = dep, sr_Stage = stage, sr_State = Some (row_state w),
     sr_Attempt = row_attempt w, sr_LeaseExpiresAt = row_lease w, sr_ResultJSON = the (row_result w)\<rparr>"

lemma sql_select_None:
  assumes "sql_select dep stage t = (r, None)"
  shows "\<exists>w. t (dep, stage) = Some w \<and> row_result w \<noteq> None \<and> r = record_of_row dep stage w"
proof (cases "t (dep, stage)")
  case None
  then show ?thesis using assms by (simp add: sql_select_def)
next
  case (Some w)
  then show ?thesis using assms
    by (cases "row_result w") (simp_all add: sql_select_def record_of_row_def)
qed

lemma pg_claim_existing_ok:
  assumes "pg_claim_existing c dep stage d now tx0 tx1 = ((disp, rec, None), db')"
  shows "pg_same tx1 db' \<and> (\<exists>r row'. pg_rows tx1 (dep, stage) = Some r \<and>
    claim_step now (now + sint d) (Some r) = Some (disp, row') \<and>
    pg_rows db' = (pg_rows tx1)((dep, stage) \<mapsto> row') \<and>
    sr_LeaseExpiresAt rec = row_lease row' \<and> sr_ResultJSON rec = the (row_result row'))"
proof -
  obtain r2 tx2 where s2: "pg_stmt c (\<lambda>t. Inr (sql_select dep stage t, t)) tx1 = (r2, tx2)" by fastforce
  with assms obtain r where r2: "r2 = Inr (r, None)"
    by (cases r2) (auto simp: pg_claim_existing_def split: option.splits)
  note i2 = pg_stmt_Inr [OF s2 [unfolded r2]] and e2 = pg_stmt_same [OF s2]
  then have rows2: "pg_rows tx2 = pg_rows tx1" and "sql_select dep stage (pg_rows tx1) = (r, None)"
    by auto
  then obtain w where w: "pg_rows tx1 (dep, stage) = Some w" "row_result w \<noteq> None"
    and r: "r = record_of_row dep stage w"
    using sql_select_None by blast
  have fields: "sr_State r = Some (row_state w)" "sr_LeaseExpiresAt r = row_lease w"
    "sr_Attempt r = row_attempt w" "sr_ResultJSON r = the (row_result w)"
    by (simp_all add: r record_of_row_def)
  show ?thesis
  proof (cases "row_state w = StateInProgress \<and> \<not> (\<exists>t. row_lease w = Some t \<and> now < t)")
    case False
    then obtain d' where "pg_commit c tx0 tx2 = (None, db')" "rec = r" "disp = d'"
      "claim_step now (now + sint d) (Some w) = Some (d', w)"
      using assms s2 r2 w fields
      by (cases "row_state w") (auto simp: pg_claim_existing_def claim_step_def split: prod.splits option.splits)
    moreover from this have "pg_rows db' = pg_rows tx2" "pg_same tx2 db'"
      using pg_commit_None pg_commit_same by blast+
    ultimately show ?thesis
      using w e2 rows2 fields pg_same_trans [of tx1 tx2 db'] by (auto intro!: exI [of _ w])
  next
    case True
    let ?r' = "r\<lparr>sr_Attempt := sr_Attempt r + 1, sr_LeaseExpiresAt := Some (now + sint d)\<rparr>"
    let ?upd = "sql_update dep stage (\<lambda>w. w\<lparr>row_state := StateInProgress,
                    row_attempt := sr_Attempt ?r', row_lease := sr_LeaseExpiresAt ?r'\<rparr>)"
    obtain r3 tx3 where s3: "pg_stmt c ?upd tx2 = (r3, tx3)" by fastforce
    have "r3 = Inr () \<and> pg_commit c tx0 tx3 = (None, db') \<and> rec = ?r' \<and> disp = ClaimAcquired"
      using assms s2 r2 True s3 fields
      by (cases r3) (auto simp: pg_claim_existing_def Let_def split: prod.splits option.splits)
    then have res: "r3 = Inr ()" "pg_rows db' = pg_rows tx3" "pg_same tx3 db'" "rec = ?r'" "disp = ClaimAcquired"
      using pg_commit_None pg_commit_same by blast+
    have "?upd (pg_rows tx1) = Inr ((), pg_rows tx3)"
      using pg_stmt_Inr [OF s3 [unfolded res(1)]] rows2 by simp
    then have "attempt_check (row_attempt w + 1)" "pg_rows tx3 = (pg_rows tx1)((dep, stage) \<mapsto>
        w\<lparr>row_state := StateInProgress, row_attempt := row_attempt w + 1, row_lease := Some (now + sint d)\<rparr>)"
      using w True fields by (auto simp: sql_update_def split: if_splits)
    then show ?thesis
      using True w res fields pg_same_trans [OF e2 pg_same_trans [OF pg_stmt_same [OF s3] res(3)]]
      by (auto simp: claim_step_def)
  qed
qed

lemma pg_Claim_ok:
  assumes "pg_Claim c dep stage d db = ((disp, rec, None), db')"
  shows "\<exists>now row'. pg_clock db \<le> now \<and> now \<le> pg_clock db' \<and>
    claim_step now (now + sint d) (pg_rows db (dep, stage)) = Some (disp, row') \<and>
    pg_rows db' = (pg_rows db)((dep, stage) \<mapsto> row') \<and>
    sr_LeaseExpiresAt rec = row_lease row' \<and>
    (row_result row' \<noteq> None \<longrightarrow> sr_ResultJSON rec = the (row_result row'))"
proof -
  obtain r0 tx0 where s0: "pg_stmt c (\<lambda>t. Inr ((), t)) db = (r0, tx0)" by fastforce
  with assms have r0: "r0 = Inr ()" by (cases r0) (auto simp: pg_Claim_def)
  let ?now = "pg_clock tx0"
  have rows0: "pg_rows tx0 = pg_rows db" and le0: "pg_clock db \<le> ?now"
    using pg_stmt_Inr [OF s0 [unfolded r0]] pg_stmt_same [OF s0] by (auto simp: pg_same_def)
  obtain r1 tx1 where s1: "pg_stmt c (sql_insert dep stage (?now + sint d)) tx0 = (r1, tx1)" by fastforce
  with assms s0 r0 obtain ins where r1: "r1 = Inr ins" by (cases r1) (auto simp: pg_Claim_def)
  have i1: "sql_insert dep stage (?now + sint d) (pg_rows tx0) = Inr (ins, pg_rows tx1)"
    using pg_stmt_Inr [OF s1 [unfolded r1]] by blast
  have le1: "?now \<le> pg_clock tx1" using pg_stmt_same [OF s1] by (simp add: pg_same_def)
  show ?thesis
  proof (cases ins)
    case True
    obtain e db1 where cm: "pg_commit c tx0 tx1 = (e, db1)" by fastforce
    with assms s0 r0 s1 r1 True have res: "e = None" "db1 = db'" "disp = ClaimAcquired"
      "sr_LeaseExpiresAt rec = Some (?now + sint d)"
      by (auto simp: pg_Claim_def Let_def)
    have "pg_clock tx1 \<le> pg_clock db'" "pg_rows db' = pg_rows tx1"
      using pg_commit_same [OF cm] pg_commit_None [OF cm [unfolded res(1)]] res
      by (simp_all add: pg_same_def)
    then show ?thesis
      using i1 le0 le1 rows0 True res
      by (auto simp: sql_insert_def claim_step_def split: option.splits intro!: exI [of _ ?now])
  next
    case False
    have ex: "pg_claim_existing c dep stage d ?now tx0 tx1 = ((disp, rec, None), db')"
      using assms s0 r0 s1 r1 False by (simp add: pg_Claim_def)
    have "pg_rows tx1 = pg_rows db"
      using i1 rows0 False by (auto simp: sql_insert_def split: option.splits)
    with pg_claim_existing_ok [OF ex] show ?thesis
      using le0 le1 by (auto simp: pg_same_def intro!: exI [of _ ?now])
  qed
qed

text \<open>
  What a claim can have done to the table whatever it returned: nothing, or the step of
  \<open>claim_step\<close> at some moment between its start and its end.
\<close>

definition claim_effect :: "string \<Rightarrow> string \<Rightarrow> int64 \<Rightarrow> int \<Rightarrow> pg_table \<Rightarrow> pg_table \<Rightarrow> bool" where
  "claim_effect dep stage d now t t' \<longleftrightarrow>
     t' = t \<or> (\<exists>disp row'. claim_step now (now + sint d) (t (dep, stage)) = Some (disp, row') \<and>
                t' = t((dep, stage) \<mapsto> row'))"

lemma claim_effect_refl [simp]: "claim_effect dep stage d now t t"
  by (simp add: claim_effect_def)

lemma pg_stmt_pure_rows: "pg_stmt c (\<lambda>t. Inr (g t, t)) db = (r, db') \<Longrightarrow> pg_rows db' = pg_rows db"
  by (auto simp: pg_stmt_def pg_tick_def split: option.splits)

lemma pg_claim_existing_effect:
  assumes "pg_claim_existing c dep stage d now tx0 tx1 = (res, db')" "pg_rows tx1 = pg_rows tx0"
  shows "pg_same tx1 db' \<and> claim_effect dep stage d now (pg_rows tx0) (pg_rows db')"
proof -
  obtain r2 tx2 where s2: "pg_stmt c (\<lambda>t. Inr (sql_select dep stage t, t)) tx1 = (r2, tx2)" by fastforce
  note e2 = pg_stmt_same [OF s2] and rows2 = pg_stmt_pure_rows [OF s2]
  consider (fin) "\<exists>b. db' = pg_rollback tx0 tx2 \<or> pg_commit c tx0 tx2 = (b, db')"
    | (upd) r w where "r2 = Inr (r, None)" "pg_rows tx0 (dep, stage) = Some w" "row_result w \<noteq> None"
        "r = record_of_row dep stage w" "row_state w = StateInProgress"
        "\<not> (\<exists>t. row_lease w = Some t \<and> now < t)"
  proof (cases "\<exists>r. r2 = Inr (r, None)")
    case False
    then show ?thesis using assms(1) s2 fin
      by (cases r2) (auto simp: pg_claim_existing_def split: option.splits)
  next
    case True
    then obtain r where r: "r2 = Inr (r, None)" by blast
    then have "sql_select dep stage (pg_rows tx0) = (r, None)"
      using pg_stmt_Inr [OF s2 [unfolded r]] assms(2) by auto
    then obtain w where w: "pg_rows tx0 (dep, stage) = Some w" "row_result w \<noteq> None" "r = record_of_row dep stage w"
      using sql_select_None by blast
    show ?thesis
    proof (cases "row_state w = StateInProgress \<and> \<not> (\<exists>t. row_lease w = Some t \<and> now < t)")
      case True
      then show ?thesis using upd r w by blast
    next
      case False
      then show ?thesis using assms(1) s2 r w fin
        by (cases "row_state w")
           (auto simp: pg_claim_existing_def record_of_row_def split: prod.splits option.splits)
    qed
  qed
  then show ?thesis
  proof cases
    case fin
    then show ?thesis
      using e2 rows2 assms(2) pg_commit_rows [of c tx0 tx2] pg_commit_same [of c tx0 tx2] pg_same_trans
      by (metis claim_effect_refl pg_rollback_same pg_rows_rollback)
  next
    case (upd r w)
    let ?r' = "r\<lparr>sr_Attempt := sr_Attempt r + 1, sr_LeaseExpiresAt := Some (now + sint d)\<rparr>"
    let ?upd = "sql_update dep stage (\<lambda>w. w\<lparr>row_state := StateInProgress,
                    row_attempt := sr_Attempt ?r', row_lease := sr_LeaseExpiresAt ?r'\<rparr>)"
    obtain r3 tx3 where s3: "pg_stmt c ?upd tx2 = (r3, tx3)" by fastforce
    note e3 = pg_same_trans [OF e2 pg_stmt_same [OF s3]]
    have "db' = pg_rollback tx0 tx3 \<or> (r3 = Inr () \<and> (\<exists>b. pg_commit c tx0 tx3 = (b, db')))"
      using assms(1) s2 upd s3
      by (cases r3) (auto simp: pg_claim_existing_def record_of_row_def Let_def split: prod.splits option.splits)
    then show ?thesis
    proof
      assume "db' = pg_rollback tx0 tx3"
      then show ?thesis using e3 by simp
    next
      assume "r3 = Inr () \<and> (\<exists>b. pg_commit c tx0 tx3 = (b, db'))"
      then obtain b where b: "r3 = Inr ()" "pg_commit c tx0 tx3 = (b, db')" by blast
      have "?upd (pg_rows tx0) = Inr ((), pg_rows tx3)"
        using pg_stmt_Inr [OF s3 [unfolded b(1)]] rows2 assms(2) by simp
      then have "claim_effect dep stage d now (pg_rows tx0) (pg_rows tx3)"
        using upd by (auto simp: sql_update_def claim_effect_def claim_step_def record_of_row_def split: if_splits)
      then show ?thesis
        using e3 pg_commit_rows [OF b(2)] pg_commit_same [OF b(2)] pg_same_trans
        by (metis claim_effect_refl)
    qed
  qed
qed

lemma pg_Claim_effect:
  assumes "pg_Claim c dep stage d db = (res, db')"
  shows "pg_same db db' \<and> (\<exists>now. pg_clock db \<le> now \<and> now \<le> pg_clock db' \<and>
     claim_effect dep stage d now (pg_rows db) (pg_rows db'))"
proof -
  obtain r0 tx0 where s0: "pg_stmt c (\<lambda>t. Inr ((), t)) db = (r0, tx0)" by fastforce
  note e0 = pg_stmt_same [OF s0] and rows0 = pg_stmt_pure_rows [OF s0]
  let ?now = "pg_clock tx0"
  obtain r1 tx1 where s1: "pg_stmt c (sql_insert dep stage (?now + sint d)) tx0 = (r1, tx1)" by fastforce
  note e1 = pg_stmt_same [OF s1]
  have goal: ?thesis if "pg_same tx0 db'" "claim_effect dep stage d ?now (pg_rows db) (pg_rows db')"
    using that e0 pg_same_trans [OF e0] by (auto simp: pg_same_def intro!: exI [of _ ?now])
  consider (a) "db' = tx0" | (b) "db' = pg_rollback tx0 tx1"
    | (c) x where "r1 = Inr True" "pg_commit c tx0 tx1 = (x, db')"
    | (d) "r1 = Inr False" "pg_claim_existing c dep stage d ?now tx0 tx1 = (res, db')"
    using assms s0 s1 by (cases r0; cases r1) (auto simp: pg_Claim_def Let_def split: prod.splits if_splits)
  then show ?thesis
  proof cases
    case a
    then show ?thesis using goal rows0 by simp
  next
    case b
    then show ?thesis using goal rows0 e1 by simp
  next
    case c
    have "sql_insert dep stage (?now + sint d) (pg_rows tx0) = Inr (True, pg_rows tx1)"
      using pg_stmt_Inr [OF s1 [unfolded c(1)]] by blast
    then have "claim_effect dep stage d ?now (pg_rows db) (pg_rows tx1)"
      using rows0 by (auto simp: sql_insert_def claim_effect_def claim_step_def split: option.splits)
    then show ?thesis
      using goal rows0 e1 pg_commit_rows [OF c(2)] pg_commit_same [OF c(2)] pg_same_trans
      by (metis claim_effect_refl)
  next
    case d
    have "pg_rows tx1 = pg_rows tx0"
      using pg_stmt_Inr [OF s1 [unfolded d(1)]] by (auto simp: sql_insert_def split: option.splits)
    then show ?thesis
      using goal rows0 e1 pg_claim_existing_effect [OF d(2)] pg_same_trans by metis
  qed
qed

lemma pg_exec_effect:
  assumes "pg_exec c f db = (e, db')"
  shows "pg_same db db' \<and> (pg_rows db' = pg_rows db \<and> e \<noteq> None \<or> f (pg_rows db) = Inr ((), pg_rows db'))"
  using assms pg_stmt_same [of c f db] pg_stmt_Inr [of c f db] pg_stmt_Inl [of c f db]
  by (cases "pg_stmt c f db") (auto simp: pg_exec_def split: sum.splits)

section \<open>Workers and leases\<close>

text \<open>
  Several workers share one row of the table. A worker that acquired the stage knows the end of its
  lease (\<open>holder\<close>). A worker renews, completes, fails or releases only while that lease runs, which
  is what the renewal goroutine of \<open>consumer.go\<close> is for; a claim can come at any time from anybody.
\<close>

record ledger_sys =
  lsys_db :: pg_db
  holder :: "nat \<Rightarrow> int option"

definition lease_runs :: "ledger_sys \<Rightarrow> nat \<Rightarrow> bool" where
  "lease_runs s w \<longleftrightarrow> (\<exists>t. holder s w = Some t \<and> pg_clock (lsys_db s) < t)"

inductive ledger_step :: "string \<Rightarrow> string \<Rightarrow> int64 \<Rightarrow> ledger_sys \<Rightarrow> ledger_sys \<Rightarrow> bool"
  for dep stage d where
  claim: "pg_Claim c dep stage d (lsys_db s) = ((disp, rec, e), db') \<Longrightarrow>
    ledger_step dep stage d s (s\<lparr>lsys_db := db', holder :=
      (if disp = ClaimAcquired \<and> e = None then (holder s)(w := sr_LeaseExpiresAt rec) else holder s)\<rparr>)"
| renew: "lease_runs s w \<Longrightarrow> pg_Renew c dep stage d (lsys_db s) = (e, db') \<Longrightarrow>
    ledger_step dep stage d s (s\<lparr>lsys_db := db', holder :=
      (if e = None then (holder s)(w := Some (pg_clock (lsys_db s) + sint d)) else holder s)\<rparr>)"
| finish: "lease_runs s w \<Longrightarrow> pg_set c dep stage st v (lsys_db s) = (e, db') \<Longrightarrow>
    ledger_step dep stage d s (s\<lparr>lsys_db := db', holder := (holder s)(w := None)\<rparr>)"
| release: "lease_runs s w \<Longrightarrow> pg_Release c dep stage (lsys_db s) = (e, db') \<Longrightarrow>
    ledger_step dep stage d s (s\<lparr>lsys_db := db', holder := (holder s)(w := None)\<rparr>)"
| elapse: "ledger_step dep stage d s (s\<lparr>lsys_db := (lsys_db s)\<lparr>pg_clock := pg_clock (lsys_db s) + int n\<rparr>\<rparr>)"

inductive ledger_reachable :: "string \<Rightarrow> string \<Rightarrow> int64 \<Rightarrow> ledger_sys \<Rightarrow> bool"
  for dep stage d where
  start: "\<forall>w. holder s w = None \<Longrightarrow> ledger_reachable dep stage d s"
| step: "ledger_reachable dep stage d s \<Longrightarrow> ledger_step dep stage d s s' \<Longrightarrow> ledger_reachable dep stage d s'"

text \<open>The invariant: at most one lease runs, and the row records it.\<close>

definition covers :: "string \<Rightarrow> string \<Rightarrow> int64 \<Rightarrow> pg_db \<Rightarrow> int \<Rightarrow> bool" where
  "covers dep stage d db t \<longleftrightarrow> t \<le> pg_clock db + sint d \<and>
     (\<exists>r L. pg_rows db (dep, stage) = Some r \<and> row_state r = StateInProgress \<and> row_lease r = Some L \<and> t \<le> L)"

definition ledger_inv :: "string \<Rightarrow> string \<Rightarrow> int64 \<Rightarrow> ledger_sys \<Rightarrow> bool" where
  "ledger_inv dep stage d s \<longleftrightarrow>
     (\<forall>w t. holder s w = Some t \<and> pg_clock (lsys_db s) < t \<longrightarrow> covers dep stage d (lsys_db s) t) \<and>
     (\<forall>w w'. lease_runs s w \<and> lease_runs s w' \<longrightarrow> w = w')"

lemma covers_claim_step:
  assumes "covers dep stage d db t" "now < t"
    "claim_step now l (pg_rows db (dep, stage)) = Some (disp, row')"
  shows "disp = ClaimBusy \<and> pg_rows db (dep, stage) = Some row'"
  using assms by (auto simp: covers_def claim_step_def split: if_splits)

lemma covers_claim_effect:
  assumes "covers dep stage d db t" "now < t" "claim_effect dep stage d now (pg_rows db) t'"
  shows "t' = pg_rows db"
  using assms(3) covers_claim_step [OF assms(1,2)] by (auto simp: claim_effect_def)

lemma covers_frame:
  assumes "covers dep stage d db t" "pg_same db db'" "pg_rows db' (dep, stage) = pg_rows db (dep, stage)"
  shows "covers dep stage d db' t"
  using assms by (auto simp: covers_def pg_same_def)

text \<open>A step that leaves nobody but \<open>w\<close> with a running lease keeps the invariant.\<close>

lemma ledger_inv_sole:
  assumes "\<And>w'. lease_runs s' w' \<Longrightarrow> w' = w"
    and "\<And>t. holder s' w = Some t \<Longrightarrow> pg_clock (lsys_db s') < t \<Longrightarrow> covers dep stage d (lsys_db s') t"
  shows "ledger_inv dep stage d s'"
  using assms unfolding ledger_inv_def lease_runs_def by metis

lemma ledger_inv_claim:
  assumes inv: "ledger_inv dep stage d s"
    and cl: "pg_Claim c dep stage d (lsys_db s) = ((disp, rec, e), db')"
  shows "ledger_inv dep stage d (s\<lparr>lsys_db := db', holder :=
      (if disp = ClaimAcquired \<and> e = None then (holder s)(w := sr_LeaseExpiresAt rec) else holder s)\<rparr>)"
    (is "ledger_inv _ _ _ ?s'")
proof -
  let ?db = "lsys_db s"
  obtain now where same: "pg_same ?db db'" and now: "pg_clock ?db \<le> now" "now \<le> pg_clock db'"
    and eff: "claim_effect dep stage d now (pg_rows ?db) (pg_rows db')"
    using pg_Claim_effect [OF cl] by blast
  have running: "covers dep stage d ?db t" if "holder s w' = Some t" "pg_clock db' < t" for w' t
    using inv that now unfolding ledger_inv_def by force
  show ?thesis
  proof (cases "disp = ClaimAcquired \<and> e = None")
    case True
    then obtain now2 row' where n2: "pg_clock ?db \<le> now2" "now2 \<le> pg_clock db'"
      "claim_step now2 (now2 + sint d) (pg_rows ?db (dep, stage)) = Some (ClaimAcquired, row')"
      "pg_rows db' = (pg_rows ?db)((dep, stage) \<mapsto> row')" "sr_LeaseExpiresAt rec = row_lease row'"
      using pg_Claim_ok cl by metis
    then have row': "row_state row' = StateInProgress" "row_lease row' = Some (now2 + sint d)"
      by (auto simp: claim_step_def split: option.splits if_splits stage_state.splits)
    have none: False if "holder s w' = Some t" "pg_clock db' < t" for w' t
      using covers_claim_step [OF running [OF that] _ n2(3)] that n2(2) by force
    show ?thesis
    proof (rule ledger_inv_sole [where w = w])
      show "w' = w" if "lease_runs ?s' w'" for w'
        using that none True by (auto simp: lease_runs_def split: if_splits)
      show "covers dep stage d (lsys_db ?s') t"
        if "holder ?s' w = Some t" "pg_clock (lsys_db ?s') < t" for t
        using that True n2 row' by (auto simp: covers_def)
    qed
  next
    case False
    have keep: "pg_rows db' = pg_rows ?db" if "holder s w' = Some t" "pg_clock db' < t" for w' t
      using covers_claim_effect [OF running [OF that] _ eff] that now(2) by simp
    have c: "covers dep stage d db' t" if "holder s w' = Some t" "pg_clock db' < t" for w' t
      using covers_frame [OF running [OF that] same] keep [OF that] by simp
    have u: "w1 = w2" if "lease_runs ?s' w1" "lease_runs ?s' w2" for w1 w2
      using that inv False now unfolding ledger_inv_def lease_runs_def by force
    show ?thesis using c u False unfolding ledger_inv_def by auto
  qed
qed

lemma ledger_inv_alone: "ledger_inv dep stage d s \<Longrightarrow> lease_runs s w \<Longrightarrow> lease_runs s w' \<Longrightarrow> w' = w"
  unfolding ledger_inv_def by blast

lemma lease_runs_later:
  assumes "lease_runs (s\<lparr>lsys_db := db', holder := h\<rparr>) w'" "pg_same (lsys_db s) db'" "h w' = holder s w'"
  shows "lease_runs s w'"
  using assms by (auto simp: lease_runs_def pg_same_def)

lemma ledger_inv_drop:
  assumes "ledger_inv dep stage d s" "lease_runs s w" "pg_same (lsys_db s) db'"
  shows "ledger_inv dep stage d (s\<lparr>lsys_db := db', holder := (holder s)(w := None)\<rparr>)"
proof (rule ledger_inv_sole [where w = w])
  fix w' assume l: "lease_runs (s\<lparr>lsys_db := db', holder := (holder s)(w := None)\<rparr>) w'"
  show "w' = w"
  proof (cases "w' = w")
    case False
    then have "lease_runs s w'" using lease_runs_later [OF l assms(3)] by simp
    then show ?thesis using ledger_inv_alone assms by blast
  qed simp
qed simp

lemma ledger_inv_renew:
  assumes inv: "ledger_inv dep stage d s" and w: "lease_runs s w"
    and rn: "pg_Renew c dep stage d (lsys_db s) = (e, db')"
  shows "ledger_inv dep stage d (s\<lparr>lsys_db := db', holder :=
      (if e = None then (holder s)(w := Some (pg_clock (lsys_db s) + sint d)) else holder s)\<rparr>)"
    (is "ledger_inv _ _ _ ?s'")
proof -
  let ?db = "lsys_db s" let ?t' = "pg_clock (lsys_db s) + sint d"
  let ?f = "\<lambda>r. if row_state r = StateInProgress then r\<lparr>row_lease := Some ?t'\<rparr> else r"
  obtain t where t: "holder s w = Some t" "pg_clock ?db < t" using w by (auto simp: lease_runs_def)
  then have cov: "covers dep stage d ?db t" using inv by (auto simp: ledger_inv_def)
  then obtain r L where r: "pg_rows ?db (dep, stage) = Some r" "row_state r = StateInProgress"
    "row_lease r = Some L" "t \<le> L" "t \<le> ?t'" by (auto simp: covers_def)
  have ex: "pg_exec c (sql_update dep stage ?f) ?db = (e, db')" using rn by (simp add: pg_Renew_def)
  have same: "pg_same ?db db'" using pg_exec_effect [OF ex] by blast
  have new: "covers dep stage d db' ?t'" if "pg_rows db' = (pg_rows ?db)((dep, stage) \<mapsto> ?f r)"
    using that r same by (auto simp: covers_def pg_same_def)
  have upd: "pg_rows db' = (pg_rows ?db)((dep, stage) \<mapsto> ?f r)"
    if "sql_update dep stage ?f (pg_rows ?db) = Inr ((), pg_rows db')"
    using that r by (auto simp: sql_update_def split: if_splits)
  show ?thesis
  proof (rule ledger_inv_sole [where w = w])
    fix w' assume l: "lease_runs ?s' w'"
    show "w' = w"
    proof (cases "w' = w")
      case False
      then have "lease_runs s w'" using lease_runs_later [OF l same] by simp
      then show ?thesis using ledger_inv_alone inv w by blast
    qed simp
  next
    fix u assume u: "holder ?s' w = Some u" "pg_clock (lsys_db ?s') < u"
    show "covers dep stage d (lsys_db ?s') u"
    proof (cases "e = None")
      case True
      then show ?thesis using u new upd pg_exec_effect [OF ex] by auto
    next
      case False
      then have "u = t" using u t by auto
      then show ?thesis
        using pg_exec_effect [OF ex] covers_frame [OF cov same] new upd r(5)
        by (auto simp: covers_def)
    qed
  qed
qed

lemma ledger_step_inv: "ledger_step dep stage d s s' \<Longrightarrow> ledger_inv dep stage d s \<Longrightarrow> ledger_inv dep stage d s'"
proof (induction rule: ledger_step.induct)
  case (claim c s disp rec e db' w)
  then show ?case by (rule ledger_inv_claim [rotated])
next
  case (renew s w c e db')
  then show ?case by (intro ledger_inv_renew)
next
  case (finish s w c st v e db')
  then have "pg_same (lsys_db s) db'" using pg_exec_effect unfolding pg_set_def by blast
  then show ?case using finish ledger_inv_drop by blast
next
  case (release s w c e db')
  then have "pg_same (lsys_db s) db'" using pg_exec_effect unfolding pg_Release_def by blast
  then show ?case using release ledger_inv_drop by blast
next
  case (elapse s n)
  then show ?case unfolding ledger_inv_def lease_runs_def covers_def by fastforce
qed

lemma ledger_reachable_inv: "ledger_reachable dep stage d s \<Longrightarrow> ledger_inv dep stage d s"
proof (induction rule: ledger_reachable.induct)
  case (start s)
  then show ?case by (simp add: ledger_inv_def lease_runs_def)
next
  case (step s s')
  then show ?case by (blast intro: ledger_step_inv)
qed

end
