(* ===== verification/Publisher.thy ===== *)
theory Publisher
  imports Wire
begin

text \<open>
  \<open>rabbit_publisher.go\<close>: publishing with confirms over one AMQP channel. The channel belongs to the
  AMQP client, outside the repository: what it does with a message, whether and how the broker
  confirms it and which returned messages it has queued are functions over an arbitrary state.
\<close>

section \<open>Messages\<close>

datatype amqp_value =
    AmqpInt32 int32
  | AmqpInt64 int64
  | AmqpInt int64
  | AmqpString string
  | AmqpOther string

type_synonym amqp_table = "string \<Rightarrow> amqp_value option"

datatype delivery_mode = Transient | Persistent

record publishing =
  pb_ContentType :: string
  pb_DeliveryMode :: delivery_mode
  pb_Headers :: amqp_table
  pb_Timestamp :: "int option"
  pb_MessageId :: string
  pb_Body :: string

record amqp_return =
  ret_ReplyCode :: int
  ret_ReplyText :: string

text \<open>
  The channel: publish (the deferred confirmation may be nil), wait for a confirmation, and the
  non-blocking receive from the channel of returned messages.
\<close>

record 'e amqp_channel =
  ch_Publish :: "ctx \<Rightarrow> string \<Rightarrow> string \<Rightarrow> bool \<Rightarrow> publishing \<Rightarrow> 'e \<Rightarrow> (go_error + nat option) \<times> 'e"
  ch_Wait :: "ctx \<Rightarrow> nat \<Rightarrow> 'e \<Rightarrow> (go_error + bool) \<times> 'e"
  ch_Returned :: "'e \<Rightarrow> amqp_return option \<times> 'e"

text \<open>The publisher; its channel field may be nil. The last field reads the clock.\<close>

record 'e rabbit_publisher =
  rp_ch :: "'e amqp_channel option"
  rp_now :: "'e \<Rightarrow> int"

section \<open>Operations\<close>

definition rp_publish ::
  "'e rabbit_publisher \<Rightarrow> ctx \<Rightarrow> string \<Rightarrow> string \<Rightarrow> bool \<Rightarrow> publishing \<Rightarrow> 'e \<Rightarrow> go_error option \<times> 'e" where
  "rp_publish p c exchange routingKey mandatory message e0 =
     (case rp_ch p of
        None \<Rightarrow> (Some (ErrorString ''rabbitmq publish channel is not initialized''), e0)
      | Some ch \<Rightarrow>
          (case ch_Publish ch c exchange routingKey mandatory message e0 of
             (Inl err, e1) \<Rightarrow> (Some (WrapError ''publish rabbitmq event: '' err), e1)
           | (Inr None, e1) \<Rightarrow> (Some (ErrorString ''publisher confirmation was not created''), e1)
           | (Inr (Some confirmation), e1) \<Rightarrow>
               (case ch_Wait ch c confirmation e1 of
                  (Inl err, e2) \<Rightarrow> (Some (WrapError ''wait for publisher confirmation: '' err), e2)
                | (Inr acked, e2) \<Rightarrow>
                    if \<not> acked then
                      (Some (ErrorString ''rabbitmq publisher negatively acknowledged the event''), e2)
                    else if mandatory then
                      (case ch_Returned ch e2 of
                         (Some returned, e3) \<Rightarrow>
                           (Some (ErrorString (''rabbitmq returned unroutable progress event: '' @
                              show_int (ret_ReplyCode returned) @ '' '' @ ret_ReplyText returned)), e3)
                       | (None, e3) \<Rightarrow> (None, e3))
                    else (None, e2))))"

definition rp_publishJSON ::
  "'e rabbit_publisher \<Rightarrow> ctx \<Rightarrow> string \<Rightarrow> string \<Rightarrow> event_any \<Rightarrow> bool \<Rightarrow> 'e \<Rightarrow> go_error option \<times> 'e" where
  "rp_publishJSON p c exchange routingKey payload mandatory e0 =
     (if rp_ch p = None then (Some (ErrorString ''rabbitmq publish channel is not initialized''), e0)
      else case marshal_any payload of
             Inl err \<Rightarrow> (Some (WrapError ''marshal event payload: '' err), e0)
           | Inr body \<Rightarrow>
               rp_publish p c exchange routingKey mandatory
                 \<lparr>pb_ContentType = ''application/json'', pb_DeliveryMode = Persistent,
                  pb_Headers = (\<lambda>_. None), pb_Timestamp = Some (rp_now p e0),
                  pb_MessageId = show_int (rp_now p e0), pb_Body = json_text body\<rparr> e0)"

definition rp_PublishJSON ::
  "'e rabbit_publisher \<Rightarrow> ctx \<Rightarrow> string \<Rightarrow> string \<Rightarrow> event_any \<Rightarrow> 'e \<Rightarrow> go_error option \<times> 'e" where
  "rp_PublishJSON p c exchange routingKey payload = rp_publishJSON p c exchange routingKey payload False"

definition rp_PublishProgressJSON ::
  "'e rabbit_publisher \<Rightarrow> ctx \<Rightarrow> string \<Rightarrow> string \<Rightarrow> event_any \<Rightarrow> 'e \<Rightarrow> go_error option \<times> 'e" where
  "rp_PublishProgressJSON p c exchange routingKey payload = rp_publishJSON p c exchange routingKey payload True"

definition rp_Publish ::
  "'e rabbit_publisher \<Rightarrow> ctx \<Rightarrow> string \<Rightarrow> string \<Rightarrow> publishing \<Rightarrow> 'e \<Rightarrow> go_error option \<times> 'e" where
  "rp_Publish p c exchange routingKey message = rp_publish p c exchange routingKey False message"

section \<open>Properties\<close>

text \<open>What the broker did with a message, as the channel reported it: confirmed, and not returned.\<close>

definition broker_took ::
  "'e rabbit_publisher \<Rightarrow> ctx \<Rightarrow> string \<Rightarrow> string \<Rightarrow> bool \<Rightarrow> publishing \<Rightarrow> 'e \<Rightarrow> 'e \<Rightarrow> bool" where
  "broker_took p c exchange routingKey mandatory message e0 e' \<longleftrightarrow>
     (\<exists>ch n e1 e2. rp_ch p = Some ch \<and>
        ch_Publish ch c exchange routingKey mandatory message e0 = (Inr (Some n), e1) \<and>
        ch_Wait ch c n e1 = (Inr True, e2) \<and>
        (if mandatory then ch_Returned ch e2 = (None, e') else e' = e2))"

lemma publish_succeeds_core:
  "rp_publish p c exchange routingKey mandatory message e0 = (None, e') \<longleftrightarrow>
     broker_took p c exchange routingKey mandatory message e0 e'"
  unfolding rp_publish_def broker_took_def by (auto split: option.splits prod.splits sum.splits if_splits)

text \<open>C33. Publishing reports success exactly when the broker confirmed the message and, for a mandatory
  one, no returned message was waiting after the confirmation.\<close>

theorem publish_succeeds_iff_confirmed:
  "rp_publish p c exchange routingKey mandatory message e0 = (None, e') \<longleftrightarrow>
     broker_took p c exchange routingKey mandatory message e0 e'"
  by (rule publish_succeeds_core)

text \<open>An event is published as persistent JSON with its marshalled text as body, the progress events
  as mandatory; an event that cannot be marshalled reaches no broker.\<close>

theorem publishJSON_sends_the_event:
  "(rp_publishJSON p c exchange routingKey payload mandatory e0 = (None, e') \<longleftrightarrow>
     (\<exists>j. marshal_any payload = Inr j \<and> broker_took p c exchange routingKey mandatory
        \<lparr>pb_ContentType = ''application/json'', pb_DeliveryMode = Persistent, pb_Headers = (\<lambda>_. None),
         pb_Timestamp = Some (rp_now p e0), pb_MessageId = show_int (rp_now p e0), pb_Body = json_text j\<rparr> e0 e')) \<and>
   (case marshal_any payload of
      Inl err \<Rightarrow> snd (rp_publishJSON p c exchange routingKey payload mandatory e0) = e0 \<and>
                 fst (rp_publishJSON p c exchange routingKey payload mandatory e0) \<noteq> None
    | Inr j \<Rightarrow> True)"
proof -
  have n: "rp_ch p = None \<Longrightarrow> \<not> broker_took p c exchange routingKey mandatory m e0 e'" for m
    by (simp add: broker_took_def)
  show ?thesis
    by (cases "marshal_any payload"; cases "rp_ch p = None")
      (auto simp: rp_publishJSON_def n publish_succeeds_core split: sum.splits)
qed

end
