(* ===== verification/Rollout.thy ===== *)
theory Rollout
  imports Names
begin

text \<open>
  \<open>rollout.go\<close>: when a rollout is complete, when it has failed, which errors are worth a retry, and
  the loop that polls a deployment until one of them or the deadline. The API server and the
  clock are parameters of the loop.
\<close>

section \<open>The deployment as the API reports it\<close>

record deployment_condition =
  dcond_Type :: string
  dcond_Status :: string
  dcond_Reason :: string
  dcond_Message :: string

record deployment_status =
  ds_SpecReplicas :: "int32 option"
  ds_Generation :: int64
  ds_ObservedGeneration :: int64
  ds_UpdatedReplicas :: int32
  ds_Replicas :: int32
  ds_AvailableReplicas :: int32
  ds_Conditions :: "deployment_condition list"

section \<open>Conditions\<close>

fun rollout_condition_loop :: "deployment_target \<Rightarrow> deployment_condition list \<Rightarrow> go_error option" where
  "rollout_condition_loop target [] = None"
| "rollout_condition_loop target (condition # conditions) =
     (if dcond_Type condition = ''Progressing'' \<and> dcond_Status condition = ''False'' \<and>
         dcond_Reason condition = ''ProgressDeadlineExceeded''
      then Some (RolloutFailedError (dt_Namespace target) (dt_DeploymentName target)
             (dcond_Reason condition) (dcond_Message condition))
      else if dcond_Type condition = ''ReplicaFailure'' \<and> dcond_Status condition = ''True''
      then Some (RolloutFailedError (dt_Namespace target) (dt_DeploymentName target)
             (dcond_Reason condition) (dcond_Message condition))
      else rollout_condition_loop target conditions)"

definition rolloutConditionError :: "deployment_status \<Rightarrow> deployment_target \<Rightarrow> go_error option" where
  "rolloutConditionError deployment target = rollout_condition_loop target (ds_Conditions deployment)"

fun available_loop :: "deployment_condition list \<Rightarrow> bool" where
  "available_loop [] = False"
| "available_loop (condition # conditions) =
     (if dcond_Type condition = ''Available'' \<and> dcond_Status condition = ''True'' then True
      else available_loop conditions)"

definition deploymentRolloutComplete :: "deployment_status \<Rightarrow> bool" where
  "deploymentRolloutComplete deployment =
     (let replicas = (case ds_SpecReplicas deployment of None \<Rightarrow> 1 | Some r \<Rightarrow> r);
          available = available_loop (ds_Conditions deployment)
      in available \<and> sint (ds_Generation deployment) \<le> sint (ds_ObservedGeneration deployment) \<and>
         ds_UpdatedReplicas deployment = replicas \<and> ds_Replicas deployment = replicas \<and>
         ds_AvailableReplicas deployment = replicas)"

section \<open>Which errors are retried\<close>

definition isRetriableDeployError :: "go_error \<Rightarrow> bool" where
  "isRetriableDeployError err =
     (if is_ownership_error err then False
      else if is_rollout_timeout err then False
      else if is_rollout_failed err then False
      else if is_deadline_exceeded err then True
      else if api_error x_IsTimeout err \<or> api_error x_IsServerTimeout err \<or>
              api_error x_IsServiceUnavailable err \<or> api_error x_IsTooManyRequests err \<or>
              api_error x_IsInternalError err then True
      else if as_net_error err then True
      else api_error x_AsURLError err)"

section \<open>Waiting for a rollout\<close>

text \<open>
  The loop of \<open>WaitForRollout\<close>. The state \<open>'e\<close> is the outside world: \<open>get\<close> asks the API server for
  the deployment, \<open>now\<close> reads the clock and \<open>sleep\<close> blocks until a moment. \<open>next\<close> is when the
  ticker's channel has its next tick; the channel holds one tick, so the ticks that a slow call
  missed are dropped. When the deadline and a tick fall together, \<open>prefer\<close> is the choice of
  \<open>select\<close>. Running out of fuel is \<open>None\<close>.
\<close>

record 'e rollout_env =
  re_Get :: "ctx \<Rightarrow> string \<Rightarrow> string \<Rightarrow> 'e \<Rightarrow> (go_error + deployment_status) \<times> 'e"
  re_Now :: "'e \<Rightarrow> int"
  re_Sleep :: "int \<Rightarrow> 'e \<Rightarrow> 'e"
  re_Prefer :: "'e \<Rightarrow> bool"

definition poll_interval :: "config \<Rightarrow> int" where
  "poll_interval cfg =
     (if sint (RolloutPollInterval cfg) \<le> 0 then second else sint (RolloutPollInterval cfg))"

text \<open>The first tick after a moment, for a ticker of period \<open>p\<close> that has a tick at \<open>t0\<close>.\<close>

definition tick_after :: "int \<Rightarrow> int \<Rightarrow> int \<Rightarrow> int" where
  "tick_after p t0 t = t0 + ((t - t0) div p + 1) * p"

definition ctx_done_error :: "deployment_target \<Rightarrow> go_error \<Rightarrow> go_error" where
  "ctx_done_error target err =
     (if is_deadline_exceeded err then RolloutTimeoutError (dt_Namespace target) (dt_DeploymentName target)
      else err)"

fun wait_loop ::
  "'e rollout_env \<Rightarrow> int \<Rightarrow> ctx \<Rightarrow> deployment_target \<Rightarrow> nat \<Rightarrow> int \<Rightarrow> 'e \<Rightarrow> (go_error option \<times> 'e) option" where
  "wait_loop env p c target 0 tick0 e0 = None"
| "wait_loop env p c target (Suc fuel) tick0 e0 =
     (case re_Get env c (dt_Namespace target) (dt_DeploymentName target) e0 of
        (Inl err, e1) \<Rightarrow> Some (Some (WrapError ''get deployment status: '' err), e1)
      | (Inr deployment, e1) \<Rightarrow>
          (case rolloutConditionError deployment target of
             Some err \<Rightarrow> Some (Some err, e1)
           | None \<Rightarrow>
               if deploymentRolloutComplete deployment then Some (None, e1)
               else case ctx_err (re_Now env e1) c of
                      Some err \<Rightarrow> Some (Some (ctx_done_error target err), e1)
                    | None \<Rightarrow>
                        let t = max (re_Now env e1) tick0 in
                        (case ctx_deadline c of
                           Some dl \<Rightarrow>
                             if t < dl \<or> (t = dl \<and> re_Prefer env e1)
                             then wait_loop env p c target fuel (tick_after p tick0 t) (re_Sleep env t e1)
                             else Some (Some (ctx_done_error target ContextDeadlineExceeded), re_Sleep env dl e1)
                         | None \<Rightarrow> wait_loop env p c target fuel (tick_after p tick0 t) (re_Sleep env t e1))))"

definition WaitForRollout ::
  "'e rollout_env \<Rightarrow> config \<Rightarrow> nat \<Rightarrow> ctx \<Rightarrow> deployment_target \<Rightarrow> 'e \<Rightarrow> (go_error option \<times> 'e) option" where
  "WaitForRollout env cfg fuel c target e0 =
     (let p = poll_interval cfg in wait_loop env p c target fuel (re_Now env e0 + p) e0)"

section \<open>Conditions: properties\<close>

definition failing_condition :: "deployment_condition \<Rightarrow> bool" where
  "failing_condition d \<longleftrightarrow>
     dcond_Type d = ''Progressing'' \<and> dcond_Status d = ''False'' \<and> dcond_Reason d = ''ProgressDeadlineExceeded'' \<or>
     dcond_Type d = ''ReplicaFailure'' \<and> dcond_Status d = ''True''"

text \<open>The error of a rollout is that of the first failing condition, with its reason and message.\<close>

theorem rolloutConditionError_first:
  "rolloutConditionError d target = map_option (\<lambda>q. RolloutFailedError (dt_Namespace target)
     (dt_DeploymentName target) (dcond_Reason q) (dcond_Message q)) (List.find failing_condition (ds_Conditions d))"
proof -
  have "rollout_condition_loop target qs = map_option (\<lambda>q. RolloutFailedError (dt_Namespace target)
     (dt_DeploymentName target) (dcond_Reason q) (dcond_Message q)) (List.find failing_condition qs)" for qs
    by (induction qs) (auto simp: failing_condition_def)
  then show ?thesis by (simp add: rolloutConditionError_def)
qed

lemma available_loop_iff: "available_loop qs \<longleftrightarrow>
    list_ex (\<lambda>q. dcond_Type q = ''Available'' \<and> dcond_Status q = ''True'') qs"
  by (induction qs) auto

text \<open>A rollout counts as complete exactly when the controller has seen the current generation, an
  Available condition holds and all three counters equal the wanted number of replicas (one when unset); so no old
  or unavailable replica is left.\<close>

theorem deploymentRolloutComplete_iff:
  "deploymentRolloutComplete d \<longleftrightarrow>
     sint (ds_Generation d) \<le> sint (ds_ObservedGeneration d) \<and>
     list_ex (\<lambda>q. dcond_Type q = ''Available'' \<and> dcond_Status q = ''True'') (ds_Conditions d) \<and>
     (case ds_SpecReplicas d of None \<Rightarrow> ds_Replicas d = 1 | Some n \<Rightarrow> ds_Replicas d = n) \<and>
     ds_UpdatedReplicas d = ds_Replicas d \<and> ds_AvailableReplicas d = ds_Replicas d"
  by (cases "ds_SpecReplicas d") (auto simp: deploymentRolloutComplete_def Let_def available_loop_iff)

text \<open>C32. Whether an error is retried depends only on its cause, however often it was wrapped; rollout
  failures, rollout timeouts and ownership conflicts are final, and an error of the service's own making or a
  cancelled context is never retried.\<close>

theorem retriable_depends_on_cause:
  "isRetriableDeployError e \<longleftrightarrow>
     (case root_cause e of
        ContextDeadlineExceeded \<Rightarrow> True
      | ExtError x \<Rightarrow> x_IsDeadlineExceeded x \<or> x_IsTimeout x \<or> x_IsServerTimeout x \<or>
          x_IsServiceUnavailable x \<or> x_IsTooManyRequests x \<or> x_IsInternalError x \<or>
          x_AsNetError x \<or> x_AsURLError x
      | _ \<Rightarrow> False)"
proof -
  have "isRetriableDeployError e = isRetriableDeployError (root_cause e)"
    by (simp add: isRetriableDeployError_def error_class_root)
  then show ?thesis
  proof (cases "root_cause e")
    case (WrapError s e')
    then show ?thesis using root_cause_not_wrap by blast
  qed (simp_all add: isRetriableDeployError_def)
qed

section \<open>The poll loop: properties\<close>

lemma poll_interval_pos: "0 < poll_interval cfg"
  by (simp add: poll_interval_def second_def)

lemma tick_after_bounds:
  assumes "0 < p" "t0 \<le> t"
  shows "t < tick_after p t0 t" "t0 + p \<le> tick_after p t0 t"
proof -
  let ?q = "(t - t0) div p"
  have m: "t - t0 = ?q * p + (t - t0) mod p" "(t - t0) mod p < p" "(?q + 1) * p = ?q * p + p"
    using assms by (simp_all add: algebra_simps)
  show "t < tick_after p t0 t" unfolding tick_after_def using m by linarith
  have "0 \<le> ?q * p" using assms by (simp add: pos_imp_zdiv_nonneg_iff)
  then show "t0 + p \<le> tick_after p t0 t" by (simp add: tick_after_def algebra_simps)
qed

text \<open>Each round of the loop moves the next tick one period further, so that the deadline is met.\<close>

lemma wait_loop_returns:
  assumes "0 < p" "ctx_deadline c = Some dl"
  shows "dl - tick0 < int fuel * p \<Longrightarrow> \<exists>r. wait_loop env p c target (Suc fuel) tick0 e0 = Some r"
proof (induction fuel arbitrary: tick0 e0)
  case 0
  then show ?case using assms(2) by (auto simp: Let_def split: prod.splits sum.splits option.splits)
next
  case (Suc fuel)
  have step: "\<exists>r. wait_loop env p c target (Suc fuel) (tick_after p tick0 (max t tick0)) e2 = Some r" for t e2
  proof (rule Suc.IH)
    show "dl - tick_after p tick0 (max t tick0) < int fuel * p"
      using Suc.prems tick_after_bounds(2) [OF assms(1), of tick0 "max t tick0"] by (simp add: algebra_simps)
  qed
  obtain g e1 where g: "re_Get env c (dt_Namespace target) (dt_DeploymentName target) e0 = (g, e1)" by fastforce
  show ?case
    unfolding wait_loop.simps(2) [of env p c target "Suc fuel"] g
    using step assms(2) by (auto simp: Let_def simp del: wait_loop.simps split: sum.splits option.splits)
qed

lemma poll_ends:
  assumes "ctx_deadline c = Some dl" "nat ((dl - re_Now env e0) div poll_interval cfg) + 2 \<le> fuel"
  shows "\<exists>r. WaitForRollout env cfg fuel c target e0 = Some r"
proof -
  let ?p = "poll_interval cfg" let ?d = "dl - re_Now env e0"
  obtain n where n: "fuel = Suc n" "nat (?d div ?p) + 1 \<le> n" using assms(2) by (cases fuel) auto
  have "?d = ?d div ?p * ?p + ?d mod ?p" "?d mod ?p < ?p" "(?d div ?p + 1) * ?p = ?d div ?p * ?p + ?p"
    using poll_interval_pos [of cfg] by (simp_all add: algebra_simps)
  then have "?d < (?d div ?p + 1) * ?p" by linarith
  also have "\<dots> \<le> (int n) * ?p" using n(2) poll_interval_pos [of cfg] by (intro mult_right_mono) linarith+
  finally have "dl - (re_Now env e0 + ?p) < int n * ?p" using poll_interval_pos [of cfg] by linarith
  then show ?thesis
    using wait_loop_returns [OF poll_interval_pos assms(1)] n(1) by (simp add: WaitForRollout_def Let_def del: wait_loop.simps)
qed

text \<open>
  A rollout that gets ready: from \<open>R\<close> on every read shows it complete, none fails before that, and no read or sleep takes more
  than \<open>L\<close> longer than it has to.
\<close>

definition ready_from :: "'e rollout_env \<Rightarrow> ctx \<Rightarrow> deployment_target \<Rightarrow> int \<Rightarrow> int \<Rightarrow> bool" where
  "ready_from env c target R L \<longleftrightarrow>
     (\<forall>e. (\<exists>d e'. re_Get env c (dt_Namespace target) (dt_DeploymentName target) e = (Inr d, e') \<and>
        rolloutConditionError d target = None \<and> (R \<le> re_Now env e \<longrightarrow> deploymentRolloutComplete d) \<and>
        re_Now env e \<le> re_Now env e' \<and> re_Now env e' \<le> re_Now env e + L)) \<and>
     (\<forall>t e. max t (re_Now env e) \<le> re_Now env (re_Sleep env t e) \<and> re_Now env (re_Sleep env t e) \<le> max t (re_Now env e) + L)"

lemma tick_after_le:
  assumes "0 < p"
  shows "tick_after p t0 t \<le> t + p"
proof -
  have "t - t0 = (t - t0) div p * p + (t - t0) mod p" "0 \<le> (t - t0) mod p" using assms by simp_all
  moreover have "tick_after p t0 t = t0 + (t - t0) div p * p + p" by (simp add: tick_after_def algebra_simps)
  ultimately show ?thesis by linarith
qed

lemma ready_poll:
  assumes "ready_from env c target R L" "\<not> ctx_canceled c" "ctx_deadline c = Some dl" "R + max L p \<le> dl" "0 < p" "0 \<le> L"
  shows "wait_loop env p c target n tick0 e0 = Some (r, e') \<Longrightarrow> tick0 \<le> re_Now env e0 + p \<Longrightarrow>
     r = None \<and> re_Now env e' \<le> max (re_Now env e0) (R + max L p + L) + L"
  using assms
proof (induction env p c target n tick0 e0 rule: wait_loop.induct)
  case (2 env p c target fuel tick0 e0)
  obtain d e1 where g: "re_Get env c (dt_Namespace target) (dt_DeploymentName target) e0 = (Inr d, e1)"
    "rolloutConditionError d target = None" "R \<le> re_Now env e0 \<longrightarrow> deploymentRolloutComplete d"
    "re_Now env e0 \<le> re_Now env e1" "re_Now env e1 \<le> re_Now env e0 + L"
    using 2(5) unfolding ready_from_def by blast
  show ?case
  proof (cases "deploymentRolloutComplete d")
    case True
    then show ?thesis using 2(3) g by auto
  next
    case False
    let ?t = "max (re_Now env e1) tick0" let ?e2 = "re_Sleep env ?t e1"
    have R: "re_Now env e0 < R" using False g(3) by linarith
    have t: "?t < R + max L p" "?t < dl" using R g(5) 2(4,8) by linarith+
    have e2: "?t \<le> re_Now env ?e2" "re_Now env ?e2 \<le> ?t + L"
      using 2(5) unfolding ready_from_def by (metis max.bounded_iff max.left_idem max.commute)+
    have ok: "ctx_err (re_Now env e1) c = None" using 2(6,7) t(2) by (simp add: ctx_err_def)
    have step: "wait_loop env p c target fuel (tick_after p tick0 ?t) ?e2 = Some (r, e')"
      using 2(3) g(1,2) False ok 2(7) t(2) by (simp add: Let_def)
    have "tick_after p tick0 ?t \<le> re_Now env ?e2 + p" using tick_after_le [OF 2(9), of tick0 ?t] e2(1) by linarith
    then have "r = None \<and> re_Now env e' \<le> max (re_Now env ?e2) (R + max L p + L) + L"
      using 2(2) [OF g(1) [symmetric] refl g(2) False ok refl 2(7) _ step] 2(5-10) t(2) by simp
    then show ?thesis using e2(2) t(1) by linarith
  qed
qed simp

text \<open>C31. Waiting for a rollout returns: under a context with a deadline the loop polls at most once per
  period until then, whatever the API server and the clock do. And a rollout that gets ready a poll period before the
  deadline is reported ready, at most one more period after it did.\<close>

theorem WaitForRollout_returns:
  assumes "ctx_deadline c = Some dl" "nat ((dl - re_Now env e0) div poll_interval cfg) + 2 \<le> fuel"
  shows "\<exists>r e'. WaitForRollout env cfg fuel c target e0 = Some (r, e') \<and>
     (\<forall>R L. ready_from env c target R L \<and> 0 \<le> L \<and> \<not> ctx_canceled c \<and> R + max L (poll_interval cfg) \<le> dl \<longrightarrow>
        r = None \<and> re_Now env e' \<le> max (re_Now env e0) (R + max L (poll_interval cfg) + L) + L)"
proof -
  obtain r e' where r: "WaitForRollout env cfg fuel c target e0 = Some (r, e')"
    using poll_ends [OF assms] by fastforce
  then have "wait_loop env (poll_interval cfg) c target fuel (re_Now env e0 + poll_interval cfg) e0 = Some (r, e')"
    by (simp add: WaitForRollout_def Let_def)
  then have "r = None \<and> re_Now env e' \<le> max (re_Now env e0) (R + max L (poll_interval cfg) + L) + L"
    if "ready_from env c target R L" "0 \<le> L" "\<not> ctx_canceled c" "R + max L (poll_interval cfg) \<le> dl" for R L
    using ready_poll [OF that(1,3) assms(1) that(4) poll_interval_pos that(2)] by simp
  then show ?thesis using r by blast
qed

text \<open>A server that reports the rollout complete from the third second on, and a clock that only sleeping moves.\<close>

definition slow_env :: "int rollout_env" where
  "slow_env = \<lparr>re_Get = (\<lambda>c ns d e. (Inr \<lparr>ds_SpecReplicas = None, ds_Generation = 1,
       ds_ObservedGeneration = (if 3 * second \<le> e then 1 else 0), ds_UpdatedReplicas = 1, ds_Replicas = 1, ds_AvailableReplicas = 1,
       ds_Conditions = [\<lparr>dcond_Type = ''Available'', dcond_Status = ''True'', dcond_Reason = [], dcond_Message = []\<rparr>]\<rparr>, e)),
     re_Now = (\<lambda>e. e), re_Sleep = (\<lambda>t e. max t e), re_Prefer = (\<lambda>e. True)\<rparr>"

lemma slow_ready: "ready_from slow_env c target (3 * second) 0"
  by (simp add: ready_from_def slow_env_def rolloutConditionError_def deploymentRolloutComplete_def)

theorem WaitForRollout_returns_witness:
  "\<exists>e'. WaitForRollout slow_env sample_config (nat (10 * second div poll_interval sample_config) + 2)
     (with_timeout 0 (10 * second)) zero_target 0 = Some (None, e') \<and> e' \<le> 3 * second + poll_interval sample_config"
proof -
  have p: "poll_interval sample_config \<le> 7 * second" "0 \<le> poll_interval sample_config"
    by (simp_all add: poll_interval_def sample_config_def second_def)
  have now: "re_Now slow_env e = e" for e by (simp add: slow_env_def)
  have dl: "ctx_deadline (with_timeout 0 (10 * second)) = Some (10 * second)" "\<not> ctx_canceled (with_timeout 0 (10 * second))"
    by (simp_all add: with_timeout_def)
  obtain r e' where r: "WaitForRollout slow_env sample_config (nat (10 * second div poll_interval sample_config) + 2)
      (with_timeout 0 (10 * second)) zero_target 0 = Some (r, e')"
    "\<forall>R L. ready_from slow_env (with_timeout 0 (10 * second)) zero_target R L \<and> 0 \<le> L \<and> \<not> ctx_canceled (with_timeout 0 (10 * second)) \<and>
       R + max L (poll_interval sample_config) \<le> 10 * second \<longrightarrow>
       r = None \<and> re_Now slow_env e' \<le> max (re_Now slow_env 0) (R + max L (poll_interval sample_config) + L) + L"
    using WaitForRollout_returns [OF dl(1), of slow_env 0 sample_config] now by fastforce
  have "r = None \<and> e' \<le> 3 * second + poll_interval sample_config"
    using r(2) [rule_format, of "3 * second" 0] slow_ready p dl(2) by (simp add: now second_def)
  then show ?thesis using r(1) by blast
qed

lemma poll_answers:
  assumes "WaitForRollout env cfg fuel c target e0 = Some (r, e')"
  shows "case r of
     None \<Rightarrow> \<exists>e1 d. re_Get env c (dt_Namespace target) (dt_DeploymentName target) e1 = (Inr d, e') \<and>
        deploymentRolloutComplete d \<and> rolloutConditionError d target = None
   | Some err \<Rightarrow>
        (\<exists>e1 x. re_Get env c (dt_Namespace target) (dt_DeploymentName target) e1 = (Inl x, e') \<and>
           err = WrapError ''get deployment status: '' x) \<or>
        (\<exists>e1 d. re_Get env c (dt_Namespace target) (dt_DeploymentName target) e1 = (Inr d, e') \<and>
           rolloutConditionError d target = Some err) \<or>
        err = RolloutTimeoutError (dt_Namespace target) (dt_DeploymentName target) \<or>
        (ctx_canceled c \<and> err = ContextCanceled)"
proof -
  have "wait_loop env p c target n tick0 e0 = Some (r, e') \<Longrightarrow> ?thesis" for p n tick0 e0
  proof (induction env p c target n tick0 e0 rule: wait_loop.induct)
    case (2 env p c target fuel tick0 e0)
    obtain g e1 where g: "re_Get env c (dt_Namespace target) (dt_DeploymentName target) e0 = (g, e1)" by fastforce
    show ?case
      using 2 g
      by (auto simp: Let_def ctx_done_error_def ctx_err_def split: sum.splits option.splits if_splits)
  qed simp
  then show ?thesis using assms by (simp add: WaitForRollout_def Let_def)
qed


text \<open>A server that reports a finished rollout at once.\<close>

definition ready_env :: "int rollout_env" where
  "ready_env = \<lparr>re_Get = (\<lambda>c ns d e. (Inr \<lparr>ds_SpecReplicas = None, ds_Generation = 1, ds_ObservedGeneration = 1,
       ds_UpdatedReplicas = 1, ds_Replicas = 1, ds_AvailableReplicas = 1,
       ds_Conditions = [\<lparr>dcond_Type = ''Available'', dcond_Status = ''True'', dcond_Reason = [], dcond_Message = []\<rparr>]\<rparr>, e)),
     re_Now = (\<lambda>e. e), re_Sleep = (\<lambda>t e. t), re_Prefer = (\<lambda>e. True)\<rparr>"

lemma ready_wait: "WaitForRollout ready_env cfg 1 c target e = Some (None, e)"
  by (simp add: WaitForRollout_def ready_env_def rolloutConditionError_def deploymentRolloutComplete_def)


end
