(* ===== verification/Consumer.thy ===== *)
theory Consumer
  imports Ledger Publisher Rollout
begin

text \<open>
  \<open>consumer.go\<close>: what happens to one delivery of the queue of build events, from the message to its
  acknowledgement. The stage ledger and the deployment manager are Go interfaces and arguments of
  the model, and so are the AMQP channel below the publisher and the acknowledger of a delivery;
  all act on one state \<open>'e\<close>, the world outside the consumer. \<open>w_trace\<close> is a ghost: the list of
  these calls, in the order they were made, with what they returned. Nothing the code computes
  depends on it.
\<close>

section \<open>The world and the trace\<close>

datatype effect =
    Claimed string "claim_disposition \<times> stage_record \<times> go_error option"
  | Renewed string
  | CompletedStage ctx string deploy_result_events "go_error option"
  | FailedStage ctx string deploy_result_events "go_error option"
  | ReleasedStage string "go_error option"
  | Deployed deploy_request "deployment_target \<times> go_error option"
  | Waited ctx deployment_target "go_error option"
  | PublishedEvent ctx string string event_any "go_error option"
  | PublishedProgress ctx string string event_any "go_error option"
  | PublishedCopy string publishing "go_error option"
  | Acked "go_error option"
  | Nacked bool "go_error option"

record 'e world =
  w_ext :: 'e
  w_trace :: "effect list"

section \<open>Types\<close>

record delivery_action =
  da_ack :: bool
  da_requeue :: bool

definition actionAck :: delivery_action where "actionAck = \<lparr>da_ack = True, da_requeue = False\<rparr>"
definition actionNackDrop :: delivery_action where "actionNackDrop = \<lparr>da_ack = False, da_requeue = False\<rparr>"
definition actionNackRequeue :: delivery_action where "actionNackRequeue = \<lparr>da_ack = False, da_requeue = True\<rparr>"

type_synonym 'e publish_func = "ctx \<Rightarrow> string \<Rightarrow> string \<Rightarrow> event_any \<Rightarrow> 'e \<Rightarrow> go_error option \<times> 'e"

text \<open>The Go interface \<open>DeploymentManager\<close>, and whether the value is a \<open>*KubernetesClient\<close>.\<close>

record 'e deployment_manager =
  dm_Deploy :: "ctx \<Rightarrow> deploy_request \<Rightarrow> 'e \<Rightarrow> (deployment_target \<times> go_error option) \<times> 'e"
  dm_WaitForRollout :: "ctx \<Rightarrow> deployment_target \<Rightarrow> 'e \<Rightarrow> go_error option \<times> 'e"
  dm_isKubernetesClient :: bool

text \<open>
  The consumer. Of the consuming channel only whether it is nil matters here. The last two fields
  stand for the runtime: the clock, and how many ticks of the renewal ticker of a given period the
  renewal goroutine has handled by the time a call returns.
\<close>

record 'e deploy_consumer =
  dc_cfg :: config
  dc_ch :: bool
  dc_pub :: "'e rabbit_publisher option"
  dc_ledger :: "'e stage_ledger option"
  dc_deployer :: "'e deployment_manager"
  dc_publish :: "'e publish_func option"
  dc_now :: "'e \<Rightarrow> int"
  dc_ticks :: "int64 \<Rightarrow> 'e \<Rightarrow> nat"

text \<open>\<open>amqp091.Delivery\<close>: the parts the consumer reads, and its acknowledger.\<close>

record 'e delivery =
  dl_Body :: string
  dl_ContentType :: string
  dl_Headers :: amqp_table
  dl_Ack :: "bool \<Rightarrow> 'e \<Rightarrow> go_error option \<times> 'e"
  dl_Nack :: "bool \<Rightarrow> bool \<Rightarrow> 'e \<Rightarrow> go_error option \<times> 'e"

definition timeout_ctx :: "'e deploy_consumer \<Rightarrow> 'e world \<Rightarrow> int \<Rightarrow> ctx" where
  "timeout_ctx c w d = with_timeout (dc_now c (w_ext w)) d"

definition publisher_nil :: go_error where
  "publisher_nil = ErrorString ''rabbitmq publisher is not initialized''"

section \<open>Calls and the lease renewal\<close>

text \<open>
  \<open>startLeaseRenewal\<close> runs beside the handler from its start to the handler's return. Every call of
  the handler to the outside takes time; \<open>renew_ticks\<close> are the renewals that the goroutine makes
  meanwhile. \<open>rn\<close> is the deployment whose lease is being renewed, if the goroutine is running.
\<close>

definition renew_interval :: "config \<Rightarrow> int64" where
  "renew_interval cfg =
     (let d = int64_div (LeaseDuration cfg) 3 in if sint d \<le> 0 then 60000000000 else d)"

fun renew_ticks :: "'e deploy_consumer \<Rightarrow> 'e stage_ledger \<Rightarrow> string \<Rightarrow> nat \<Rightarrow> 'e world \<Rightarrow> 'e world" where
  "renew_ticks c l dep 0 w = w"
| "renew_ticks c l dep (Suc n) w =
     renew_ticks c l dep n
       \<lparr>w_ext = snd (sl_Renew l background dep ''orchestration'' (LeaseDuration (dc_cfg c)) (w_ext w)),
        w_trace = w_trace w @ [Renewed dep]\<rparr>"

definition renewals :: "'e deploy_consumer \<Rightarrow> string option \<Rightarrow> 'e world \<Rightarrow> 'e world" where
  "renewals c rn w =
     (case (rn, dc_ledger c) of
        (Some dep, Some l) \<Rightarrow> renew_ticks c l dep (dc_ticks c (renew_interval (dc_cfg c)) (w_ext w)) w
      | _ \<Rightarrow> w)"

definition call ::
  "'e deploy_consumer \<Rightarrow> string option \<Rightarrow> ('r \<Rightarrow> effect) \<Rightarrow> ('e \<Rightarrow> 'r \<times> 'e) \<Rightarrow> 'e world \<Rightarrow> 'r \<times> 'e world" where
  "call c rn note f w =
     (let (r, e) = f (w_ext w)
      in (r, renewals c rn \<lparr>w_ext = e, w_trace = w_trace w @ [note r]\<rparr>))"

section \<open>Publishing\<close>

definition publishProgressEvent ::
  "'e deploy_consumer \<Rightarrow> string option \<Rightarrow> ctx \<Rightarrow> string \<Rightarrow> string \<Rightarrow> event_any \<Rightarrow> 'e world \<Rightarrow> go_error option \<times> 'e world" where
  "publishProgressEvent c rn x exchange routingKey event w =
     (case dc_publish c of
        Some publish \<Rightarrow>
          call c rn (PublishedProgress x exchange routingKey event) (publish x exchange routingKey event) w
      | None \<Rightarrow>
          (case dc_pub c of
             None \<Rightarrow> (Some publisher_nil, w)
           | Some pub \<Rightarrow>
               call c rn (PublishedProgress x exchange routingKey event)
                 (rp_PublishProgressJSON pub x exchange routingKey event) w))"

definition publishJSONEvent ::
  "'e deploy_consumer \<Rightarrow> string option \<Rightarrow> ctx \<Rightarrow> string \<Rightarrow> string \<Rightarrow> event_any \<Rightarrow> 'e world \<Rightarrow> go_error option \<times> 'e world" where
  "publishJSONEvent c rn x exchange routingKey event w =
     (case dc_pub c of
        None \<Rightarrow> (Some publisher_nil, w)
      | Some pub \<Rightarrow>
          call c rn (PublishedEvent x exchange routingKey event)
            (rp_PublishJSON pub x exchange routingKey event) w)"

definition publishEvent ::
  "'e deploy_consumer \<Rightarrow> string option \<Rightarrow> ctx \<Rightarrow> string \<Rightarrow> string \<Rightarrow> event_any \<Rightarrow> 'e world \<Rightarrow> go_error option \<times> 'e world" where
  "publishEvent c rn x exchange routingKey event w =
     (case dc_publish c of
        Some publish \<Rightarrow>
          call c rn (PublishedEvent x exchange routingKey event) (publish x exchange routingKey event) w
      | None \<Rightarrow> publishJSONEvent c rn x exchange routingKey event w)"

section \<open>The result of a stage\<close>

definition makeDeployResultEvents ::
  "string \<Rightarrow> event_any \<Rightarrow> string \<Rightarrow> event_any \<Rightarrow> deploy_result_events \<times> go_error option" where
  "makeDeployResultEvents sk se pk pe =
     (case marshal_any se of
        Inl e \<Rightarrow> (zero_bundle, Some e)
      | Inr s \<Rightarrow>
          (case marshal_any pe of
             Inl e \<Rightarrow> (\<lparr>ServiceRoutingKey = sk, ServiceEvent = Some s, ProgressRoutingKey = pk,
                       ProgressEvent_raw = None\<rparr>, Some e)
           | Inr p \<Rightarrow> (\<lparr>ServiceRoutingKey = sk, ServiceEvent = Some s, ProgressRoutingKey = pk,
                       ProgressEvent_raw = Some p\<rparr>, None)))"

text \<open>The call \<open>c.ledger.Complete\<close> or \<open>c.ledger.Fail\<close>, when there is a ledger.\<close>

definition ledger_Complete ::
  "'e deploy_consumer \<Rightarrow> string option \<Rightarrow> ctx \<Rightarrow> string \<Rightarrow> deploy_result_events \<Rightarrow> 'e world \<Rightarrow> go_error option \<times> 'e world" where
  "ledger_Complete c rn x dep bundle w =
     (case dc_ledger c of
        None \<Rightarrow> (None, w)
      | Some l \<Rightarrow> call c rn (CompletedStage x dep bundle) (sl_Complete l x dep ''orchestration'' bundle) w)"

definition ledger_Fail ::
  "'e deploy_consumer \<Rightarrow> string option \<Rightarrow> ctx \<Rightarrow> string \<Rightarrow> deploy_result_events \<Rightarrow> 'e world \<Rightarrow> go_error option \<times> 'e world" where
  "ledger_Fail c rn x dep bundle w =
     (case dc_ledger c of
        None \<Rightarrow> (None, w)
      | Some l \<Rightarrow> call c rn (FailedStage x dep bundle) (sl_Fail l x dep ''orchestration'' bundle) w)"

definition publishRolloutSuccess ::
  "'e deploy_consumer \<Rightarrow> string option \<Rightarrow> build_payload service_event \<Rightarrow> deployment_target \<Rightarrow> ctx \<Rightarrow>
   'e world \<Rightarrow> (delivery_action \<times> go_error option) \<times> 'e world" where
  "publishRolloutSuccess c rn event deployedTarget x w0 =
     (let cfg = dc_cfg c;
          now = dc_now c (w_ext w0);
          successEvent = SucceededEvent (newDeploySucceededEvent now event deployedTarget);
          progressEvent = ProgressEvent (newOrchestrationRunningEvent now event deployedTarget)
      in case makeDeployResultEvents (DeploySucceededRoutingKey cfg) successEvent
                (OrchestrationRunningRoutingKey cfg) progressEvent of
           (bundle, Some err) \<Rightarrow> ((actionNackRequeue, Some err), w0)
         | (bundle, None) \<Rightarrow>
             (case ledger_Complete c rn x (se_DeploymentID event) bundle w0 of
                (Some err, w1) \<Rightarrow>
                  ((actionNackRequeue, Some (WrapError ''persist orchestration result: '' err)), w1)
              | (None, w1) \<Rightarrow>
                  (case publishEvent c rn x (RabbitMQExchange cfg) (DeploySucceededRoutingKey cfg) successEvent w1 of
                     (Some err, w2) \<Rightarrow>
                       ((actionNackRequeue, Some (WrapError ''publish deploy succeeded event: '' err)), w2)
                   | (None, w2) \<Rightarrow>
                       (case publishProgressEvent c rn x (DeploymentExchange cfg)
                               (OrchestrationRunningRoutingKey cfg) progressEvent w2 of
                          (Some err, w3) \<Rightarrow>
                            ((actionNackRequeue, Some (WrapError ''publish orchestration running event: '' err)), w3)
                        | (None, w3) \<Rightarrow> ((actionAck, None), w3)))))"

text \<open>The publications at the end of \<open>completeFailure\<close>, after the result is in the ledger.\<close>

definition publish_failure ::
  "'e deploy_consumer \<Rightarrow> string option \<Rightarrow> ctx \<Rightarrow> event_any \<Rightarrow> event_any \<Rightarrow> go_error \<Rightarrow>
   'e world \<Rightarrow> (delivery_action \<times> go_error option) \<times> 'e world" where
  "publish_failure c rn x failureEvent progressEvent deployErr w0 =
     (let cfg = dc_cfg c in
      case publishEvent c rn x (RabbitMQExchange cfg) (DeployFailedRoutingKey cfg) failureEvent w0 of
        (Some err, w1) \<Rightarrow>
          ((actionNackRequeue,
            Some (WrapError (error_text deployErr @ ''; publish deploy failed event: '') err)), w1)
      | (None, w1) \<Rightarrow>
          (case publishProgressEvent c rn x (DeploymentExchange cfg) (OrchestrationFailedRoutingKey cfg)
                  progressEvent w1 of
             (Some err, w2) \<Rightarrow>
               ((actionNackRequeue,
                 Some (WrapError (error_text deployErr @ ''; publish orchestration failed event: '') err)), w2)
           | (None, w2) \<Rightarrow> ((actionAck, Some deployErr), w2)))"

definition completeFailure ::
  "'e deploy_consumer \<Rightarrow> string option \<Rightarrow> build_payload service_event \<Rightarrow> deployment_target \<Rightarrow> go_error \<Rightarrow>
   'e world \<Rightarrow> (delivery_action \<times> go_error option) \<times> 'e world" where
  "completeFailure c rn event target deployErr w0 =
     (let cfg = dc_cfg c;
          now = dc_now c (w_ext w0);
          failureEvent = FailedEvent (newDeployFailedEvent now event target deployErr);
          progressEvent = ProgressEvent (newOrchestrationFailedEvent now event target deployErr);
          x = timeout_ctx c w0 (15 * second)
      in if dc_ledger c = None then publish_failure c rn x failureEvent progressEvent deployErr w0
         else case makeDeployResultEvents (DeployFailedRoutingKey cfg) failureEvent
                     (OrchestrationFailedRoutingKey cfg) progressEvent of
                (bundle, Some err) \<Rightarrow> ((actionNackRequeue, Some err), w0)
              | (bundle, None) \<Rightarrow>
                  (case ledger_Fail c rn x (se_DeploymentID event) bundle w0 of
                     (Some err, w1) \<Rightarrow>
                       ((actionNackRequeue, Some (WrapError ''persist deploy failure: '' err)), w1)
                   | (None, w1) \<Rightarrow> publish_failure c rn x failureEvent progressEvent deployErr w1))"

definition publishStored ::
  "'e deploy_consumer \<Rightarrow> string \<Rightarrow> 'e world \<Rightarrow> (delivery_action \<times> go_error option) \<times> 'e world" where
  "publishStored c raw w0 =
     (case unmarshal_bundle raw of
        Inl e \<Rightarrow> ((actionNackDrop, Some e), w0)
      | Inr b \<Rightarrow>
          (case unmarshal_any (ServiceEvent b) of
             Inl e \<Rightarrow> ((actionNackDrop, Some e), w0)
           | Inr s \<Rightarrow>
               (case unmarshal_any (ProgressEvent_raw b) of
                  Inl e \<Rightarrow> ((actionNackDrop, Some e), w0)
                | Inr p \<Rightarrow>
                    let cfg = dc_cfg c; x = timeout_ctx c w0 (15 * second) in
                    (case publishEvent c None x (RabbitMQExchange cfg) (ServiceRoutingKey b) (StoredEvent s) w0 of
                       (Some e, w1) \<Rightarrow> ((actionNackRequeue, Some e), w1)
                     | (None, w1) \<Rightarrow>
                         (case publishProgressEvent c None x (DeploymentExchange cfg) (ProgressRoutingKey b)
                                 (StoredEvent p) w1 of
                            (Some e, w2) \<Rightarrow> ((actionNackRequeue, Some e), w2)
                          | (None, w2) \<Rightarrow> ((actionAck, None), w2))))))"

section \<open>Handling one message\<close>

definition isTransientRolloutCheckError :: "go_error option \<Rightarrow> bool" where
  "isTransientRolloutCheckError err = (case err of None \<Rightarrow> False | Some e \<Rightarrow> \<not> is_rollout_failed e)"

definition wait_rollout ::
  "'e deploy_consumer \<Rightarrow> string option \<Rightarrow> ctx \<Rightarrow> deployment_target \<Rightarrow> 'e world \<Rightarrow> go_error option \<times> 'e world" where
  "wait_rollout c rn x target =
     call c rn (Waited x target) (dm_WaitForRollout (dc_deployer c) x target)"

text \<open>
  The branch of a rollout that ran out of time: one more look under a fresh context of 15 seconds,
  which is cancelled before its result is used.
\<close>

definition rollout_timed_out ::
  "'e deploy_consumer \<Rightarrow> string option \<Rightarrow> build_payload service_event \<Rightarrow> deployment_target \<Rightarrow> go_error \<Rightarrow>
   'e world \<Rightarrow> (delivery_action \<times> go_error option) \<times> 'e world" where
  "rollout_timed_out c rn event deployedTarget err w0 =
     (let cfg = dc_cfg c;
          checkCtx0 = timeout_ctx c w0 (15 * second);
          (readyErr, w1) = wait_rollout c rn checkCtx0 deployedTarget w0;
          checkCtx = cancel (dc_now c (w_ext w1)) checkCtx0
      in if readyErr = None \<or>
            dm_isKubernetesClient (dc_deployer c) \<and> isTransientRolloutCheckError readyErr
         then publishRolloutSuccess c rn event deployedTarget checkCtx w1
         else let pendingEvent = ProgressEvent
                    (newOrchestrationRolloutPendingEvent (dc_now c (w_ext w1)) event deployedTarget err);
                  publishCtx = timeout_ctx c w1 (15 * second)
              in case publishProgressEvent c rn publishCtx (DeploymentExchange cfg)
                        (OrchestrationRetryingRoutingKey cfg) pendingEvent w1 of
                   (Some publishErr, w2) \<Rightarrow>
                     ((actionNackRequeue, Some (WrapError ''publish rollout pending event: '' publishErr)), w2)
                 | (None, w2) \<Rightarrow> ((actionAck, None), w2))"

definition await_rollout ::
  "'e deploy_consumer \<Rightarrow> string option \<Rightarrow> build_payload service_event \<Rightarrow> deployment_target \<Rightarrow>
   'e world \<Rightarrow> (delivery_action \<times> go_error option) \<times> 'e world" where
  "await_rollout c rn event deployedTarget w0 =
     (let rolloutCtx = timeout_ctx c w0 (sint (RolloutTimeout (dc_cfg c))) in
      case wait_rollout c rn rolloutCtx deployedTarget w0 of
        (None, w1) \<Rightarrow> publishRolloutSuccess c rn event deployedTarget rolloutCtx w1
      | (Some err, w1) \<Rightarrow>
          if is_rollout_timeout err \<or> is_deadline_exceeded err \<or>
             ctx_err (dc_now c (w_ext w1)) rolloutCtx = Some ContextDeadlineExceeded
          then rollout_timed_out c rn event deployedTarget err w1
          else if isRetriableDeployError err
          then ((actionNackRequeue, Some (WrapError ''wait for rollout: '' err)), w1)
          else completeFailure c rn event deployedTarget
            (if is_rollout_timeout err \<or> is_rollout_failed err
             then WrapError (''app did not become ready on port '' @ show_int (sint (dt_ContainerPort deployedTarget)) @
                    ''; ensure it listens on $PORT: '') err
             else err) w1)"

text \<open>From the claimed stage on: announce the start, apply the resources, wait for them.\<close>

definition run_stage ::
  "'e deploy_consumer \<Rightarrow> build_payload service_event \<Rightarrow> deploy_request \<Rightarrow> deployment_target \<Rightarrow>
   'e world \<Rightarrow> (delivery_action \<times> go_error option) \<times> 'e world" where
  "run_stage c event request target w0 =
     (let cfg = dc_cfg c;
          startedCtx = timeout_ctx c w0 (15 * second);
          startedEvent = ProgressEvent (newOrchestrationStartedEvent (dc_now c (w_ext w0)) event)
      in case publishProgressEvent c None startedCtx (DeploymentExchange cfg)
                (OrchestrationStartedRoutingKey cfg) startedEvent w0 of
           (Some err, w1) \<Rightarrow>
             ((actionNackRequeue, Some (WrapError ''publish orchestration started event: '' err)), w1)
         | (None, w1) \<Rightarrow>
             let applyCtx = timeout_ctx c w1 (60 * second);
                 rn = Some (se_DeploymentID event)
             in (case call c rn (Deployed request) (dm_Deploy (dc_deployer c) applyCtx request) w1 of
                   ((_, Some err), w2) \<Rightarrow>
                     if isRetriableDeployError err
                     then ((actionNackRequeue, Some (WrapError ''deploy resources: '' err)), w2)
                     else completeFailure c rn event target err w2
                 | ((deployedTarget, None), w2) \<Rightarrow>
                     let deployedEvent = ProgressEvent
                           (newOrchestrationDeployedEvent (dc_now c (w_ext w2)) event deployedTarget)
                     in (case publishProgressEvent c rn applyCtx (DeploymentExchange cfg)
                                (OrchestrationDeployedRoutingKey cfg) deployedEvent w2 of
                           (Some err, w3) \<Rightarrow>
                             ((actionNackRequeue,
                               Some (WrapError ''publish orchestration deployed event: '' err)), w3)
                         | (None, w3) \<Rightarrow> await_rollout c rn event deployedTarget w3)))"

definition claim_stage ::
  "'e deploy_consumer \<Rightarrow> build_payload service_event \<Rightarrow> deploy_request \<Rightarrow> deployment_target \<Rightarrow>
   'e world \<Rightarrow> (delivery_action \<times> go_error option) \<times> 'e world" where
  "claim_stage c event request target w0 =
     (case dc_ledger c of
        None \<Rightarrow> run_stage c event request target w0
      | Some l \<Rightarrow>
          (case call c None (Claimed (se_DeploymentID event))
                  (sl_Claim l background (se_DeploymentID event) ''orchestration'' (LeaseDuration (dc_cfg c))) w0 of
             ((disposition, stored, Some err), w1) \<Rightarrow>
               ((actionNackRequeue, Some (WrapError ''claim orchestration stage: '' err)), w1)
           | ((disposition, stored, None), w1) \<Rightarrow>
               if disposition = ClaimCompleted \<or> disposition = ClaimFailed
               then publishStored c (sr_ResultJSON stored) w1
               else if disposition = ClaimBusy
               then ((actionNackRequeue, Some OrchestrationLeaseBusy), w1)
               else run_stage c event request target w1))"

definition handleMessage ::
  "'e deploy_consumer \<Rightarrow> string \<Rightarrow> 'e world \<Rightarrow> (delivery_action \<times> go_error option) \<times> 'e world" where
  "handleMessage c body w0 =
     (case unmarshal_event body of
        Inl err \<Rightarrow> ((actionNackDrop, Some (WrapError ''decode deploy event: '' err)), w0)
      | Inr event \<Rightarrow>
          if blank (se_DeploymentID event)
          then ((actionNackDrop, Some (ErrorString ''missing deploymentId'')), w0)
          else
            let request = deployRequestFromEvent (dc_cfg c) event in
            (case targetForRequest (dc_cfg c) request of
               Inl err \<Rightarrow> ((actionNackDrop, Some err), w0)
             | Inr target \<Rightarrow>
                 if blank (dr_ImageTag request)
                 then ((actionNackDrop, Some (ErrorString ''missing imageTag in build.succeeded event'')), w0)
                 else claim_stage c event request target w0))"

section \<open>Retry and dead letters\<close>

definition deployHeaderAttempt :: "amqp_table \<Rightarrow> int64" where
  "deployHeaderAttempt h =
     (case h ''x-shiply-attempt'' of
        Some (AmqpInt32 v) \<Rightarrow> int64_of_int32 v
      | Some (AmqpInt64 v) \<Rightarrow> v
      | Some (AmqpInt v) \<Rightarrow> v
      | _ \<Rightarrow> 0)"

definition deployCloneHeaders :: "amqp_table \<Rightarrow> amqp_table" where
  "deployCloneHeaders h = (\<lambda>k. h k)"

definition deployReason :: "go_error option \<Rightarrow> string" where
  "deployReason e0 =
     (case e0 of
        None \<Rightarrow> ''unspecified''
      | Some e \<Rightarrow> let s = error_text e in if 500 < length s then take 500 s else s)"

text \<open>The message the two copies carry.\<close>

definition copy_of :: "'e delivery \<Rightarrow> amqp_table \<Rightarrow> publishing" where
  "copy_of msg h = \<lparr>pb_ContentType = dl_ContentType msg, pb_DeliveryMode = Persistent, pb_Headers = h,
     pb_Timestamp = None, pb_MessageId = [], pb_Body = dl_Body msg\<rparr>"

definition publish_copy ::
  "'e deploy_consumer \<Rightarrow> ctx \<Rightarrow> string \<Rightarrow> publishing \<Rightarrow> 'e world \<Rightarrow> go_error option \<times> 'e world" where
  "publish_copy c x queue copy w =
     (case dc_pub c of
        None \<Rightarrow> (Some publisher_nil, w)
      | Some pub \<Rightarrow> call c None (PublishedCopy queue copy) (rp_Publish pub x [] queue copy) w)"

definition copyToDLQAttempt ::
  "'e deploy_consumer \<Rightarrow> 'e delivery \<Rightarrow> go_error option \<Rightarrow> int64 \<Rightarrow> 'e world \<Rightarrow> go_error option \<times> 'e world" where
  "copyToDLQAttempt c msg e a w =
     (let h = (deployCloneHeaders (dl_Headers msg))
            (''x-shiply-dead-letter-reason'' \<mapsto> AmqpString (deployReason e),
             ''x-shiply-attempt'' \<mapsto> AmqpInt32 (int32_of_int64 a))
      in publish_copy c (timeout_ctx c w (15 * second)) (DLQ (dc_cfg c)) (copy_of msg h) w)"

definition copyToDLQ ::
  "'e deploy_consumer \<Rightarrow> 'e delivery \<Rightarrow> go_error option \<Rightarrow> 'e world \<Rightarrow> go_error option \<times> 'e world" where
  "copyToDLQ c msg e w = copyToDLQAttempt c msg e (deployHeaderAttempt (dl_Headers msg)) w"

definition releaseClaim ::
  "'e deploy_consumer \<Rightarrow> ctx \<Rightarrow> string \<Rightarrow> 'e world \<Rightarrow> go_error option \<times> 'e world" where
  "releaseClaim c x body w =
     (case dc_ledger c of
        None \<Rightarrow> (None, w)
      | Some l \<Rightarrow>
          (case unmarshal_event body of
             Inl err \<Rightarrow> (Some err, w)
           | Inr event \<Rightarrow>
               call c None (ReleasedStage (se_DeploymentID event))
                 (sl_Release l x (se_DeploymentID event) ''orchestration'') w))"

text \<open>
  A nil cause would be a nil dereference in \<open>newOrchestrationRetryingEvent\<close>; \<open>handleMessage_err\<close>
  below shows that the cause is never nil here.
\<close>

definition nil_dereference :: go_error where
  "nil_dereference = ErrorString ''runtime error: invalid memory address or nil pointer dereference''"

definition emitRetrying ::
  "'e deploy_consumer \<Rightarrow> string \<Rightarrow> int64 \<Rightarrow> go_error option \<Rightarrow> 'e world \<Rightarrow> go_error option \<times> 'e world" where
  "emitRetrying c body attempt cause w =
     (case unmarshal_event body of
        Inl _ \<Rightarrow> (None, w)
      | Inr e \<Rightarrow>
          (case cause of
             None \<Rightarrow> (Some nil_dereference, w)
           | Some err \<Rightarrow>
               publishProgressEvent c None (timeout_ctx c w (15 * second)) (DeploymentExchange (dc_cfg c))
                 (OrchestrationRetryingRoutingKey (dc_cfg c))
                 (ProgressEvent (newOrchestrationRetryingEvent (dc_now c (w_ext w)) e attempt err)) w))"

definition exhausted_error :: "go_error option \<Rightarrow> go_error" where
  "exhausted_error cause =
     (case cause of
        None \<Rightarrow> ErrorString ''retry attempts exhausted: %!w(<nil>)''
      | Some e \<Rightarrow> WrapError ''retry attempts exhausted: '' e)"

definition emitExhausted ::
  "'e deploy_consumer \<Rightarrow> string \<Rightarrow> go_error option \<Rightarrow> 'e world \<Rightarrow> go_error option \<times> 'e world" where
  "emitExhausted c body cause w =
     (case unmarshal_event body of
        Inl _ \<Rightarrow> (None, w)
      | Inr e \<Rightarrow>
          let target = (case targetForRequest (dc_cfg c) (deployRequestFromEvent (dc_cfg c) e) of
                          Inl _ \<Rightarrow> zero_target | Inr t \<Rightarrow> t);
              ((action, err), w1) = completeFailure c None e target (exhausted_error cause) w
          in if \<not> da_ack action then (err, w1) else (None, w1))"

text \<open>The number in the name of the retry queue, from the attempt (\<open>int\<close> is 64 bits wide).\<close>

definition retry_index :: "config \<Rightarrow> int64 \<Rightarrow> int64" where
  "retry_index cfg attempt =
     (let idx = (if 0 < sint attempt then attempt - 1 else attempt);
          n = (of_nat (length (RetryBackoffs cfg)) :: int64)
      in if sint n \<le> sint idx then n - 1 else idx)"

definition retry_queue :: "config \<Rightarrow> int64 \<Rightarrow> string" where
  "retry_queue cfg idx = RetryQueuePrefix cfg @ ''.'' @ show_int (sint (idx + 1))"

definition scheduleRetry ::
  "'e deploy_consumer \<Rightarrow> 'e delivery \<Rightarrow> go_error option \<Rightarrow> bool \<Rightarrow> 'e world \<Rightarrow> go_error option \<times> 'e world" where
  "scheduleRetry c msg cause countAttempt w0 =
     (let cfg = dc_cfg c;
          attempt0 = deployHeaderAttempt (dl_Headers msg);
          attempt = (if countAttempt then attempt0 + 1 else attempt0)
      in if sint (MaxAttempts cfg) \<le> sint attempt
         then case emitExhausted c (dl_Body msg) cause w0 of
                (Some err, w1) \<Rightarrow> (Some err, w1)
              | (None, w1) \<Rightarrow> copyToDLQAttempt c msg cause attempt w1
         else let idx = retry_index cfg attempt in
              (case (if countAttempt then emitRetrying c (dl_Body msg) attempt cause w0 else (None, w0)) of
                 (Some err, w1) \<Rightarrow> (Some err, w1)
               | (None, w1) \<Rightarrow>
                   let h = (deployCloneHeaders (dl_Headers msg))
                         (''x-shiply-attempt'' \<mapsto> AmqpInt32 (int32_of_int64 attempt),
                          ''x-shiply-retry-reason'' \<mapsto> AmqpString (deployReason cause));
                       x = timeout_ctx c w1 (15 * second)
                   in (case publish_copy c x (retry_queue cfg idx) (copy_of msg h) w1 of
                         (Some err, w2) \<Rightarrow> (Some err, w2)
                       | (None, w2) \<Rightarrow>
                           if countAttempt then releaseClaim c x (dl_Body msg) w2 else (None, w2))))"

section \<open>Deliveries\<close>

definition ack :: "'e deploy_consumer \<Rightarrow> 'e delivery \<Rightarrow> 'e world \<Rightarrow> 'e world" where
  "ack c msg w = snd (call c None Acked (dl_Ack msg False) w)"

definition nack :: "'e deploy_consumer \<Rightarrow> 'e delivery \<Rightarrow> bool \<Rightarrow> 'e world \<Rightarrow> 'e world" where
  "nack c msg requeue w = snd (call c None (Nacked requeue) (dl_Nack msg False requeue) w)"

definition processDelivery :: "'e deploy_consumer \<Rightarrow> 'e delivery \<Rightarrow> 'e world \<Rightarrow> 'e world" where
  "processDelivery c msg w0 =
     (let ((action, err), w1) = handleMessage c (dl_Body msg) w0 in
      if da_ack action then ack c msg w1
      else if da_requeue action \<and> dc_ch c
      then case scheduleRetry c msg err (\<not> (case err of None \<Rightarrow> False | Some e \<Rightarrow> is_lease_busy e)) w1 of
             (None, w2) \<Rightarrow> ack c msg w2
           | (Some _, w2) \<Rightarrow> nack c msg True w2
      else if \<not> da_requeue action \<and> dc_ch c
      then case copyToDLQ c msg err w1 of
             (None, w2) \<Rightarrow> ack c msg w2
           | (Some _, w2) \<Rightarrow> nack c msg False w2
      else nack c msg (da_requeue action) w1)"

text \<open>The loop of \<open>Start\<close> over the deliveries of the channel until the broker closes it.\<close>

fun consume :: "'e deploy_consumer \<Rightarrow> 'e delivery list \<Rightarrow> 'e world \<Rightarrow> 'e world" where
  "consume c [] w = w"
| "consume c (msg # msgs) w = consume c msgs (processDelivery c msg w)"

definition Start ::
  "'e deploy_consumer \<Rightarrow> (string \<Rightarrow> go_error + 'e delivery list) \<Rightarrow> 'e world \<Rightarrow> go_error \<times> 'e world" where
  "Start c ch_Consume w =
     (case ch_Consume (AppDeployQueue (dc_cfg c)) of
        Inl err \<Rightarrow> (WrapError ''consume queue: '' err, w)
      | Inr msgs \<Rightarrow> (ErrorString ''rabbitmq consumer channel closed'', consume c msgs w))"

section \<open>The retry topology\<close>

text \<open>
  \<open>declareDeployRetryTopology\<close> declares the dead-letter queue and one queue per backoff. \<open>qd\<close> is
  \<open>QueueDeclare\<close> of the channel, with the name and the arguments that vary.
\<close>

definition retry_queue_args :: "config \<Rightarrow> int64 \<Rightarrow> amqp_table" where
  "retry_queue_args cfg d = [''x-message-ttl'' \<mapsto> AmqpInt32 (int32_of_int64 (int64_div d 1000000)),
     ''x-dead-letter-exchange'' \<mapsto> AmqpString (RabbitMQExchange cfg),
     ''x-dead-letter-routing-key'' \<mapsto> AmqpString (BuildSucceededRoutingKey cfg)]"

fun declare_backoffs ::
  "(string \<Rightarrow> amqp_table \<Rightarrow> 'e \<Rightarrow> go_error option \<times> 'e) \<Rightarrow> config \<Rightarrow> int64 \<Rightarrow> int64 list \<Rightarrow> 'e \<Rightarrow> go_error option \<times> 'e" where
  "declare_backoffs qd cfg i [] e0 = (None, e0)"
| "declare_backoffs qd cfg i (d # ds) e0 =
     (case qd (RetryQueuePrefix cfg @ ''.'' @ show_int (sint (i + 1))) (retry_queue_args cfg d) e0 of
        (Some err, e1) \<Rightarrow> (Some err, e1)
      | (None, e1) \<Rightarrow> declare_backoffs qd cfg (i + 1) ds e1)"

definition declareDeployRetryTopology ::
  "(string \<Rightarrow> amqp_table \<Rightarrow> 'e \<Rightarrow> go_error option \<times> 'e) \<Rightarrow> config \<Rightarrow> 'e \<Rightarrow> go_error option \<times> 'e" where
  "declareDeployRetryTopology qd cfg e0 =
     (case qd (DLQ cfg) Map.empty e0 of
        (Some err, e1) \<Rightarrow> (Some (WrapError ''declare deploy dlq: '' err), e1)
      | (None, e1) \<Rightarrow> declare_backoffs qd cfg 0 (RetryBackoffs cfg) e1)"

end
