(* ===== verification/Startup.thy ===== *)
theory Startup
  imports Config_Loading Consumer "HOL-Library.Multiset"
begin

text \<open>
  How the worker is put together and taken down: \<open>main.go\<close>, the constructors of \<open>consumer.go\<close>,
  \<open>rabbit_publisher.go\<close>, \<open>ledger.go\<close> and \<open>k8s_client.go\<close>, and \<open>Close\<close>. The AMQP client, the database
  driver and client-go are outside code: \<open>drivers\<close> holds what is called of them, over a state \<open>'e\<close>.
  A connection, a channel and a database are known by handles. \<open>su_calls\<close> is a ghost list of the calls.
\<close>

section \<open>Outside code\<close>

datatype handle = Conn nat | Chan nat | DB nat

datatype startup_call =
    Dialed string "go_error + nat"
  | ChannelOpened nat "go_error + nat"
  | ExchangeDeclared nat string string "go_error option"
  | QueueDeclared nat string amqp_table "go_error + string"
  | QueueBound nat string string string "go_error option"
  | QosSet nat nat "go_error option"
  | ConfirmsEnabled nat "go_error option"
  | ReturnsNotified nat
  | DBOpened string "go_error + nat"
  | Pinged nat "go_error option"
  | Closed handle "go_error option"

record 'e startup =
  su_ext :: 'e
  su_calls :: "startup_call list"

record 'e drivers =
  dv_Dial :: "string \<Rightarrow> 'e \<Rightarrow> (go_error + nat) \<times> 'e"
  dv_Channel :: "nat \<Rightarrow> 'e \<Rightarrow> (go_error + nat) \<times> 'e"
  dv_ExchangeDeclare :: "nat \<Rightarrow> string \<Rightarrow> string \<Rightarrow> 'e \<Rightarrow> go_error option \<times> 'e"
  dv_QueueDeclare :: "nat \<Rightarrow> string \<Rightarrow> amqp_table \<Rightarrow> 'e \<Rightarrow> (go_error + string) \<times> 'e"
  dv_QueueBind :: "nat \<Rightarrow> string \<Rightarrow> string \<Rightarrow> string \<Rightarrow> 'e \<Rightarrow> go_error option \<times> 'e"
  dv_Qos :: "nat \<Rightarrow> nat \<Rightarrow> 'e \<Rightarrow> go_error option \<times> 'e"
  dv_Confirm :: "nat \<Rightarrow> 'e \<Rightarrow> go_error option \<times> 'e"
  dv_OpenDB :: "string \<Rightarrow> 'e \<Rightarrow> (go_error + nat) \<times> 'e"
  dv_PingContext :: "nat \<Rightarrow> 'e \<Rightarrow> go_error option \<times> 'e"
  dv_Close :: "handle \<Rightarrow> 'e \<Rightarrow> go_error option \<times> 'e"
  dv_Quote :: "string \<Rightarrow> string"

definition su :: "('r \<Rightarrow> startup_call) \<Rightarrow> ('e \<Rightarrow> 'r \<times> 'e) \<Rightarrow> 'e startup \<Rightarrow> 'r \<times> 'e startup" where
  "su note f w = (let (r, e) = f (su_ext w) in (r, \<lparr>su_ext = e, su_calls = su_calls w @ [note r]\<rparr>))"

text \<open>Closing whose error is ignored.\<close>

definition close :: "'e drivers \<Rightarrow> handle \<Rightarrow> 'e startup \<Rightarrow> 'e startup" where
  "close L h w = snd (su (Closed h) (dv_Close L h) w)"

definition QueueDeclare ::
  "'e drivers \<Rightarrow> nat \<Rightarrow> string \<Rightarrow> amqp_table \<Rightarrow> 'e startup \<Rightarrow> (go_error + string) \<times> 'e startup" where
  "QueueDeclare L ch name args = su (QueueDeclared ch name args) (dv_QueueDeclare L ch name args)"

text \<open>The same with the error alone, as \<open>declareDeployRetryTopology\<close> uses it.\<close>

definition declare_on :: "'e drivers \<Rightarrow> nat \<Rightarrow> string \<Rightarrow> amqp_table \<Rightarrow> 'e startup \<Rightarrow> go_error option \<times> 'e startup" where
  "declare_on L ch name args w =
     (case QueueDeclare L ch name args w of (Inl err, w1) \<Rightarrow> (Some err, w1) | (Inr _, w1) \<Rightarrow> (None, w1))"

section \<open>The publisher\<close>

text \<open>\<open>ExchangeSpec\<close>: the name and the kind.\<close>

type_synonym exchange_spec = "string \<times> string"

fun declare_exchanges ::
  "'e drivers \<Rightarrow> nat \<Rightarrow> exchange_spec list \<Rightarrow> 'e startup \<Rightarrow> go_error option \<times> 'e startup" where
  "declare_exchanges L ch [] w = (None, w)"
| "declare_exchanges L ch ((name, kind) # exchanges) w =
     (case su (ExchangeDeclared ch name kind) (dv_ExchangeDeclare L ch name kind) w of
        (Some err, w1) \<Rightarrow> (Some (WrapError (''declare exchange '' @ name @ '': '') err), close L (Chan ch) w1)
      | (None, w1) \<Rightarrow> declare_exchanges L ch exchanges w1)"

definition NewRabbitPublisher ::
  "'e drivers \<Rightarrow> nat \<Rightarrow> exchange_spec list \<Rightarrow> 'e startup \<Rightarrow> (go_error + nat) \<times> 'e startup" where
  "NewRabbitPublisher L conn exchanges w =
     (case su (ChannelOpened conn) (dv_Channel L conn) w of
        (Inl err, w1) \<Rightarrow> (Inl (WrapError ''open publish channel: '' err), w1)
      | (Inr ch, w1) \<Rightarrow>
          (case declare_exchanges L ch exchanges w1 of
             (Some err, w2) \<Rightarrow> (Inl err, w2)
           | (None, w2) \<Rightarrow>
               (case su (ConfirmsEnabled ch) (dv_Confirm L ch) w2 of
                  (Some err, w3) \<Rightarrow> (Inl (WrapError ''enable publisher confirms: '' err), close L (Chan ch) w3)
                | (None, w3) \<Rightarrow> (Inr ch, snd (su (\<lambda>_. ReturnsNotified ch) (\<lambda>e. ((), e)) w3)))))"

definition publisher_Close :: "'e drivers \<Rightarrow> nat option \<Rightarrow> 'e startup \<Rightarrow> go_error option \<times> 'e startup" where
  "publisher_Close L p w = (case p of None \<Rightarrow> (None, w) | Some ch \<Rightarrow> su (Closed (Chan ch)) (dv_Close L (Chan ch)) w)"

section \<open>The stage ledger\<close>

text \<open>The regular expression \<open>schemaPattern\<close>.\<close>

definition schema_letter :: "char \<Rightarrow> bool" where
  "schema_letter c \<longleftrightarrow> in_range 97 122 (byte_of c) \<or> c = CHR ''_''"

definition schemaPattern :: "string \<Rightarrow> bool" where
  "schemaPattern s =
     (case s of [] \<Rightarrow> False | c # cs \<Rightarrow> schema_letter c \<and> list_all (\<lambda>x. schema_letter x \<or> is_digit x) cs)"

record ledger_handle =
  lg_db :: nat
  lg_table :: string

definition NewPostgresStageLedger ::
  "'e drivers \<Rightarrow> string \<Rightarrow> string \<Rightarrow> 'e startup \<Rightarrow> (go_error + ledger_handle) \<times> 'e startup" where
  "NewPostgresStageLedger L url schema w =
     (if url = [] then (Inl (ErrorString ''DATABASE_URL is required''), w)
      else if \<not> schemaPattern schema then (Inl (ErrorString (''invalid ledger schema '' @ dv_Quote L schema)), w)
      else case su (DBOpened url) (dv_OpenDB L url) w of
             (Inl e, w1) \<Rightarrow> (Inl e, w1)
           | (Inr db, w1) \<Rightarrow>
               (case su (Pinged db) (dv_PingContext L db) w1 of
                  (Some e, w2) \<Rightarrow> (Inl (WrapError ''connect stage ledger: '' e), close L (DB db) w2)
                | (None, w2) \<Rightarrow> (Inr \<lparr>lg_db = db, lg_table = schema @ ''.stage_ledger''\<rparr>, w2)))"

definition ledger_Close :: "'e drivers \<Rightarrow> ledger_handle \<Rightarrow> 'e startup \<Rightarrow> go_error option \<times> 'e startup" where
  "ledger_Close L l w = su (Closed (DB (lg_db l))) (dv_Close L (DB (lg_db l))) w"

section \<open>The consumer\<close>

text \<open>What a \<open>DeployConsumer\<close> holds open; the ledger is missing until it is connected.\<close>

record consumer_handles =
  ch_conn :: nat
  ch_ch :: nat
  ch_pub :: nat
  ch_ledger :: "ledger_handle option"

definition Close :: "'e drivers \<Rightarrow> consumer_handles \<Rightarrow> 'e startup \<Rightarrow> 'e startup" where
  "Close L c w =
     (let w1 = (case ch_ledger c of None \<Rightarrow> w | Some l \<Rightarrow> snd (ledger_Close L l w));
          w2 = snd (publisher_Close L (Some (ch_pub c)) w1);
          w3 = close L (Chan (ch_ch c)) w2
      in close L (Conn (ch_conn c)) w3)"

definition close_both :: "'e drivers \<Rightarrow> nat \<Rightarrow> nat \<Rightarrow> 'e startup \<Rightarrow> 'e startup" where
  "close_both L ch conn w = close L (Conn conn) (close L (Chan ch) w)"

text \<open>Lines 65 to 87 of \<open>consumer.go\<close>: the queues and the prefetch count of the consuming channel.\<close>

definition declare_queues :: "'e drivers \<Rightarrow> nat \<Rightarrow> config \<Rightarrow> 'e startup \<Rightarrow> go_error option \<times> 'e startup" where
  "declare_queues L ch cfg w =
     (case QueueDeclare L ch (AppDeployQueue cfg) Map.empty w of
        (Inl err, w1) \<Rightarrow> (Some (WrapError ''declare queue: '' err), w1)
      | (Inr name, w1) \<Rightarrow>
          (case su (QueueBound ch name (BuildSucceededRoutingKey cfg) (RabbitMQExchange cfg))
              (dv_QueueBind L ch name (BuildSucceededRoutingKey cfg) (RabbitMQExchange cfg)) w1 of
             (Some err, w2) \<Rightarrow> (Some (WrapError ''bind queue: '' err), w2)
           | (None, w2) \<Rightarrow>
               (case declareDeployRetryTopology (declare_on L ch) cfg w2 of
                  (Some err, w3) \<Rightarrow> (Some err, w3)
                | (None, w3) \<Rightarrow>
                    (case su (QosSet ch 1) (dv_Qos L ch 1) w3 of
                       (Some err, w4) \<Rightarrow> (Some (WrapError ''set qos: '' err), w4)
                     | (None, w4) \<Rightarrow> (None, w4)))))"

text \<open>\<open>NewDeployConsumer\<close>, with the part that starts once the channel is open (line 59) on its own.\<close>

definition setup_consumer ::
  "'e drivers \<Rightarrow> config \<Rightarrow> nat \<Rightarrow> nat \<Rightarrow> 'e startup \<Rightarrow> (go_error + consumer_handles) \<times> 'e startup" where
  "setup_consumer L cfg conn ch w2 =
     (case su (ExchangeDeclared ch (RabbitMQExchange cfg) ''direct'')
         (dv_ExchangeDeclare L ch (RabbitMQExchange cfg) ''direct'') w2 of
        (Some err, w3) \<Rightarrow> (Inl (WrapError ''declare exchange: '' err), close_both L ch conn w3)
      | (None, w3) \<Rightarrow>
     (case declare_queues L ch cfg w3 of
        (Some err, w4) \<Rightarrow> (Inl err, close_both L ch conn w4)
      | (None, w4) \<Rightarrow>
     (case NewRabbitPublisher L conn [(RabbitMQExchange cfg, ''direct''), (DeploymentExchange cfg, ''topic'')] w4 of
        (Inl err, w5) \<Rightarrow> (Inl (WrapError ''initialize publisher: '' err), close_both L ch conn w5)
      | (Inr pub, w5) \<Rightarrow>
          let consumer = \<lparr>ch_conn = conn, ch_ch = ch, ch_pub = pub, ch_ledger = None\<rparr> in
     (case NewPostgresStageLedger L (DatabaseURL cfg) (LedgerSchema cfg) w5 of
        (Inl err, w6) \<Rightarrow> (Inl (WrapError ''initialize stage ledger: '' err), Close L consumer w6)
      | (Inr ledger, w6) \<Rightarrow> (Inr (consumer\<lparr>ch_ledger := Some ledger\<rparr>), w6)))))"

definition NewDeployConsumer ::
  "'e drivers \<Rightarrow> config \<Rightarrow> 'e startup \<Rightarrow> (go_error + consumer_handles) \<times> 'e startup" where
  "NewDeployConsumer L cfg w =
     (case su (Dialed (RabbitMQURL cfg)) (dv_Dial L (RabbitMQURL cfg)) w of
        (Inl err, w1) \<Rightarrow> (Inl (WrapError ''connect rabbitmq: '' err), w1)
      | (Inr conn, w1) \<Rightarrow>
     (case su (ChannelOpened conn) (dv_Channel L conn) w1 of
        (Inl err, w2) \<Rightarrow> (Inl (WrapError ''open rabbitmq channel: '' err), close L (Conn conn) w2)
      | (Inr ch, w2) \<Rightarrow> setup_consumer L cfg conn ch w2))"

section \<open>The Kubernetes client\<close>

text \<open>\<open>filepath.Clean\<close> and \<open>filepath.Join\<close> of a nonempty first element.\<close>

fun clean_elements :: "bool \<Rightarrow> string list \<Rightarrow> string list \<Rightarrow> string list" where
  "clean_elements rooted [] out = rev out"
| "clean_elements rooted (e # es) out =
     (if e = [] \<or> e = ''.'' then clean_elements rooted es out
      else if e = ''..''
      then case out of
             [] \<Rightarrow> clean_elements rooted es (if rooted then [] else [''..''])
           | o1 # os \<Rightarrow> clean_elements rooted es (if o1 = ''..'' then ''..'' # out else os)
      else clean_elements rooted es (e # out))"

fun slash_list :: "string list \<Rightarrow> string" where
  "slash_list [] = []"
| "slash_list [x] = x"
| "slash_list (x # y # zs) = x @ ''/'' @ slash_list (y # zs)"

definition Clean :: "string \<Rightarrow> string" where
  "Clean path =
     (let rooted = starts (CHR ''/'') path; out = slash_list (clean_elements rooted (Split1 (CHR ''/'') path) [])
      in if rooted then ''/'' @ out else if out = [] then ''.'' else out)"

text \<open>A REST configuration: what client-go found, and the two limits that the code sets.\<close>

record 'r rest_config =
  rs_source :: 'r
  rs_QPS :: nat
  rs_Burst :: nat

record ('r, 'k) client_go =
  cg_InClusterConfig :: "go_error + 'r rest_config"
  cg_HomeDir :: string
  cg_BuildConfigFromFlags :: "string \<Rightarrow> go_error + 'r rest_config"
  cg_NewForConfig :: "'r rest_config \<Rightarrow> go_error + 'k"

definition kubeRESTConfig :: "('r, 'k) client_go \<Rightarrow> config \<Rightarrow> go_error + 'r rest_config" where
  "kubeRESTConfig g cfg =
     (case cg_InClusterConfig g of
        Inr inClusterConfig \<Rightarrow> Inr (inClusterConfig\<lparr>rs_QPS := 50, rs_Burst := 100\<rparr>)
      | Inl err \<Rightarrow>
          let kubeconfig =
            (if KubeconfigPath cfg = [] \<and> cg_HomeDir g \<noteq> [] then Clean (cg_HomeDir g @ ''/.kube/config'')
             else KubeconfigPath cfg)
          in case cg_BuildConfigFromFlags g kubeconfig of
               Inl kubeconfigErr \<Rightarrow>
                 Inl (WrapError (''load kubernetes config: in-cluster='' @ error_text err @ '', kubeconfig='') kubeconfigErr)
             | Inr restConfig \<Rightarrow> Inr (restConfig\<lparr>rs_QPS := 50, rs_Burst := 100\<rparr>))"

definition NewKubernetesClient :: "('r, 'k) client_go \<Rightarrow> config \<Rightarrow> go_error + config \<times> 'k" where
  "NewKubernetesClient g cfg =
     (case kubeRESTConfig g cfg of
        Inl err \<Rightarrow> Inl err
      | Inr restConfig \<Rightarrow>
          (case cg_NewForConfig g restConfig of
             Inl err \<Rightarrow> Inl (WrapError ''create kubernetes clientset: '' err)
           | Inr clientset \<Rightarrow> Inr (cfg, clientset)))"

definition NewKubernetesClientWithClientset :: "config \<Rightarrow> 'k \<Rightarrow> config \<times> 'k" where
  "NewKubernetesClientWithClientset cfg clientset = (cfg, clientset)"

section \<open>main\<close>

text \<open>
  The start of \<open>main\<close>, up to the goroutine of the consumer: \<open>Inl\<close> is the line of a fatal log, after
  which the process ends without running deferred calls. Then the answer of the health endpoint to a
  path, and the deferred \<open>Close\<close> after a signal.
\<close>

definition main_start ::
  "'e drivers \<Rightarrow> ('r, 'k) client_go \<Rightarrow> environment \<Rightarrow> 'e startup \<Rightarrow>
   (string + (config \<times> 'k) \<times> consumer_handles) \<times> 'e startup" where
  "main_start L g env w =
     (let cfg = loadConfig env in
      case NewKubernetesClient g cfg of
        Inl err \<Rightarrow> (Inl (''failed to initialize kubernetes client: '' @ error_text err), w)
      | Inr kubeClient \<Rightarrow>
          (case NewDeployConsumer L cfg w of
             (Inl err, w1) \<Rightarrow> (Inl (''failed to initialize deploy consumer: '' @ error_text err), w1)
           | (Inr consumer, w1) \<Rightarrow> (Inr (kubeClient, consumer), w1)))"

definition health_handler :: "string \<Rightarrow> nat \<times> string" where
  "health_handler path = (if path \<noteq> ''/healthz'' then (404, []) else (200, ''ok''))"

definition main_stop :: "'e drivers \<Rightarrow> consumer_handles \<Rightarrow> 'e startup \<Rightarrow> 'e startup" where
  "main_stop L consumer w = Close L consumer w"

end
