(* ===== verification/Json_Round_Trip.thy ===== *)
theory Json_Round_Trip
  imports Json
begin

text \<open>
  The round trip of the JSON the service writes and reads: the parser gives back every value whose
  strings are valid UTF-8 and whose numbers are printed integers, however the value is nested and
  whatever follows it. The stored results of a stage (\<open>consumer.go\<close>) rest on it.
\<close>

section \<open>Strings\<close>

lemma hex_digit:
  assumes "d < 16"
  shows "hex_value (''0123456789abcdef'' ! d) = Some d"
proof -
  have "list_all (\<lambda>d. hex_value (''0123456789abcdef'' ! d) = Some d) [0..<16]"
    by (simp add: upt_rec numeral_eq_Suc hex_value_def Let_def in_range_def byte_of_def)
  then show ?thesis using assms by (simp add: list_all_iff)
qed

lemma length_hex4 [simp]: "length (hex4 u) = 4"
  by (simp add: hex4_def)

lemma hex4_value:
  fixes u :: nat
  assumes "u < 65536"
  shows "((u div 4096 mod 16 * 16 + u div 256 mod 16) * 16 + u div 16 mod 16) * 16 + u mod 16 = u"
proof -
  have horner: "a div 16 * 16 + a mod 16 = a" for a :: nat by simp
  have "u div 4096 < 16" using assms by linarith
  moreover have "u div 4096 = u div 256 div 16" "u div 256 = u div 16 div 16" by (simp_all add: div_mult2_eq)
  ultimately show ?thesis using horner by (metis mod_less)
qed

lemma get_u4_hex4: "u < 65536 \<Longrightarrow> get_u4 (hex4 u @ s) = Some u"
  using hex4_value [of u] by (simp add: hex4_def hex_digit)

lemma char_of_escapes: "char_of (0x22::nat) = CHR 0x22" "char_of (0x5C::nat) = CHR 0x5C" "char_of (8::nat) = CHR 0x08"
  "char_of (9::nat) = CHR 0x09" "char_of (10::nat) = CHR 0x0A" "char_of (12::nat) = CHR 0x0C" "char_of (13::nat) = CHR 0x0D"
  by (simp_all add: char_of_eq_iff)

lemma parse_chars_u:
  assumes "u < 65536" "u < 0xD800 \<or> 0xE000 \<le> u"
  shows "parse_chars (Suc n) ([CHR 0x5C, CHR ''u''] @ hex4 u @ s) =
     map_option (\<lambda>(x, y). (encode_rune u @ x, y)) (parse_chars n s)"
  using assms by (auto simp: get_u4_hex4 u_escape_def byte_of_def)

lemma parse_chars_plain:
  assumes "scalar r" "0x20 \<le> r" "r \<noteq> 0x22" "r \<noteq> 0x5C"
  shows "parse_chars (Suc n) (encode_rune r @ s) =
     map_option (\<lambda>(x, y). (encode_rune r @ x, y)) (parse_chars n s)"
proof -
  obtain c cs where e: "encode_rune r = c # cs"
    using encode_rune_length(1) [of r] by (cases "encode_rune r") auto
  have d: "decode_rune (c # cs @ s) = (r, Suc (length cs))"
    using decode_rune_encode [OF assms(1), of s] e by simp
  have "byte_of c = hd (encode_bytes r)" using map_byte_of_encode [of r] e by (metis list.sel(1) list.simps(9))
  then have "byte_of c \<noteq> 0x22 \<and> byte_of c \<noteq> 0x5C \<and> 0x20 \<le> byte_of c"
    using assms by (auto simp: encode_bytes_def Let_def)
  then have "c \<noteq> CHR 0x22" "c \<noteq> CHR 0x5C" "\<not> byte_of c < 0x20" by (auto simp: byte_of_def)
  then show ?thesis by (simp add: e d)
qed

lemma encode_rune_good: "scalar r \<Longrightarrow> \<not> bad_chunk (r, encode_rune r)"
  by (auto simp: bad_chunk_def)

lemma parse_chars_quote_chunk:
  assumes "scalar r"
  shows "parse_chars (Suc n) (quote_chunk (r, encode_rune r) @ s) =
     map_option (\<lambda>(x, y). (encode_rune r @ x, y)) (parse_chars n s)"
proof (cases "r < 0x80")
  case True
  consider (simple) "r \<in> {0x22, 0x5C, 8, 9, 10, 12, 13}"
    | (u) "r \<notin> {0x22, 0x5C, 8, 9, 10, 12, 13}" "r < 0x20 \<or> r = 0x3C \<or> r = 0x3E \<or> r = 0x26"
    | (plain) "0x20 \<le> r" "r \<noteq> 0x22" "r \<noteq> 0x5C" "r \<noteq> 0x3C" "r \<noteq> 0x3E" "r \<noteq> 0x26" by fastforce
  then show ?thesis
  proof cases
    case simple
    then show ?thesis
      by (elim insertE emptyE) (simp_all add: quote_chunk_def simple_escape_def encode_rune_ascii char_of_escapes byte_of_def)
  next
    case u
    then have "quote_chunk (r, encode_rune r) = [CHR 0x5C, CHR ''u''] @ hex4 r"
      using True by (auto simp: quote_chunk_def)
    then show ?thesis using parse_chars_u [of r n s] True by simp
  next
    case plain
    then have "quote_chunk (r, encode_rune r) = encode_rune r"
      using True by (simp add: quote_chunk_def encode_rune_ascii)
    then show ?thesis using parse_chars_plain [OF assms plain(1-3)] by simp
  qed
next
  case False
  then have q: "quote_chunk (r, encode_rune r) = (if r = 0x2028 \<or> r = 0x2029 then [CHR 0x5C, CHR ''u''] @ hex4 r
    else encode_rune r)"
    using encode_rune_good [OF assms] by (simp add: quote_chunk_def Let_def)
  show ?thesis
  proof (cases "r = 0x2028 \<or> r = 0x2029")
    case True
    then show ?thesis using parse_chars_u [of r n s] by (auto simp: q)
  next
    case F: False
    then show ?thesis using parse_chars_plain [OF assms, of n s] False by (simp add: q)
  qed
qed

lemma parse_chars_quote:
  assumes "\<forall>r \<in> set rs. scalar r" "length rs < n"
  shows "parse_chars n (concat (map (\<lambda>r. quote_chunk (r, encode_rune r)) rs) @ CHR 0x22 # s) =
     Some (encode_runes rs, s)"
  using assms
proof (induction rs arbitrary: n)
  case Nil
  then show ?case by (cases n) (simp_all add: encode_runes_def)
next
  case (Cons r rs)
  then obtain m where "n = Suc m" by (cases n) auto
  then show ?case
    using Cons parse_chars_quote_chunk [of r m "concat (map (\<lambda>r. quote_chunk (r, encode_rune r)) rs) @ CHR 0x22 # s"]
    by (simp add: encode_runes_def)
qed

lemma quote_chunk_not_Nil: "scalar r \<Longrightarrow> 1 \<le> length (quote_chunk (r, encode_rune r))"
  using encode_rune_length(1) [of r] by (auto simp: quote_chunk_def Let_def)

lemma quote_length: "\<forall>r \<in> set rs. scalar r \<Longrightarrow>
    length rs \<le> length (concat (map (\<lambda>r. quote_chunk (r, encode_rune r)) rs))"
  by (induction rs) (auto dest!: quote_chunk_not_Nil)

lemma utf8_valid_runes:
  assumes "utf8_valid s"
  obtains rs where "s = encode_runes rs" "\<forall>r \<in> set rs. scalar r"
  using that [of "runes s"] encode_runes_valid [OF assms] scalar_runes by auto

text \<open>A quoted string read back, whatever follows it.\<close>

lemma parse_chars_string:
  assumes "utf8_valid s" "length (tl (quote_string s)) \<le> n"
  shows "parse_chars n (tl (quote_string s) @ t) = Some (s, t)"
proof -
  obtain rs where rs: "s = encode_runes rs" "\<forall>r \<in> set rs. scalar r" by (rule utf8_valid_runes [OF assms(1)])
  have q: "tl (quote_string s) = concat (map (\<lambda>r. quote_chunk (r, encode_rune r)) rs) @ [CHR 0x22]"
    using rs by (simp add: quote_string_def chunks_encode_runes comp_def)
  have "length rs < n" using quote_length [OF rs(2)] assms(2) unfolding q by simp
  then show ?thesis using parse_chars_quote [OF rs(2), of n t] unfolding q by (simp add: rs(1))
qed

section \<open>Numbers\<close>

text \<open>What may follow a value inside a text.\<close>

definition delimited :: "string \<Rightarrow> bool" where
  "delimited t \<longleftrightarrow> t = [] \<or> hd t \<in> set '',]}''"

lemma show_nat_all_digits: "list_all is_digit (show_nat n)"
  using show_nat_digits [of _ n] by (simp add: list_all_iff is_digit_def in_range_def)

lemma show_nat_zero: "hd (show_nat n) = CHR ''0'' \<longleftrightarrow> n = 0"
proof (induction n rule: show_nat.induct)
  case (1 n)
  show ?case
  proof (cases "n < 10")
    case True
    then have "n \<in> {0, 1, 2, 3, 4, 5, 6, 7, 8, 9}" by auto
    then show ?thesis by (elim insertE emptyE) (simp_all add: show_nat.simps char_of_eq_iff)
  next
    case False
    then show ?thesis using 1 by (simp add: show_nat.simps [of n] hd_append)
  qed
qed

lemma takeWhile_digits: "delimited t \<Longrightarrow> takeWhile is_digit (show_nat n @ t) = show_nat n"
  using show_nat_all_digits [of n]
  by (cases t) (auto simp: list_all_iff delimited_def takeWhile_append is_digit_def in_range_def byte_of_def)

lemma take1_Nil: "take 1 s = [c] \<longleftrightarrow> s \<noteq> [] \<and> hd s = c"
  by (cases s) auto

lemma number_prefix_nat:
  assumes "delimited t"
  shows "number_prefix (show_nat n @ t) = Some (show_nat n)"
    and "number_prefix (CHR ''-'' # show_nat n @ t) = Some (CHR ''-'' # show_nat n)"
proof -
  have h: "hd (show_nat n) \<noteq> CHR ''-''"
    using show_nat_digits [of "hd (show_nat n)" n] by (auto simp: byte_of_def)
  have ip: "(if take 1 (show_nat n @ t) = ''0'' then ''0'' else takeWhile is_digit (show_nat n @ t)) = show_nat n"
  proof (cases "n = 0")
    case True
    moreover have "char_of (48::nat) = CHR ''0''" by (simp add: char_of_eq_iff)
    ultimately show ?thesis by (simp add: show_nat.simps)
  next
    case False
    then show ?thesis using show_nat_zero [of n] takeWhile_digits [OF assms]
      by (simp add: take1_Nil del: One_nat_def take_append)
  qed
  have t: "take 1 t \<noteq> ''.''" "take 1 t \<noteq> ''e''" "take 1 t \<noteq> ''E''"
    using assms by (cases t; auto simp: delimited_def)+
  have d: "drop (length (show_nat n)) (show_nat n @ t) = t" by simp
  have u: "unsigned_prefix (show_nat n @ t) = Some (show_nat n)"
    unfolding unsigned_prefix_def Let_def ip d using t by simp
  then show "number_prefix (show_nat n @ t) = Some (show_nat n)"
    using h by (simp add: number_prefix_def take1_Nil del: One_nat_def take_append)
  show "number_prefix (CHR ''-'' # show_nat n @ t) = Some (CHR ''-'' # show_nat n)"
    using u by (simp add: number_prefix_def)
qed

lemma number_prefix_int: "delimited t \<Longrightarrow> number_prefix (show_int i @ t) = Some (show_int i)"
  by (simp add: show_int_def number_prefix_nat)

section \<open>Values\<close>

text \<open>The values the service writes: valid strings, and numbers as \<open>strconv\<close> prints them.\<close>

fun json_ok :: "json \<Rightarrow> bool" where
  "json_ok JNull = True"
| "json_ok (JBool b) = True"
| "json_ok (JNum n) = (case int_literal n of None \<Rightarrow> False | Some i \<Rightarrow> show_int i = n)"
| "json_ok (JStr s) = utf8_valid s"
| "json_ok (JArr js) = list_all json_ok js"
| "json_ok (JObj kvs) = list_all (\<lambda>(k, v). utf8_valid k \<and> json_ok v) kvs"

lemma skip_space_start: "s \<noteq> [] \<Longrightarrow> \<not> json_space (hd s) \<Longrightarrow> skip_space s = s"
  by (cases s) (simp_all add: skip_space_def)

lemma quote_string_start: "quote_string s = CHR 0x22 # tl (quote_string s)"
  by (simp add: quote_string_def)

lemma delimited_start: "delimited t \<Longrightarrow> skip_space t = t"
  by (cases t) (auto simp: delimited_def skip_space_def json_space_def byte_of_def)

lemma show_nat_hd: "is_digit (hd (show_nat n))"
  using show_nat_all_digits [of n] show_nat_not_Nil [of n] by (simp add: list_all_iff)

lemma show_int_start:
  "show_int i \<noteq> [] \<and> (hd (show_int i) = CHR ''-'' \<or> is_digit (hd (show_int i)))"
  using show_nat_hd by (auto simp: show_int_def)

definition starter :: "char \<Rightarrow> bool" where
  "starter c \<longleftrightarrow> c = CHR 0x22 \<or> c \<in> set ''[{ntf-'' \<or> is_digit c"

lemma starter_space: "starter c \<Longrightarrow> \<not> json_space c \<and> c \<noteq> CHR '']'' \<and> c \<noteq> CHR ''}'' \<and> c \<noteq> CHR '',''"
  by (auto simp: starter_def json_space_def is_digit_def in_range_def byte_of_def)

lemma json_text_start: "json_ok j \<Longrightarrow> json_text j \<noteq> [] \<and> starter (hd (json_text j))"
  using show_int_start by (cases j) (auto simp: starter_def quote_string_def split: option.splits)

lemma parse_value_scalar:
  assumes "json_ok j" "delimited t" "\<And>js. j \<noteq> JArr js" "\<And>kvs. j \<noteq> JObj kvs"
  shows "parse_value (Suc n) (json_text j @ t) = Some (j, t)"
proof -
  have s: "skip_space (json_text j @ t) = json_text j @ t"
    using json_text_start [OF assms(1)] starter_space by (intro skip_space_start) auto
  show ?thesis
  proof (cases j)
    case (JNum x)
    then obtain i where i: "x = show_int i" using assms(1) by (auto split: option.splits)
    have h: "hd (show_int i @ t) = hd (show_int i)" "show_int i @ t \<noteq> []" using show_int_start [of i] by auto
    have "\<not> starts c (show_int i @ t)" if "c \<in> {CHR 0x22, CHR ''['', CHR ''{'', CHR ''n'', CHR ''t'', CHR ''f''}" for c
      using that show_int_start [of i] h by (auto simp: starts_def is_digit_def in_range_def byte_of_def)
    then show ?thesis using s JNum i h number_prefix_int [OF assms(2), of i] by (simp add: Let_def)
  next
    case (JStr x)
    then have "parse_chars (length (quote_string x @ t)) (tl (quote_string x) @ t) = Some (x, t)"
      using assms(1) by (intro parse_chars_string) auto
    then show ?thesis using s JStr quote_string_start [of x] by (simp add: Let_def starts_def quote_string_def)
  next
    case (JBool b)
    then show ?thesis using s by (cases b) (simp_all add: Let_def starts_def strip_prefix_def)
  qed (use s assms(3,4) in \<open>simp_all add: Let_def starts_def strip_prefix_def\<close>)
qed

lemma comma_sep_simps [simp]:
  "comma_sep [] = []" "comma_sep [x] = x" "comma_sep (x # y # zs) = x @ CHR '','' # comma_sep (y # zs)"
  by (simp_all add: comma_sep_def)

lemma delimitedI [simp]: "delimited (CHR '','' # t)" "delimited (CHR '']'' # t)" "delimited (CHR ''}'' # t)"
  by (simp_all add: delimited_def)

lemma skip_space_delims [simp]:
  "skip_space (CHR '','' # t) = CHR '','' # t" "skip_space (CHR '']'' # t) = CHR '']'' # t"
  "skip_space (CHR ''}'' # t) = CHR ''}'' # t" "skip_space (CHR '':'' # t) = CHR '':'' # t"
  "skip_space (CHR ''['' # t) = CHR ''['' # t" "skip_space (CHR ''{'' # t) = CHR ''{'' # t"
  "skip_space (CHR 0x22 # t) = CHR 0x22 # t"
  by (simp_all add: skip_space_def json_space_def byte_of_def)

lemma parse_elems_text:
  assumes "\<And>j n t. j \<in> set js \<Longrightarrow> delimited t \<Longrightarrow> 2 * length (json_text j) \<le> n \<Longrightarrow>
      parse_value n (json_text j @ t) = Some (j, t)"
    and "js \<noteq> []" "2 * length (comma_sep (map json_text js)) < n"
  shows "parse_elems n (comma_sep (map json_text js) @ CHR '']'' # t) = Some (js, t)"
  using assms
proof (induction js arbitrary: n)
  case (Cons j js)
  then obtain m where m: "n = Suc m" by (cases n) auto
  show ?case
  proof (cases js)
    case Nil
    then show ?thesis using Cons.prems m by (simp add: Let_def starts_def)
  next
    case (Cons j' js')
    have "parse_elems m (comma_sep (map json_text js) @ CHR '']'' # t) = Some (js, t)"
      using Cons.prems Cons m by (intro Cons.IH) auto
    moreover have "parse_value m (json_text j @ CHR '','' # comma_sep (map json_text js) @ CHR '']'' # t) =
        Some (j, CHR '','' # comma_sep (map json_text js) @ CHR '']'' # t)"
      using Cons.prems(1) [of j] Cons.prems(3) Cons m by simp
    ultimately show ?thesis using m Cons by (simp add: Let_def starts_def)
  qed
qed simp

definition member_text :: "string \<times> json \<Rightarrow> string" where
  "member_text = (\<lambda>(k, v). quote_string k @ '':'' @ json_text v)"

lemma parse_members_text:
  assumes "\<And>k v n t. (k, v) \<in> set kvs \<Longrightarrow> delimited t \<Longrightarrow> 2 * length (json_text v) \<le> n \<Longrightarrow>
      parse_value n (json_text v @ t) = Some (v, t)"
    and "\<And>k v. (k, v) \<in> set kvs \<Longrightarrow> utf8_valid k"
    and "kvs \<noteq> []" "2 * length (comma_sep (map member_text kvs)) < n"
  shows "parse_members n (comma_sep (map member_text kvs) @ CHR ''}'' # t) = Some (kvs, t)"
  using assms
proof (induction kvs arbitrary: n)
  case (Cons p kvs)
  obtain k v where p: "p = (k, v)" by fastforce
  obtain m where m: "n = Suc m" using Cons.prems by (cases n) auto
  have key: "parse_chars i (tl (quote_string k) @ u) = Some (k, u)" if "length (tl (quote_string k)) \<le> i" for i u
    using Cons.prems(2) [of k v] p that by (intro parse_chars_string) auto
  have len: "2 * length (json_text v) \<le> m"
    using Cons.prems(4) m p by (cases kvs) (auto simp: member_text_def)
  have val: "parse_value m (json_text v @ u) = Some (v, u)" if "delimited u" for u
    using Cons.prems(1) [of k v u m] p that len by simp
  have qs: "quote_string k @ u = CHR 0x22 # tl (quote_string k) @ u" for u
    using quote_string_start [of k] by (metis append_Cons)
  show ?case
  proof (cases kvs)
    case Nil
    then show ?thesis using m p key val by (simp add: member_text_def Let_def starts_def qs)
  next
    case (Cons p' kvs')
    have "parse_members m (comma_sep (map member_text kvs) @ CHR ''}'' # t) = Some (kvs, t)"
    proof (rule Cons.IH)
      show "utf8_valid k'" if "(k', v') \<in> set kvs" for k' v' using Cons.prems(2) [of k' v'] that by simp
      show "2 * length (comma_sep (map member_text kvs)) < m"
        using Cons.prems(4) m \<open>kvs = p' # kvs'\<close> by simp
    qed (use Cons.prems(1) Cons in auto)
    then show ?thesis using m p Cons key val by (simp add: member_text_def Let_def starts_def qs)
  qed
qed simp

lemma parse_value_text:
  "json_ok j \<Longrightarrow> delimited t \<Longrightarrow> 2 * length (json_text j) \<le> n \<Longrightarrow> parse_value n (json_text j @ t) = Some (j, t)"
proof (induction j arbitrary: n t)
  case (JArr js)
  then obtain m where m: "n = Suc m" by (cases n) auto
  show ?case
  proof (cases js)
    case Nil
    then show ?thesis using m by (simp add: Let_def starts_def)
  next
    case (Cons j js')
    have st: "json_text j \<noteq> []" "starter (hd (json_text j))"
      using json_text_start [of j] JArr.prems(1) Cons by auto
    have h: "comma_sep (map json_text js) @ CHR '']'' # t \<noteq> []"
      "hd (comma_sep (map json_text js) @ CHR '']'' # t) = hd (json_text j)"
      using st Cons by (cases js'; simp)+
    have sk: "skip_space (comma_sep (map json_text js) @ CHR '']'' # t) = comma_sep (map json_text js) @ CHR '']'' # t"
      using h st starter_space by (intro skip_space_start) auto
    have "parse_elems m (comma_sep (map json_text js) @ CHR '']'' # t) = Some (js, t)"
      using JArr Cons m by (intro parse_elems_text) (auto simp: list_all_iff)
    then show ?thesis using m sk h st starter_space [OF st(2)] by (simp add: Let_def starts_def)
  qed
next
  case (JObj kvs)
  then obtain m where m: "n = Suc m" by (cases n) auto
  have eq: "json_text (JObj kvs) = ''{'' @ comma_sep (map member_text kvs) @ ''}''"
    by (simp add: member_text_def)
  show ?case
  proof (cases kvs)
    case Nil
    then show ?thesis using m by (simp add: Let_def starts_def)
  next
    case (Cons p kvs')
    obtain k v where p: "p = (k, v)" by fastforce
    have h: "comma_sep (map member_text kvs) @ CHR ''}'' # t \<noteq> []"
      "hd (comma_sep (map member_text kvs) @ CHR ''}'' # t) = CHR 0x22"
      using Cons p by (cases kvs'; simp add: member_text_def quote_string_def)+
    have sk: "skip_space (comma_sep (map member_text kvs) @ CHR ''}'' # t) = comma_sep (map member_text kvs) @ CHR ''}'' # t"
      using h by (intro skip_space_start) (auto simp: json_space_def byte_of_def)
    have "parse_members m (comma_sep (map member_text kvs) @ CHR ''}'' # t) = Some (kvs, t)"
    proof (rule parse_members_text)
      show "parse_value i (json_text v' @ t') = Some (v', t')"
        if "(k', v') \<in> set kvs" "delimited t'" "2 * length (json_text v') \<le> i" for k' v' i t'
        using JObj.IH [of "(k', v')" v'] JObj.prems(1) that by (auto simp: list_all_iff)
      show "utf8_valid k'" if "(k', v') \<in> set kvs" for k' v'
        using JObj.prems(1) that by (auto simp: list_all_iff)
      show "2 * length (comma_sep (map member_text kvs)) < m"
        using JObj.prems(3) m unfolding eq by simp
    qed (use Cons in simp)
    then show ?thesis using m sk h unfolding eq by (simp add: Let_def starts_def)
  qed
next
  case JNull
  then obtain m where "n = Suc m" by (cases n) auto
  then show ?case using parse_value_scalar [of JNull t m] JNull by simp
next
  case (JBool b)
  then obtain m where "n = Suc m" by (cases n) (auto split: if_splits)
  then show ?case using parse_value_scalar [of "JBool b" t m] JBool by simp
next
  case (JNum x)
  then obtain m where "n = Suc m" using json_text_start [of "JNum x"] by (cases n) auto
  then show ?case using parse_value_scalar [of "JNum x" t m] JNum by simp
next
  case (JStr x)
  then obtain m where "n = Suc m" by (cases n) (auto simp: quote_string_def)
  then show ?case using parse_value_scalar [of "JStr x" t m] JStr by simp
qed

text \<open>Reading what was written gives the value back.\<close>

lemma parse_json_text: "json_ok j \<Longrightarrow> json_depth j \<le> 10000 \<Longrightarrow> parse_json (json_text j) = Some j"
  using parse_value_text [of j "[]" "2 * length (json_text j) + 2"]
  by (simp add: parse_json_def delimited_def skip_space_def)

text \<open>Literals of the code, in strings and as keys.\<close>

lemma utf8_valid_ascii: "\<forall>c \<in> set s. ascii c \<Longrightarrow> utf8_valid s"
  by (auto simp: utf8_valid_def chunks_ascii list_ex_iff bad_chunk_def rune_error_def ascii_def)

lemma same_key_ascii:
  "\<forall>c \<in> set a. ascii c \<Longrightarrow> \<forall>c \<in> set b. ascii c \<Longrightarrow>
   same_key a b \<longleftrightarrow> map (fold_rune \<circ> byte_of) a = map (fold_rune \<circ> byte_of) b"
  by (simp add: same_key_def runes_ascii)

end
