(* ===== verification/Consumer_Protocol.thy ===== *)
theory Consumer_Protocol
  imports Consumer
begin

text \<open>
  What the consumer may do to the outside world while it works on one delivery, as an abstract
  protocol of calls and answers (\<open>message_run\<close>, \<open>delivery_run\<close>), and the refinement: every run of
  \<open>handleMessage\<close> and \<open>processDelivery\<close> keeps to it, whatever the ledger, the deployment manager, the
  broker and the clock answer.
\<close>

section \<open>The log of a run\<close>

text \<open>
  The renewals run beside the handler, at moments the model leaves open. The log is the trace
  without them: the calls the handler itself makes, in order.
\<close>

fun is_renewal :: "effect \<Rightarrow> bool" where
  "is_renewal (Renewed dep) = True"
| "is_renewal _ = False"

definition log :: "'e world \<Rightarrow> effect list" where
  "log w = filter (\<lambda>x. \<not> is_renewal x) (w_trace w)"

lemma log_renew_ticks [simp]: "log (renew_ticks c l dep n w) = log w"
  by (induction n arbitrary: w) (simp_all add: log_def)

lemma log_renewals [simp]: "log (renewals c rn w) = log w"
  by (simp add: renewals_def split: option.split)

lemma call_log: "call c rn note f w = (r, w') \<Longrightarrow> \<not> is_renewal (note r) \<Longrightarrow> log w' = log w @ [note r]"
  by (auto simp: call_def split: prod.splits) (simp add: log_def)

text \<open>
  A script is a list of calls that a path of the code makes one after the other, going on only
  while they succeed. \<open>follows fs t ok\<close>: the calls \<open>t\<close> follow the script \<open>fs\<close>, to its end and
  without an error (\<open>ok\<close>) or up to the first error, which can come from the last call of \<open>t\<close> or
  from something that is not a call.
\<close>

fun follows :: "(go_error option \<Rightarrow> effect) list \<Rightarrow> effect list \<Rightarrow> bool \<Rightarrow> bool" where
  "follows [] t ok \<longleftrightarrow> t = [] \<and> ok"
| "follows (f # fs) [] ok \<longleftrightarrow> \<not> ok"
| "follows (f # fs) (x # t) ok \<longleftrightarrow>
     x = f None \<and> follows fs t ok \<or> (\<exists>e. x = f (Some e)) \<and> t = [] \<and> \<not> ok"

lemma follows_done: "follows fs t True \<longleftrightarrow> t = map (\<lambda>f. f None) fs"
  by (induction fs t True rule: follows.induct) auto

lemma follows_Nil [simp]: "follows fs [] ok \<longleftrightarrow> (fs = [] \<longleftrightarrow> ok)"
  by (cases fs) auto

lemma follows_Cons_None [simp]: "follows (f # fs) (f None # t) ok \<longleftrightarrow>
    follows fs t ok \<or> (\<exists>e. f None = f (Some e)) \<and> t = [] \<and> \<not> ok"
  by simp

lemma follows_stop: "follows fs t False \<Longrightarrow> follows (fs @ gs) t False"
  by (induction fs t False rule: follows.induct) auto

lemma follows_append: "follows fs t True \<Longrightarrow> follows gs u ok \<Longrightarrow> follows (fs @ gs) (t @ u) ok"
  by (induction fs t True rule: follows.induct) auto

text \<open>From \<open>w\<close> to \<open>w'\<close> the handler makes calls that follow the script.\<close>

definition emits :: "'e world \<Rightarrow> (go_error option \<Rightarrow> effect) list \<Rightarrow> bool \<Rightarrow> 'e world \<Rightarrow> bool" where
  "emits w fs ok w' \<longleftrightarrow> (\<exists>t. log w' = log w @ t \<and> follows fs t ok)"

text \<open>Scripts compose: one that failed stops the next, one that is done hands over.\<close>

lemma emits_stop: "emits w fs False w' \<Longrightarrow> emits w (fs @ gs) False w'"
  unfolding emits_def using follows_stop by blast

lemma emits_append: "emits w fs True w1 \<Longrightarrow> emits w1 gs ok w2 \<Longrightarrow> emits w (fs @ gs) ok w2"
  unfolding emits_def using follows_append by (metis append.assoc)

lemma emits_refl: "emits w fs ok w \<longleftrightarrow> (fs = [] \<longleftrightarrow> ok)"
  by (auto simp: emits_def)

lemma emits_call: "call c rn note f w = (r, w') \<Longrightarrow> \<not> is_renewal (note r) \<Longrightarrow> emits w [note] (r = None) w'"
  by (cases r) (auto simp: emits_def dest!: call_log)

lemma publishProgressEvent_emits:
  assumes "publishProgressEvent c rn x ex rk ev w = (r, w')"
  shows "emits w [PublishedProgress x ex rk ev] (r = None) w'"
  using assms
  by (auto simp: publishProgressEvent_def emits_refl split: option.splits dest!: emits_call)

lemma publishEvent_emits:
  assumes "publishEvent c rn x ex rk ev w = (r, w')"
  shows "emits w [PublishedEvent x ex rk ev] (r = None) w'"
  using assms
  by (auto simp: publishEvent_def publishJSONEvent_def emits_refl split: option.splits dest!: emits_call)

lemma ledger_Complete_emits:
  assumes "ledger_Complete c rn x dep b w = (r, w')"
  shows "emits w (if dc_ledger c = None then [] else [CompletedStage x dep b]) (r = None) w'"
  using assms
  by (auto simp: ledger_Complete_def emits_refl split: option.splits dest!: emits_call)

lemma ledger_Fail_emits:
  assumes "ledger_Fail c rn x dep b w = (r, w')"
  shows "emits w (if dc_ledger c = None then [] else [FailedStage x dep b]) (r = None) w'"
  using assms
  by (auto simp: ledger_Fail_def emits_refl split: option.splits dest!: emits_call)

lemma publish_copy_emits:
  assumes "publish_copy c x queue copy w = (r, w')"
  shows "emits w [PublishedCopy queue copy] (r = None) w'"
  using assms
  by (auto simp: publish_copy_def emits_refl split: option.splits dest!: emits_call)

lemmas call_emits = publishProgressEvent_emits publishEvent_emits ledger_Complete_emits
  ledger_Fail_emits publish_copy_emits

section \<open>The scripts of the paths\<close>

definition success_events :: "int \<Rightarrow> build_payload service_event \<Rightarrow> deployment_target \<Rightarrow> event_any \<times> event_any" where
  "success_events now event target =
     (SucceededEvent (newDeploySucceededEvent now event target),
      ProgressEvent (newOrchestrationRunningEvent now event target))"

definition failure_events ::
  "int \<Rightarrow> build_payload service_event \<Rightarrow> deployment_target \<Rightarrow> go_error \<Rightarrow> event_any \<times> event_any" where
  "failure_events now event target err =
     (FailedEvent (newDeployFailedEvent now event target err),
      ProgressEvent (newOrchestrationFailedEvent now event target err))"

definition success_bundle :: "config \<Rightarrow> event_any \<times> event_any \<Rightarrow> deploy_result_events \<times> go_error option" where
  "success_bundle cfg = (\<lambda>(s, p). makeDeployResultEvents (DeploySucceededRoutingKey cfg) s
     (OrchestrationRunningRoutingKey cfg) p)"

definition failure_bundle :: "config \<Rightarrow> event_any \<times> event_any \<Rightarrow> deploy_result_events \<times> go_error option" where
  "failure_bundle cfg = (\<lambda>(s, p). makeDeployResultEvents (DeployFailedRoutingKey cfg) s
     (OrchestrationFailedRoutingKey cfg) p)"

definition success_script ::
  "'e deploy_consumer \<Rightarrow> ctx \<Rightarrow> string \<Rightarrow> event_any \<times> event_any \<Rightarrow> (go_error option \<Rightarrow> effect) list" where
  "success_script c x dep evs = (let cfg = dc_cfg c in
     (if dc_ledger c = None then [] else [CompletedStage x dep (fst (success_bundle cfg evs))]) @
     [PublishedEvent x (RabbitMQExchange cfg) (DeploySucceededRoutingKey cfg) (fst evs),
      PublishedProgress x (DeploymentExchange cfg) (OrchestrationRunningRoutingKey cfg) (snd evs)])"

definition failure_script ::
  "'e deploy_consumer \<Rightarrow> ctx \<Rightarrow> string \<Rightarrow> event_any \<times> event_any \<Rightarrow> (go_error option \<Rightarrow> effect) list" where
  "failure_script c x dep evs = (let cfg = dc_cfg c in
     (if dc_ledger c = None then [] else [FailedStage x dep (fst (failure_bundle cfg evs))]) @
     [PublishedEvent x (RabbitMQExchange cfg) (DeployFailedRoutingKey cfg) (fst evs),
      PublishedProgress x (DeploymentExchange cfg) (OrchestrationFailedRoutingKey cfg) (snd evs)])"

lemma emits_two:
  assumes "emits w f1 (r1 = None) w1" "emits w1 f2 ok w2"
  shows "emits w (f1 @ f2) (r1 = None \<and> ok) (if r1 = None then w2 else w1)"
  using assms by (cases r1) (auto intro: emits_append emits_stop)

text \<open>Three calls in a row, as the two ways of finishing a stage make them.\<close>

lemma emits_three:
  assumes "emits w f1 (r1 = None) w1" "emits w1 f2 (r2 = None) w2" "emits w2 f3 (r3 = None) w3"
  shows "emits w (f1 @ f2 @ f3) (r1 = None \<and> r2 = None \<and> r3 = None)
    (if r1 = None then if r2 = None then w3 else w2 else w1)"
  using emits_two [OF assms(1) emits_two [OF assms(2,3)]] .

lemma publishRolloutSuccess_emits:
  assumes "publishRolloutSuccess c rn event target x w = ((act, err), w')"
  defines "evs \<equiv> success_events (dc_now c (w_ext w)) event target"
  shows "emits w (success_script c x (se_DeploymentID event) evs) (err = None) w' \<and>
    act = (if err = None then actionAck else actionNackRequeue) \<and>
    (snd (success_bundle (dc_cfg c) evs) = None \<or> w' = w)"
proof -
  obtain b me where b: "success_bundle (dc_cfg c) evs = (b, me)" by fastforce
  obtain r1 w1 where 1: "ledger_Complete c rn x (se_DeploymentID event) b w = (r1, w1)" by fastforce
  obtain r2 w2 where 2: "publishEvent c rn x (RabbitMQExchange (dc_cfg c))
    (DeploySucceededRoutingKey (dc_cfg c)) (fst evs) w1 = (r2, w2)" by fastforce
  obtain r3 w3 where 3: "publishProgressEvent c rn x (DeploymentExchange (dc_cfg c))
    (OrchestrationRunningRoutingKey (dc_cfg c)) (snd evs) w2 = (r3, w3)" by fastforce
  have E: "emits w (success_script c x (se_DeploymentID event) evs) (r1 = None \<and> r2 = None \<and> r3 = None)
    (if r1 = None then if r2 = None then w3 else w2 else w1)"
    using emits_three [OF ledger_Complete_emits [OF 1] publishEvent_emits [OF 2] publishProgressEvent_emits [OF 3]]
    unfolding success_script_def Let_def b fst_conv append_Cons append_Nil .
  have N: "emits w (success_script c x (se_DeploymentID event) evs) False w"
    by (simp add: emits_refl success_script_def Let_def)
  show ?thesis
    using assms(1) b 1 2 3 E N
    by (cases me; cases r1; cases r2; cases r3)
      (auto simp: publishRolloutSuccess_def Let_def evs_def success_events_def success_bundle_def)
qed

lemma publish_failure_emits:
  assumes "publish_failure c rn x s p e w = ((act, err), w')"
  shows "emits w [PublishedEvent x (RabbitMQExchange (dc_cfg c)) (DeployFailedRoutingKey (dc_cfg c)) s,
      PublishedProgress x (DeploymentExchange (dc_cfg c)) (OrchestrationFailedRoutingKey (dc_cfg c)) p]
      (da_ack act) w' \<and> act = (if da_ack act then actionAck else actionNackRequeue) \<and> err \<noteq> None"
proof -
  obtain r2 w2 where 2: "publishEvent c rn x (RabbitMQExchange (dc_cfg c))
    (DeployFailedRoutingKey (dc_cfg c)) s w = (r2, w2)" by fastforce
  obtain r3 w3 where 3: "publishProgressEvent c rn x (DeploymentExchange (dc_cfg c))
    (OrchestrationFailedRoutingKey (dc_cfg c)) p w2 = (r3, w3)" by fastforce
  have "emits w [PublishedEvent x (RabbitMQExchange (dc_cfg c)) (DeployFailedRoutingKey (dc_cfg c)) s,
      PublishedProgress x (DeploymentExchange (dc_cfg c)) (OrchestrationFailedRoutingKey (dc_cfg c)) p]
      (r2 = None \<and> r3 = None) (if r2 = None then w3 else w2)"
    using emits_two [OF publishEvent_emits [OF 2] publishProgressEvent_emits [OF 3]] by simp
  then show ?thesis
    using assms 2 3
    by (cases r2; cases r3) (auto simp: publish_failure_def Let_def actionAck_def actionNackRequeue_def)
qed

lemma completeFailure_emits:
  assumes "completeFailure c rn event target e w = ((act, err), w')"
  defines "evs \<equiv> failure_events (dc_now c (w_ext w)) event target e"
  shows "emits w (failure_script c (timeout_ctx c w (15 * second)) (se_DeploymentID event) evs) (da_ack act) w' \<and>
    act = (if da_ack act then actionAck else actionNackRequeue) \<and> err \<noteq> None \<and>
    (dc_ledger c = None \<or> snd (failure_bundle (dc_cfg c) evs) = None \<or> w' = w)"
proof -
  obtain b me where b: "failure_bundle (dc_cfg c) evs = (b, me)" by fastforce
  define x where "x = timeout_ctx c w (15 * second)"
  obtain r1 w1 where 1: "ledger_Fail c rn x (se_DeploymentID event) b w = (r1, w1)" by fastforce
  obtain a2 e2 w2 where 2: "publish_failure c rn x (fst evs) (snd evs) e w1 = ((a2, e2), w2)" by (metis surj_pair)
  note P = publish_failure_emits [OF 2]
  have E: "emits w (failure_script c x (se_DeploymentID event) evs) (r1 = None \<and> da_ack a2)
    (if r1 = None then w2 else w1)"
    using emits_two [OF ledger_Fail_emits [OF 1] P [THEN conjunct1]]
    unfolding failure_script_def Let_def b fst_conv append_Cons append_Nil .
  have N: "emits w (failure_script c x (se_DeploymentID event) evs) False w"
    by (simp add: emits_refl failure_script_def Let_def)
  show ?thesis
    unfolding x_def [symmetric]
    using assms(1) [unfolded completeFailure_def Let_def, folded x_def] b 1 2 P E N
    by (cases "dc_ledger c"; cases me; cases r1)
      (auto simp: evs_def failure_events_def failure_bundle_def actionNackRequeue_def ledger_Fail_def)
qed

section \<open>The protocol of one message\<close>

text \<open>
  What the handler may do once its stage is claimed, as calls and answers: the abstract
  specification of \<open>handleMessage\<close>. The three levels follow the life of a deployment.
\<close>

definition settled :: "delivery_action \<Rightarrow> bool" where
  "settled act \<longleftrightarrow> act = (if da_ack act then actionAck else actionNackRequeue)"

definition finish_success ::
  "'e deploy_consumer \<Rightarrow> ctx \<Rightarrow> string \<Rightarrow> event_any \<times> event_any \<Rightarrow> effect list \<Rightarrow> delivery_action \<Rightarrow> bool" where
  "finish_success c x dep evs t act \<longleftrightarrow> follows (success_script c x dep evs) t (da_ack act) \<and>
     (t \<noteq> [] \<longrightarrow> snd (success_bundle (dc_cfg c) evs) = None) \<and> settled act"

definition finish_failure ::
  "'e deploy_consumer \<Rightarrow> ctx \<Rightarrow> string \<Rightarrow> event_any \<times> event_any \<Rightarrow> effect list \<Rightarrow> delivery_action \<Rightarrow> bool" where
  "finish_failure c x dep evs t act \<longleftrightarrow> follows (failure_script c x dep evs) t (da_ack act) \<and>
     (t \<noteq> [] \<longrightarrow> dc_ledger c = None \<or> snd (failure_bundle (dc_cfg c) evs) = None) \<and> settled act"

definition rollout_ready :: "'e deploy_consumer \<Rightarrow> go_error option \<Rightarrow> bool" where
  "rollout_ready c r \<longleftrightarrow> r = None \<or> dm_isKubernetesClient (dc_deployer c) \<and> isTransientRolloutCheckError r"

definition pending_note ::
  "'e deploy_consumer \<Rightarrow> ctx \<Rightarrow> int \<Rightarrow> build_payload service_event \<Rightarrow> deployment_target \<Rightarrow> go_error \<Rightarrow>
   go_error option \<Rightarrow> effect" where
  "pending_note c x now event target err =
     PublishedProgress x (DeploymentExchange (dc_cfg c)) (OrchestrationRetryingRoutingKey (dc_cfg c))
       (ProgressEvent (newOrchestrationRolloutPendingEvent now event target err))"

inductive await_run ::
  "'e deploy_consumer \<Rightarrow> build_payload service_event \<Rightarrow> deployment_target \<Rightarrow> effect list \<Rightarrow> delivery_action \<Rightarrow> bool"
  for c event target where
  ready: "finish_success c x (se_DeploymentID event) (success_events now event target) t act \<Longrightarrow>
     await_run c event target (Waited x target None # t) act"
| ready_late: "rollout_ready c r \<Longrightarrow>
     finish_success c (cancel now y) (se_DeploymentID event) (success_events now event target) t act \<Longrightarrow>
     await_run c event target (Waited x target (Some err) # Waited y target r # t) act"
| pending: "\<not> rollout_ready c r \<Longrightarrow> follows [pending_note c z now event target err] t (da_ack act) \<Longrightarrow>
     settled act \<Longrightarrow>
     await_run c event target (Waited x target (Some err) # Waited y target r # t) act"
| retry: "isRetriableDeployError err \<Longrightarrow>
     await_run c event target [Waited x target (Some err)] actionNackRequeue"
| failed: "\<not> isRetriableDeployError err \<Longrightarrow> root_cause err' = root_cause err \<Longrightarrow>
     finish_failure c y (se_DeploymentID event) (failure_events now event target err') t act \<Longrightarrow>
     await_run c event target (Waited x target (Some err) # t) act"

definition started_note ::
  "'e deploy_consumer \<Rightarrow> ctx \<Rightarrow> int \<Rightarrow> build_payload service_event \<Rightarrow> go_error option \<Rightarrow> effect" where
  "started_note c x now event =
     PublishedProgress x (DeploymentExchange (dc_cfg c)) (OrchestrationStartedRoutingKey (dc_cfg c))
       (ProgressEvent (newOrchestrationStartedEvent now event))"

definition deployed_note ::
  "'e deploy_consumer \<Rightarrow> ctx \<Rightarrow> int \<Rightarrow> build_payload service_event \<Rightarrow> deployment_target \<Rightarrow> go_error option \<Rightarrow> effect" where
  "deployed_note c x now event target =
     PublishedProgress x (DeploymentExchange (dc_cfg c)) (OrchestrationDeployedRoutingKey (dc_cfg c))
       (ProgressEvent (newOrchestrationDeployedEvent now event target))"

text \<open>An answer that the deployment manager gave to the request.\<close>

definition deploy_answer :: "'e deploy_consumer \<Rightarrow> deploy_request \<Rightarrow> deployment_target \<times> go_error option \<Rightarrow> bool" where
  "deploy_answer c request r \<longleftrightarrow> (\<exists>x e e'. dm_Deploy (dc_deployer c) x request e = (r, e'))"

inductive stage_run ::
  "'e deploy_consumer \<Rightarrow> build_payload service_event \<Rightarrow> deploy_request \<Rightarrow> deployment_target \<Rightarrow> effect list \<Rightarrow>
   delivery_action \<Rightarrow> bool"
  for c event request target where
  not_started: "follows [started_note c x now event] t False \<Longrightarrow>
     stage_run c event request target t actionNackRequeue"
| retry: "isRetriableDeployError err \<Longrightarrow> deploy_answer c request (tg, Some err) \<Longrightarrow>
     stage_run c event request target [started_note c x now event None, Deployed request (tg, Some err)]
       actionNackRequeue"
| failed: "\<not> isRetriableDeployError err \<Longrightarrow>
     finish_failure c y (se_DeploymentID event) (failure_events now' event target err) t act \<Longrightarrow>
     deploy_answer c request (tg, Some err) \<Longrightarrow>
     stage_run c event request target
       (started_note c x now event None # Deployed request (tg, Some err) # t) act"
| not_announced: "follows [deployed_note c y now' event tg] t False \<Longrightarrow> deploy_answer c request (tg, None) \<Longrightarrow>
     stage_run c event request target
       (started_note c x now event None # Deployed request (tg, None) # t) actionNackRequeue"
| awaited: "await_run c event tg t act \<Longrightarrow> deploy_answer c request (tg, None) \<Longrightarrow>
     stage_run c event request target
       (started_note c x now event None # Deployed request (tg, None) # deployed_note c y now' event tg None # t) act"

definition replay_script :: "'e deploy_consumer \<Rightarrow> ctx \<Rightarrow> deploy_result_events \<Rightarrow> json \<Rightarrow> json \<Rightarrow>
    (go_error option \<Rightarrow> effect) list" where
  "replay_script c x b s p =
     [PublishedEvent x (RabbitMQExchange (dc_cfg c)) (ServiceRoutingKey b) (StoredEvent s),
      PublishedProgress x (DeploymentExchange (dc_cfg c)) (ProgressRoutingKey b) (StoredEvent p)]"

inductive replay_run :: "'e deploy_consumer \<Rightarrow> string \<Rightarrow> effect list \<Rightarrow> delivery_action \<Rightarrow> bool"
  for c raw where
  unreadable: "(\<nexists>b s p. unmarshal_bundle raw = Inr b \<and> unmarshal_any (ServiceEvent b) = Inr s \<and>
       unmarshal_any (ProgressEvent_raw b) = Inr p) \<Longrightarrow> replay_run c raw [] actionNackDrop"
| replayed: "unmarshal_bundle raw = Inr b \<Longrightarrow> unmarshal_any (ServiceEvent b) = Inr s \<Longrightarrow>
     unmarshal_any (ProgressEvent_raw b) = Inr p \<Longrightarrow>
     follows (replay_script c x b s p) t (da_ack act) \<Longrightarrow> settled act \<Longrightarrow> replay_run c raw t act"

text \<open>Which messages are worked on: readable, with a deployment, names for its objects and an image.\<close>

definition accepted ::
  "'e deploy_consumer \<Rightarrow> string \<Rightarrow> (build_payload service_event \<times> deploy_request \<times> deployment_target) option" where
  "accepted c body =
     (case unmarshal_event body of
        Inl _ \<Rightarrow> None
      | Inr event \<Rightarrow>
          (case targetForRequest (dc_cfg c) (deployRequestFromEvent (dc_cfg c) event) of
             Inl _ \<Rightarrow> None
           | Inr target \<Rightarrow>
               if blank (se_DeploymentID event) \<or> blank (dr_ImageTag (deployRequestFromEvent (dc_cfg c) event)) then None
               else Some (event, deployRequestFromEvent (dc_cfg c) event, target)))"

inductive message_run :: "'e deploy_consumer \<Rightarrow> string \<Rightarrow> effect list \<Rightarrow> delivery_action \<Rightarrow> bool"
  for c body where
  rejected: "accepted c body = None \<Longrightarrow> message_run c body [] actionNackDrop"
| unclaimed: "accepted c body = Some (event, request, target) \<Longrightarrow>
     message_run c body [Claimed (se_DeploymentID event) (d, r, Some err)] actionNackRequeue"
| replay: "accepted c body = Some (event, request, target) \<Longrightarrow> d = ClaimCompleted \<or> d = ClaimFailed \<Longrightarrow>
     replay_run c (sr_ResultJSON r) t act \<Longrightarrow>
     message_run c body (Claimed (se_DeploymentID event) (d, r, None) # t) act"
| busy: "accepted c body = Some (event, request, target) \<Longrightarrow>
     message_run c body [Claimed (se_DeploymentID event) (ClaimBusy, r, None)] actionNackRequeue"
| claimed: "accepted c body = Some (event, request, target) \<Longrightarrow> dc_ledger c \<noteq> None \<Longrightarrow>
     stage_run c event request target t act \<Longrightarrow>
     message_run c body (Claimed (se_DeploymentID event) (ClaimAcquired, r, None) # t) act"
| no_ledger: "accepted c body = Some (event, request, target) \<Longrightarrow> dc_ledger c = None \<Longrightarrow>
     stage_run c event request target t act \<Longrightarrow> message_run c body t act"

section \<open>The handler keeps to the protocol\<close>

lemma settled_simps [simp]: "settled actionAck" "settled actionNackRequeue"
  "da_ack actionAck" "\<not> da_ack actionNackRequeue" "\<not> da_ack actionNackDrop"
  "da_requeue actionNackRequeue" "\<not> da_requeue actionNackDrop"
  by (simp_all add: settled_def actionAck_def actionNackRequeue_def actionNackDrop_def)

lemma emits_obtain:
  assumes "emits w fs ok w'"
  obtains t where "log w' = log w @ t" "follows fs t ok" "w' = w \<longrightarrow> t = []"
  using assms unfolding emits_def by (metis append.right_neutral same_append_eq)

lemma publishRolloutSuccess_run:
  assumes "publishRolloutSuccess c rn event target x w = ((act, err), w')"
  obtains t where "log w' = log w @ t"
    "finish_success c x (se_DeploymentID event) (success_events (dc_now c (w_ext w)) event target) t act"
    "err = None \<longleftrightarrow> da_ack act"
proof -
  let ?evs = "success_events (dc_now c (w_ext w)) event target"
  note E = publishRolloutSuccess_emits [OF assms]
  obtain t where t: "log w' = log w @ t" "follows (success_script c x (se_DeploymentID event) ?evs) t (err = None)"
    "w' = w \<longrightarrow> t = []" using E emits_obtain by blast
  have ok: "err = None \<longleftrightarrow> da_ack act" "settled act"
    using E [THEN conjunct2, THEN conjunct1] by (cases "err = None"; simp)+
  show ?thesis using that [OF t(1) _ ok(1)] t(2,3) ok E [THEN conjunct2, THEN conjunct2]
    by (auto simp: finish_success_def)
qed

lemma completeFailure_run:
  assumes "completeFailure c rn event target e w = ((act, err), w')"
  obtains t where "log w' = log w @ t"
    "finish_failure c (timeout_ctx c w (15 * second)) (se_DeploymentID event)
       (failure_events (dc_now c (w_ext w)) event target e) t act" "err \<noteq> None"
proof -
  let ?evs = "failure_events (dc_now c (w_ext w)) event target e"
  note E = completeFailure_emits [OF assms]
  obtain t where t: "log w' = log w @ t" "w' = w \<longrightarrow> t = []"
    "follows (failure_script c (timeout_ctx c w (15 * second)) (se_DeploymentID event) ?evs) t (da_ack act)"
    using E emits_obtain by blast
  have ok: "settled act" "err \<noteq> None" using E unfolding settled_def by blast+
  show ?thesis using that [OF t(1) _ ok(2)] t(2,3) ok E [THEN conjunct2, THEN conjunct2]
    by (auto simp: finish_failure_def)
qed

lemma publishStored_run:
  assumes "publishStored c raw w = ((act, err), w')"
  shows "\<exists>t. log w' = log w @ t \<and> replay_run c raw t act \<and> (err = None \<longleftrightarrow> da_ack act)"
proof (cases "\<exists>b s p. unmarshal_bundle raw = Inr b \<and> unmarshal_any (ServiceEvent b) = Inr s \<and>
       unmarshal_any (ProgressEvent_raw b) = Inr p")
  case False
  then have "w' = w" "act = actionNackDrop" "err \<noteq> None"
    using assms by (auto simp: publishStored_def split: sum.splits)
  then show ?thesis using replay_run.unreadable [OF False] by auto
next
  case True
  then obtain b s p where b: "unmarshal_bundle raw = Inr b" "unmarshal_any (ServiceEvent b) = Inr s"
    "unmarshal_any (ProgressEvent_raw b) = Inr p" by blast
  define x where "x = timeout_ctx c w (15 * second)"
  obtain r1 w1 where 1: "publishEvent c None x (RabbitMQExchange (dc_cfg c)) (ServiceRoutingKey b)
    (StoredEvent s) w = (r1, w1)" by fastforce
  obtain r2 w2 where 2: "publishProgressEvent c None x (DeploymentExchange (dc_cfg c)) (ProgressRoutingKey b)
    (StoredEvent p) w1 = (r2, w2)" by fastforce
  have "emits w (replay_script c x b s p) (r1 = None \<and> r2 = None) (if r1 = None then w2 else w1)"
    using emits_two [OF publishEvent_emits [OF 1] publishProgressEvent_emits [OF 2]]
    by (simp add: replay_script_def)
  then obtain t where t: "log (if r1 = None then w2 else w1) = log w @ t"
    "follows (replay_script c x b s p) t (r1 = None \<and> r2 = None)" by (auto simp: emits_def)
  have "w' = (if r1 = None then w2 else w1)" "act = (if r1 = None \<and> r2 = None then actionAck else actionNackRequeue)"
    "err = None \<longleftrightarrow> r1 = None \<and> r2 = None"
    using assms b 1 2 by (auto simp: publishStored_def Let_def x_def split: option.splits)
  then show ?thesis using t replay_run.replayed [OF b, of c x t act] by auto
qed

lemma wait_rollout_log: "wait_rollout c rn x target w = (r, w') \<Longrightarrow> log w' = log w @ [Waited x target r]"
  unfolding wait_rollout_def by (drule call_log) auto

lemma rollout_timed_out_run:
  assumes "rollout_timed_out c rn event target e w = ((act, err), w')"
  shows "\<exists>t. log w' = log w @ t \<and> (\<forall>x. await_run c event target (Waited x target (Some e) # t) act) \<and>
    (err = None \<longleftrightarrow> da_ack act)"
proof -
  define y where "y = timeout_ctx c w (15 * second)"
  obtain r w1 where 1: "wait_rollout c rn y target w = (r, w1)" by fastforce
  note log1 = wait_rollout_log [OF 1]
  define now where "now = dc_now c (w_ext w1)"
  note eq = assms [unfolded rollout_timed_out_def Let_def, folded y_def, unfolded 1, simplified]
  show ?thesis
  proof (cases "rollout_ready c r")
    case True
    then have "publishRolloutSuccess c rn event target (cancel now y) w1 = ((act, err), w')"
      using eq by (auto simp: rollout_ready_def now_def)
    then obtain t where t: "log w' = log w1 @ t"
      "finish_success c (cancel now y) (se_DeploymentID event) (success_events now event target) t act"
      "err = None \<longleftrightarrow> da_ack act"
      using publishRolloutSuccess_run unfolding now_def by blast
    then show ?thesis
      using await_run.ready_late [OF True t(2)] log1 by (intro exI [of _ "Waited y target r # t"]) simp
  next
    case False
    obtain r2 w2 where 2: "publishProgressEvent c rn (timeout_ctx c w1 (15 * second)) (DeploymentExchange (dc_cfg c))
      (OrchestrationRetryingRoutingKey (dc_cfg c))
      (ProgressEvent (newOrchestrationRolloutPendingEvent now event target e)) w1 = (r2, w2)" by fastforce
    have res: "w' = w2" "act = (if r2 = None then actionAck else actionNackRequeue)" "err = None \<longleftrightarrow> r2 = None"
      using eq False 2 by (auto simp: rollout_ready_def now_def split: option.splits)
    obtain t where t: "log w2 = log w1 @ t"
      "follows [pending_note c (timeout_ctx c w1 (15 * second)) now event target e] t (r2 = None)"
      using publishProgressEvent_emits [OF 2] by (auto simp: emits_def pending_note_def)
    then show ?thesis
      using await_run.pending [OF False, of "timeout_ctx c w1 (15 * second)" now event target e t act] log1 res
      by (intro exI [of _ "Waited y target r # t"]) auto
  qed
qed

lemma await_rollout_run:
  assumes "await_rollout c rn event target w = ((act, err), w')"
  shows "\<exists>t. log w' = log w @ t \<and> await_run c event target t act \<and> (\<not> da_ack act \<longrightarrow> err \<noteq> None)"
proof -
  define x where "x = timeout_ctx c w (sint (RolloutTimeout (dc_cfg c)))"
  obtain r w1 where 1: "wait_rollout c rn x target w = (r, w1)" by fastforce
  note log1 = wait_rollout_log [OF 1]
  note eq = assms [unfolded await_rollout_def Let_def, folded x_def, unfolded 1, simplified]
  show ?thesis
  proof (cases r)
    case None
    then obtain t where t: "log w' = log w1 @ t" "err = None \<longleftrightarrow> da_ack act"
      "finish_success c x (se_DeploymentID event) (success_events (dc_now c (w_ext w1)) event target) t act"
      using publishRolloutSuccess_run eq [unfolded None, simplified] by blast
    then show ?thesis using await_run.ready [OF t(3)] log1 None by auto
  next
    case (Some e)
    let ?late = "is_rollout_timeout e \<or> is_deadline_exceeded e \<or>
      ctx_err (dc_now c (w_ext w1)) x = Some ContextDeadlineExceeded"
    show ?thesis
    proof (cases ?late)
      case True
      then have "rollout_timed_out c rn event target e w1 = ((act, err), w')" using eq Some by simp
      from rollout_timed_out_run [OF this] show ?thesis using log1 Some by fastforce
    next
      case late: False
      show ?thesis
      proof (cases "isRetriableDeployError e")
        case True
        then show ?thesis using eq Some late await_run.retry [OF True] log1 by auto
      next
        case False
        define e' where "e' = (if is_rollout_timeout e \<or> is_rollout_failed e
             then WrapError (''app did not become ready on port '' @ show_int (sint (dt_ContainerPort target)) @
                    ''; ensure it listens on $PORT: '') e else e)"
        have rc: "root_cause e' = root_cause e" by (simp add: e'_def)
        have "completeFailure c rn event target e' w1 = ((act, err), w')"
          using eq Some late False unfolding e'_def by simp
        then obtain t where t: "log w' = log w1 @ t" "err \<noteq> None"
          "finish_failure c (timeout_ctx c w1 (15 * second)) (se_DeploymentID event)
             (failure_events (dc_now c (w_ext w1)) event target e') t act"
          by (rule completeFailure_run)
        then show ?thesis using await_run.failed [OF False rc t(3)] log1 Some by auto
      qed
    qed
  qed
qed

lemma run_stage_run:
  assumes "run_stage c event request target w = ((act, err), w')"
  shows "\<exists>t. log w' = log w @ t \<and> stage_run c event request target t act \<and> (\<not> da_ack act \<longrightarrow> err \<noteq> None)"
proof -
  define x where "x = timeout_ctx c w (15 * second)"
  define now where "now = dc_now c (w_ext w)"
  obtain r1 w1 where 1: "publishProgressEvent c None x (DeploymentExchange (dc_cfg c))
    (OrchestrationStartedRoutingKey (dc_cfg c)) (ProgressEvent (newOrchestrationStartedEvent now event)) w = (r1, w1)"
    by fastforce
  define y where "y = timeout_ctx c w1 (60 * second)"
  let ?rn = "Some (se_DeploymentID event)"
  obtain tg r2 w2 where 2: "call c ?rn (Deployed request) (dm_Deploy (dc_deployer c) y request) w1 = ((tg, r2), w2)"
    by (metis surj_pair)
  have log2: "log w2 = log w1 @ [Deployed request (tg, r2)]" using call_log [OF 2] by simp
  have answer: "deploy_answer c request (tg, r2)"
  proof -
    obtain a e where "dm_Deploy (dc_deployer c) y request (w_ext w1) = (a, e)" by fastforce
    then show ?thesis using 2 by (auto simp: deploy_answer_def call_def)
  qed
  obtain t1 where t1: "log w1 = log w @ t1" "follows [started_note c x now event] t1 (r1 = None)"
    using publishProgressEvent_emits [OF 1] by (auto simp: emits_def started_note_def)
  note eq0 = assms [unfolded run_stage_def Let_def, folded x_def now_def, unfolded 1, simplified]
  show ?thesis
  proof (cases r1)
    case (Some e)
    then show ?thesis using eq0 t1 stage_run.not_started [of c x now event t1] by auto
  next
    case None
    then have t1: "log w1 = log w @ [started_note c x now event None]" using t1 by (simp add: follows_done)
    note eq = eq0 [unfolded None, simplified, folded y_def, unfolded 2, simplified]
    show ?thesis
    proof (cases r2)
      case (Some e)
      show ?thesis
      proof (cases "isRetriableDeployError e")
        case True
        then show ?thesis using eq None Some t1 log2 stage_run.retry [OF True] answer by auto
      next
        case False
        then have "completeFailure c ?rn event target e w2 = ((act, err), w')" using eq None Some by simp
        then obtain t where t: "log w' = log w2 @ t" "err \<noteq> None"
          "finish_failure c (timeout_ctx c w2 (15 * second)) (se_DeploymentID event)
             (failure_events (dc_now c (w_ext w2)) event target e) t act"
          by (rule completeFailure_run)
        then show ?thesis using stage_run.failed [OF False t(3)] answer t1 log2 Some by auto
      qed
    next
      case r2: None
      define now2 where "now2 = dc_now c (w_ext w2)"
      obtain r3 w3 where 3: "publishProgressEvent c ?rn y (DeploymentExchange (dc_cfg c))
        (OrchestrationDeployedRoutingKey (dc_cfg c)) (ProgressEvent (newOrchestrationDeployedEvent now2 event tg)) w2 = (r3, w3)"
        by fastforce
      obtain t3 where t3: "log w3 = log w2 @ t3" "follows [deployed_note c y now2 event tg] t3 (r3 = None)"
        using publishProgressEvent_emits [OF 3] by (auto simp: emits_def deployed_note_def)
      note eq3 = eq [unfolded None r2, simplified, folded now2_def, unfolded 3, simplified]
      show ?thesis
      proof (cases r3)
        case (Some e)
        then show ?thesis
          using eq3 t1 log2 t3 r2 stage_run.not_announced [of c y now2 event tg t3 request target x now] answer by auto
      next
        case r3: None
        then have "await_rollout c ?rn event tg w3 = ((act, err), w')" using eq3 by simp
        from await_rollout_run [OF this] obtain t where t: "log w' = log w3 @ t"
          "await_run c event tg t act" "\<not> da_ack act \<longrightarrow> err \<noteq> None" by blast
        have "t3 = [deployed_note c y now2 event tg None]" using t3 r3 by (simp add: follows_done)
        then show ?thesis using stage_run.awaited [OF t(2)] answer t(1,3) t3(1) t1 log2 r2 by auto
      qed
    qed
  qed
qed

lemma handleMessage_rejected:
  assumes "accepted c body = None"
  shows "\<exists>err. handleMessage c body w = ((actionNackDrop, Some err), w)"
proof (cases "unmarshal_event body")
  case (Inl e)
  then show ?thesis by (simp add: handleMessage_def)
next
  case event: (Inr event)
  show ?thesis
    using assms by (cases "targetForRequest (dc_cfg c) (deployRequestFromEvent (dc_cfg c) event)")
      (auto simp: handleMessage_def accepted_def event Let_def split: if_splits)
qed

lemma handleMessage_accepted:
  assumes "accepted c body = Some (event, request, target)"
  shows "handleMessage c body w = claim_stage c event request target w"
  using assms unfolding handleMessage_def accepted_def
  by (auto simp: Let_def split: sum.splits if_splits)

theorem handleMessage_run:
  assumes "handleMessage c body w = ((act, err), w')"
  shows "\<exists>t. log w' = log w @ t \<and> message_run c body t act \<and> (\<not> da_ack act \<longrightarrow> err \<noteq> None)"
proof (cases "accepted c body")
  case None
  then show ?thesis
    using assms handleMessage_rejected [OF None, of w] message_run.rejected [OF None] by auto
next
  case (Some a)
  then obtain event request target where a: "accepted c body = Some (event, request, target)"
    by (cases a) auto
  have eq: "claim_stage c event request target w = ((act, err), w')"
    using assms handleMessage_accepted [OF a] by simp
  show ?thesis
  proof (cases "dc_ledger c")
    case None
    then have "run_stage c event request target w = ((act, err), w')" using eq by (simp add: claim_stage_def)
    from run_stage_run [OF this] show ?thesis using message_run.no_ledger [OF a None] by blast
  next
    case (Some l)
    obtain d r e1 w1 where 1: "call c None (Claimed (se_DeploymentID event))
      (sl_Claim l background (se_DeploymentID event) ''orchestration'' (LeaseDuration (dc_cfg c))) w = ((d, r, e1), w1)"
      by (metis surj_pair)
    have log1: "log w1 = log w @ [Claimed (se_DeploymentID event) (d, r, e1)]" using call_log [OF 1] by simp
    note eq1 = eq [unfolded claim_stage_def Some, simplified, unfolded 1, simplified]
    show ?thesis
    proof (cases e1)
      case (Some e)
      then show ?thesis using eq1 log1 message_run.unclaimed [OF a] by auto
    next
      case e1: None
      show ?thesis
      proof (cases d)
        case ClaimAcquired
        then have "run_stage c event request target w1 = ((act, err), w')" using eq1 e1 by simp
        from run_stage_run [OF this] obtain t where t: "log w' = log w1 @ t" "stage_run c event request target t act"
          "\<not> da_ack act \<longrightarrow> err \<noteq> None" by blast
        then show ?thesis using message_run.claimed [OF a _ t(2)] Some log1 e1 ClaimAcquired by auto
      next
        case ClaimBusy
        then show ?thesis using eq1 e1 log1 message_run.busy [OF a] by auto
      next
        case ClaimCompleted
        then have "publishStored c (sr_ResultJSON r) w1 = ((act, err), w')" using eq1 e1 by simp
        from publishStored_run [OF this] show ?thesis
          using message_run.replay [OF a, of d r] ClaimCompleted log1 e1 by fastforce
      next
        case ClaimFailed
        then have "publishStored c (sr_ResultJSON r) w1 = ((act, err), w')" using eq1 e1 by simp
        from publishStored_run [OF this] show ?thesis
          using message_run.replay [OF a, of d r] ClaimFailed log1 e1 by fastforce
      qed
    qed
  qed
qed

section \<open>Retries, dead letters and the acknowledgement\<close>

definition retry_headers :: "'e delivery \<Rightarrow> go_error option \<Rightarrow> int64 \<Rightarrow> amqp_table" where
  "retry_headers msg cause attempt = (dl_Headers msg)
     (''x-shiply-attempt'' \<mapsto> AmqpInt32 (int32_of_int64 attempt),
      ''x-shiply-retry-reason'' \<mapsto> AmqpString (deployReason cause))"

definition dead_headers :: "'e delivery \<Rightarrow> go_error option \<Rightarrow> int64 \<Rightarrow> amqp_table" where
  "dead_headers msg cause attempt = (dl_Headers msg)
     (''x-shiply-dead-letter-reason'' \<mapsto> AmqpString (deployReason cause),
      ''x-shiply-attempt'' \<mapsto> AmqpInt32 (int32_of_int64 attempt))"

definition dead_note :: "'e deploy_consumer \<Rightarrow> 'e delivery \<Rightarrow> go_error option \<Rightarrow> int64 \<Rightarrow> go_error option \<Rightarrow> effect" where
  "dead_note c msg cause attempt = PublishedCopy (DLQ (dc_cfg c)) (copy_of msg (dead_headers msg cause attempt))"

definition retry_note :: "'e deploy_consumer \<Rightarrow> 'e delivery \<Rightarrow> go_error option \<Rightarrow> int64 \<Rightarrow> go_error option \<Rightarrow> effect" where
  "retry_note c msg cause attempt =
     PublishedCopy (retry_queue (dc_cfg c) (retry_index (dc_cfg c) attempt))
       (copy_of msg (retry_headers msg cause attempt))"

definition retrying_note ::
  "'e deploy_consumer \<Rightarrow> ctx \<Rightarrow> int \<Rightarrow> build_payload service_event \<Rightarrow> int64 \<Rightarrow> go_error \<Rightarrow> go_error option \<Rightarrow> effect" where
  "retrying_note c x now event attempt err =
     PublishedProgress x (DeploymentExchange (dc_cfg c)) (OrchestrationRetryingRoutingKey (dc_cfg c))
       (ProgressEvent (newOrchestrationRetryingEvent now event attempt err))"

text \<open>A counted retry announces itself, copies the message and gives the claim back.\<close>

definition counted_script ::
  "'e deploy_consumer \<Rightarrow> 'e delivery \<Rightarrow> ctx \<Rightarrow> int \<Rightarrow> build_payload service_event \<Rightarrow> go_error \<Rightarrow> int64 \<Rightarrow>
   (go_error option \<Rightarrow> effect) list" where
  "counted_script c msg x now event err attempt =
     [retrying_note c x now event attempt err, retry_note c msg (Some err) attempt] @
     (if dc_ledger c = None then [] else [ReleasedStage (se_DeploymentID event)])"

definition next_attempt :: "'e delivery \<Rightarrow> bool \<Rightarrow> int64" where
  "next_attempt msg count =
     (if count then deployHeaderAttempt (dl_Headers msg) + 1 else deployHeaderAttempt (dl_Headers msg))"

inductive retry_run ::
  "'e deploy_consumer \<Rightarrow> 'e delivery \<Rightarrow> build_payload service_event \<Rightarrow> go_error \<Rightarrow> bool \<Rightarrow> effect list \<Rightarrow> bool \<Rightarrow> bool"
  for c msg event err count where
  not_told: "sint (MaxAttempts (dc_cfg c)) \<le> sint (next_attempt msg count) \<Longrightarrow>
     finish_failure c x (se_DeploymentID event)
       (failure_events now event target (WrapError ''retry attempts exhausted: '' err)) t act \<Longrightarrow>
     \<not> da_ack act \<Longrightarrow> retry_run c msg event err count t False"
| exhausted: "sint (MaxAttempts (dc_cfg c)) \<le> sint (next_attempt msg count) \<Longrightarrow>
     finish_failure c x (se_DeploymentID event)
       (failure_events now event target (WrapError ''retry attempts exhausted: '' err)) t act \<Longrightarrow>
     da_ack act \<Longrightarrow> follows [dead_note c msg (Some err) (next_attempt msg count)] u ok \<Longrightarrow>
     retry_run c msg event err count (t @ u) ok"
| counted: "sint (next_attempt msg count) < sint (MaxAttempts (dc_cfg c)) \<Longrightarrow> count \<Longrightarrow>
     follows (counted_script c msg x now event err (next_attempt msg count)) t ok \<Longrightarrow>
     retry_run c msg event err count t ok"
| uncounted: "sint (next_attempt msg count) < sint (MaxAttempts (dc_cfg c)) \<Longrightarrow> \<not> count \<Longrightarrow>
     follows [retry_note c msg (Some err) (next_attempt msg count)] t ok \<Longrightarrow>
     retry_run c msg event err count t ok"

inductive delivery_run :: "'e deploy_consumer \<Rightarrow> 'e delivery \<Rightarrow> effect list \<Rightarrow> bool" for c msg where
  acked: "message_run c (dl_Body msg) t act \<Longrightarrow> da_ack act \<Longrightarrow> delivery_run c msg (t @ [Acked r])"
| retried: "message_run c (dl_Body msg) t actionNackRequeue \<Longrightarrow>
     accepted c (dl_Body msg) = Some (event, request, target) \<Longrightarrow>
     retry_run c msg event err (\<not> is_lease_busy err) u True \<Longrightarrow> delivery_run c msg (t @ u @ [Acked r])"
| requeued: "message_run c (dl_Body msg) t actionNackRequeue \<Longrightarrow>
     accepted c (dl_Body msg) = Some (event, request, target) \<Longrightarrow>
     retry_run c msg event err (\<not> is_lease_busy err) u False \<Longrightarrow> delivery_run c msg (t @ u @ [Nacked True r])"
| buried: "message_run c (dl_Body msg) t actionNackDrop \<Longrightarrow>
     follows [dead_note c msg (Some err) (next_attempt msg False)] u True \<Longrightarrow>
     delivery_run c msg (t @ u @ [Acked r])"
| dropped: "message_run c (dl_Body msg) t actionNackDrop \<Longrightarrow>
     follows [dead_note c msg (Some err) (next_attempt msg False)] u False \<Longrightarrow>
     delivery_run c msg (t @ u @ [Nacked False r])"
| channel_nil: "message_run c (dl_Body msg) t act \<Longrightarrow> \<not> dc_ch c \<Longrightarrow> \<not> da_ack act \<Longrightarrow>
     delivery_run c msg (t @ [Nacked (da_requeue act) r])"

lemma copyToDLQAttempt_emits:
  assumes "copyToDLQAttempt c msg e a w = (r, w')"
  shows "emits w [dead_note c msg e a] (r = None) w'"
  using assms publish_copy_emits
  unfolding copyToDLQAttempt_def dead_note_def dead_headers_def deployCloneHeaders_def Let_def by fastforce

lemma emitRetrying_emits:
  assumes "emitRetrying c body attempt (Some err) w = (r, w')" "unmarshal_event body = Inr event"
  shows "emits w [retrying_note c (timeout_ctx c w (15 * second)) (dc_now c (w_ext w)) event attempt err] (r = None) w'"
  using assms publishProgressEvent_emits unfolding emitRetrying_def retrying_note_def by fastforce

lemma releaseClaim_emits:
  assumes "releaseClaim c x body w = (r, w')" "unmarshal_event body = Inr event"
  shows "emits w (if dc_ledger c = None then [] else [ReleasedStage (se_DeploymentID event)]) (r = None) w'"
  using assms by (auto simp: releaseClaim_def emits_refl split: option.splits dest!: emits_call)

lemma emitExhausted_run:
  assumes "emitExhausted c body (Some e) w = (r, w')" "unmarshal_event body = Inr event"
  shows "\<exists>t x now target act. log w' = log w @ t \<and> finish_failure c x (se_DeploymentID event)
       (failure_events now event target (WrapError ''retry attempts exhausted: '' e)) t act \<and>
     (r = None \<longleftrightarrow> da_ack act)"
proof -
  define target where "target = (case targetForRequest (dc_cfg c) (deployRequestFromEvent (dc_cfg c) event) of
                          Inl _ \<Rightarrow> zero_target | Inr t \<Rightarrow> t)"
  let ?e = "WrapError ''retry attempts exhausted: '' e"
  obtain act err w1 where 1: "completeFailure c None event target ?e w = ((act, err), w1)"
    by (metis surj_pair)
  then obtain t where "log w1 = log w @ t" "err \<noteq> None" "finish_failure c (timeout_ctx c w (15 * second))
    (se_DeploymentID event) (failure_events (dc_now c (w_ext w)) event target ?e) t act"
    by (rule completeFailure_run)
  moreover have "w' = w1" "r = (if da_ack act then None else err)"
    using assms 1 by (auto simp: emitExhausted_def exhausted_error_def Let_def target_def split: if_splits)
  ultimately show ?thesis by auto
qed

lemma scheduleRetry_run:
  assumes "scheduleRetry c msg (Some err) count w = (r, w')" and ev: "unmarshal_event (dl_Body msg) = Inr event"
  shows "\<exists>t. log w' = log w @ t \<and> retry_run c msg event err count t (r = None)"
proof (cases "sint (MaxAttempts (dc_cfg c)) \<le> sint (next_attempt msg count)")
  case True
  obtain r1 w1 where 1: "emitExhausted c (dl_Body msg) (Some err) w = (r1, w1)" by fastforce
  from emitExhausted_run [OF 1 ev] obtain t x now target act where t: "log w1 = log w @ t"
    "finish_failure c x (se_DeploymentID event)
       (failure_events now event target (WrapError ''retry attempts exhausted: '' err)) t act"
    "r1 = None \<longleftrightarrow> da_ack act" by blast
  obtain r2 w2 where 2: "copyToDLQAttempt c msg (Some err) (next_attempt msg count) w1 = (r2, w2)" by fastforce
  obtain u where u: "log w2 = log w1 @ u" "follows [dead_note c msg (Some err) (next_attempt msg count)] u (r2 = None)"
    using copyToDLQAttempt_emits [OF 2] by (auto simp: emits_def)
  note eq = assms(1) [unfolded scheduleRetry_def Let_def, folded next_attempt_def]
  show ?thesis
  proof (cases r1)
    case (Some e)
    then show ?thesis using eq True 1 t retry_run.not_told [OF True t(2)] by (auto simp: next_attempt_def)
  next
    case None
    then have "w' = w2" "r = r2" using eq True 1 2 by (auto simp: next_attempt_def)
    then show ?thesis using retry_run.exhausted [OF True t(2) _ u(2)] t u None by auto
  qed
next
  case False
  let ?a = "next_attempt msg count"
  have lt: "sint ?a < sint (MaxAttempts (dc_cfg c))" using False by simp
  show ?thesis
  proof (cases count)
    case True
    obtain r1 w1 where 1: "emitRetrying c (dl_Body msg) ?a (Some err) w = (r1, w1)" by fastforce
    define x where "x = timeout_ctx c w1 (15 * second)"
    let ?h = "retry_headers msg (Some err) ?a"
    obtain r2 w2 where 2: "publish_copy c x (retry_queue (dc_cfg c) (retry_index (dc_cfg c) ?a))
      (copy_of msg ?h) w1 = (r2, w2)" by fastforce
    obtain r3 w3 where 3: "releaseClaim c x (dl_Body msg) w2 = (r3, w3)" by fastforce
    have E: "emits w (counted_script c msg (timeout_ctx c w (15 * second)) (dc_now c (w_ext w)) event err ?a)
        (r1 = None \<and> r2 = None \<and> r3 = None) (if r1 = None then if r2 = None then w3 else w2 else w1)"
      using emits_three [OF emitRetrying_emits [OF 1 ev] publish_copy_emits [OF 2] releaseClaim_emits [OF 3 ev]]
      unfolding counted_script_def retry_note_def append_Cons append_Nil .
    have "r = (if r1 = None then if r2 = None then r3 else r2 else r1)"
      "w' = (if r1 = None then if r2 = None then w3 else w2 else w1)"
      using assms(1) [unfolded scheduleRetry_def Let_def] True False 1 2 3
      by (auto simp: next_attempt_def retry_headers_def deployCloneHeaders_def x_def split: option.splits)
    then have "emits w (counted_script c msg (timeout_ctx c w (15 * second)) (dc_now c (w_ext w)) event err ?a)
        (r = None) w'"
      using E by (cases r1; cases r2) auto
    then show ?thesis using retry_run.counted [OF lt True] by (auto simp: emits_def)
  next
    case F: False
    have "emits w [retry_note c msg (Some err) ?a] (r = None) w'"
      using assms(1) [unfolded scheduleRetry_def Let_def] F False
      by (auto simp: retry_note_def next_attempt_def retry_headers_def deployCloneHeaders_def
          split: prod.splits option.splits dest!: publish_copy_emits)
    then show ?thesis using retry_run.uncounted [OF lt F] by (auto simp: emits_def)
  qed
qed

lemma stage_run_settled: "stage_run c event request target t act \<Longrightarrow> settled act"
  by (auto elim!: stage_run.cases await_run.cases simp: finish_success_def finish_failure_def)

lemma message_run_action:
  "message_run c body t act \<Longrightarrow> act = actionAck \<or> act = actionNackRequeue \<or> act = actionNackDrop"
  by (auto elim!: message_run.cases replay_run.cases dest!: stage_run_settled simp: settled_def split: if_splits)

lemma message_run_requeue:
  "message_run c body t actionNackRequeue \<Longrightarrow> \<exists>event request target. accepted c body = Some (event, request, target)"
  by (erule message_run.cases) (auto simp: actionNackRequeue_def actionNackDrop_def)

lemma accepted_event: "accepted c body = Some (event, request, target) \<Longrightarrow> unmarshal_event body = Inr event"
  by (auto simp: accepted_def split: sum.splits if_splits)

lemma ack_log: "\<exists>r. log (ack c msg w) = log w @ [Acked r]"
  unfolding ack_def by (metis call_log is_renewal.simps prod.collapse)

lemma nack_log: "\<exists>r. log (nack c msg b w) = log w @ [Nacked b r]"
  unfolding nack_def by (metis call_log is_renewal.simps prod.collapse)

theorem processDelivery_run: "\<exists>t. log (processDelivery c msg w) = log w @ t \<and> delivery_run c msg t"
proof -
  obtain act e0 w1 where 1: "handleMessage c (dl_Body msg) w = ((act, e0), w1)" by (metis surj_pair)
  from handleMessage_run [OF 1] obtain t where t: "log w1 = log w @ t" "message_run c (dl_Body msg) t act"
    "\<not> da_ack act \<longrightarrow> e0 \<noteq> None" by blast
  note eq = processDelivery_def [of c msg w, unfolded 1 Let_def, simplified]
  show ?thesis
  proof (cases "da_ack act")
    case True
    then show ?thesis using eq t ack_log [of c msg w1] delivery_run.acked [OF t(2) True] by fastforce
  next
    case nack: False
    then obtain e where e: "e0 = Some e" using t(3) by blast
    show ?thesis
    proof (cases "dc_ch c")
      case False
      then show ?thesis
        using eq nack t nack_log [of c msg "da_requeue act" w1] delivery_run.channel_nil [OF t(2) False nack]
        by fastforce
    next
      case ch: True
      show ?thesis
      proof (cases "act = actionNackRequeue")
        case True
        then have m: "message_run c (dl_Body msg) t actionNackRequeue" using t by simp
        obtain event request target where a: "accepted c (dl_Body msg) = Some (event, request, target)"
          using message_run_requeue [OF m] by blast
        obtain r w2 where 2: "scheduleRetry c msg (Some e) (\<not> is_lease_busy e) w1 = (r, w2)" by fastforce
        from scheduleRetry_run [OF 2 accepted_event [OF a]] obtain u where
          u: "log w2 = log w1 @ u" "retry_run c msg event e (\<not> is_lease_busy e) u (r = None)" by blast
        show ?thesis
        proof (cases r)
          case None
          then have "processDelivery c msg w = ack c msg w2" using eq nack ch True 2 e by simp
          then show ?thesis using ack_log [of c msg w2] u t None delivery_run.retried [OF m a, of e u] by fastforce
        next
          case (Some e2)
          then have "processDelivery c msg w = nack c msg True w2" using eq nack ch True 2 e by simp
          then show ?thesis using nack_log [of c msg True w2] u t Some delivery_run.requeued [OF m a, of e u] by fastforce
        qed
      next
        case False
        then have act: "act = actionNackDrop" using message_run_action [OF t(2)] nack by auto
        then have m: "message_run c (dl_Body msg) t actionNackDrop" using t by simp
        obtain r w2 where 2: "copyToDLQ c msg (Some e) w1 = (r, w2)" by fastforce
        then obtain u where u: "log w2 = log w1 @ u"
          "follows [dead_note c msg (Some e) (next_attempt msg False)] u (r = None)"
          using copyToDLQAttempt_emits [of c msg "Some e" "next_attempt msg False" w1 r w2]
          by (auto simp: copyToDLQ_def next_attempt_def emits_def)
        show ?thesis
        proof (cases r)
          case None
          then have "processDelivery c msg w = ack c msg w2" using eq nack ch act 2 e by simp
          then show ?thesis using ack_log [of c msg w2] u t None delivery_run.buried [OF m, of e u] by fastforce
        next
          case (Some e2)
          then have "processDelivery c msg w = nack c msg False w2" using eq nack ch act 2 e by simp
          then show ?thesis using nack_log [of c msg False w2] u t Some delivery_run.dropped [OF m, of e u] by fastforce
        qed
      qed
    qed
  qed
qed

end
