(* ===== verification/Sample.thy ===== *)
theory Sample
  imports Json_Round_Trip Consumer_Protocol
begin

text \<open>
  The sample configuration, a build event with its
  message, and a consumer whose broker and cluster say yes to everything: the inputs at which the
  other theories apply their theorems. The state of its outside world is a clock.
\<close>

section \<open>A message\<close>

definition sample_event :: "build_payload service_event" where
  "sample_event = zero_event\<lparr>se_DeploymentID := ''d1'', se_ProjectID := ''p1'', se_ServiceID := ''s1'',
     se_Payload := \<lparr>bp_ImageTag = ''img'', bp_CommitSHA = ''c0'', bp_Builder = [], bp_ProjectSlug = ''shop'',
       bp_ServiceSlug = ''api'', bp_ContainerPort = 0\<rparr>\<rparr>"

definition sample_json :: json where
  "sample_json = JObj [(''deploymentId'', JStr ''d1''), (''projectId'', JStr ''p1''), (''serviceId'', JStr ''s1''),
     (''payload'', JObj [(''imageTag'', JStr ''img''), (''commitSha'', JStr ''c0''), (''projectSlug'', JStr ''shop''),
       (''serviceSlug'', JStr ''api'')])]"

definition sample_body :: string where
  "sample_body = json_text sample_json"

definition sample_request :: deploy_request where
  "sample_request = \<lparr>dr_ProjectID = ''p1'', dr_ServiceID = ''s1'', dr_ServiceName = ''s1'', dr_UserID = [],
     dr_DeploymentID = ''d1'', dr_ImageTag = ''img'', dr_CommitSHA = ''c0'', dr_Environment = [],
     dr_ProjectSlug = ''shop'', dr_ServiceSlug = ''api'', dr_ContainerPort = 3000\<rparr>"

definition sample_target :: deployment_target where
  "sample_target = \<lparr>dt_Namespace = ''shiply-prj-shop'', dt_DeploymentName = ''app-api'', dt_ServiceName = ''app-api'',
     dt_IngressName = ''app-api'', dt_IngressHost = ''api-shop.localhost'', dt_ContainerPort = 3000, dt_TLSEnabled = False\<rparr>"

lemma sample_json_ok: "json_ok sample_json" "json_depth sample_json \<le> 10000"
  by (simp_all add: sample_json_def utf8_valid_ascii ascii_def byte_of_def)

lemma sample_unmarshal: "unmarshal_event sample_body = Inr sample_event"
  unfolding unmarshal_event_def unmarshal_into_def sample_body_def parse_json_text [OF sample_json_ok]
  by (simp add: sample_json_def store_object_def store_event_def store_payload_def same_key_ascii ascii_def
      byte_of_def fold_rune_def in_range_def set_string_def sample_event_def zero_event_def)

lemma sample_labels:
  "clean ''shop''" "clean ''api''" "clean ''d1''" "clean ''s1''" "clean ''img''" "clean ''c0''"
  "clean ''localhost''" "clean ''shiply-prj-shop''" "clean ''app-api''" "clean ''api-shop''"
  by (simp_all add: clean_def label_char_def isAlphaNum_def in_range_def byte_of_def no_double_dash_def)

lemma clean_TrimSpace: "clean s \<Longrightarrow> TrimSpace s = s"
  by (rule TrimSpace_label) (simp add: clean_def)

lemma clean_not_blank: "clean s \<Longrightarrow> \<not> blank s"
  by (simp add: blank_def clean_TrimSpace) (simp add: clean_def)

lemma clean_ToLower: "clean s \<Longrightarrow> ToLower s = s"
  by (rule ToLower_label) (simp add: clean_def)

lemmas sample_strings = sample_labels [THEN clean_TrimSpace] sample_labels [THEN clean_not_blank]
  sample_labels [THEN clean_ToLower]

lemma sample_deploy_request: "deployRequestFromEvent sample_config sample_event = sample_request"
  by (simp add: deployRequestFromEvent_def sample_config_def sample_event_def sample_request_def zero_event_def
      sample_strings)

lemma sample_targetForRequest: "targetForRequest sample_config sample_request = Inr sample_target"
proof -
  have "Trim1 (CHR ''.'') ''localhost'' = ''localhost''" by (rule Trim1_id) simp_all
  then show ?thesis
    by (simp add: targetForRequest_def Let_def sample_config_def sample_request_def sample_target_def sample_labels
        buildIngressHost_def buildNamespaceName_def buildResourceName_def sanitizeDNSLabel_id sample_strings)
qed

section \<open>A consumer\<close>

text \<open>Everything but the ledger succeeds and leaves the world as it is, whatever the world is.\<close>

definition sample_channel :: "'e amqp_channel" where
  "sample_channel = \<lparr>ch_Publish = (\<lambda>x ex rk m p e. (Inr (Some 0), e)), ch_Wait = (\<lambda>x n e. (Inr True, e)),
     ch_Returned = (\<lambda>e. (None, e))\<rparr>"

definition sample_publisher :: "'e rabbit_publisher" where
  "sample_publisher = \<lparr>rp_ch = Some sample_channel, rp_now = (\<lambda>e. 0)\<rparr>"

definition sample_manager :: "'e deployment_manager" where
  "sample_manager = \<lparr>dm_Deploy = (\<lambda>x r e. ((sample_target, None), e)), dm_WaitForRollout = (\<lambda>x t e. (None, e)),
     dm_isKubernetesClient = True\<rparr>"

definition sample_consumer :: "'e stage_ledger \<Rightarrow> ('e \<Rightarrow> int) \<Rightarrow> 'e deploy_consumer" where
  "sample_consumer l now = \<lparr>dc_cfg = sample_config, dc_ch = True, dc_pub = Some sample_publisher,
     dc_ledger = Some l, dc_deployer = sample_manager, dc_publish = Some (\<lambda>x ex rk ev e. (None, e)),
     dc_now = now, dc_ticks = (\<lambda>d e. 0)\<rparr>"

text \<open>A ledger that answers every claim the same way, over a clock.\<close>

definition sample_ledger :: "claim_disposition \<Rightarrow> stage_record \<Rightarrow> int stage_ledger" where
  "sample_ledger d r = \<lparr>sl_Claim = (\<lambda>x dep st t e. ((d, r, None), e + 1)), sl_Renew = (\<lambda>x dep st t e. (None, e + 1)),
     sl_Complete = (\<lambda>x dep st b e. (None, e + 1)), sl_Fail = (\<lambda>x dep st b e. (None, e + 1)),
     sl_Release = (\<lambda>x dep st e. (None, e + 1))\<rparr>"

abbreviation simple_consumer :: "claim_disposition \<Rightarrow> int deploy_consumer" where
  "simple_consumer d \<equiv> sample_consumer (sample_ledger d zero_record) (\<lambda>e. e)"

definition sample_delivery :: "'e delivery" where
  "sample_delivery = \<lparr>dl_Body = sample_body, dl_ContentType = ''application/json'', dl_Headers = Map.empty,
     dl_Ack = (\<lambda>m e. (None, e)), dl_Nack = (\<lambda>m q e. (None, e))\<rparr>"

abbreviation simple_delivery :: "int delivery" where
  "simple_delivery \<equiv> sample_delivery"

definition world_at :: "'e \<Rightarrow> 'e world" where
  "world_at e = \<lparr>w_ext = e, w_trace = []\<rparr>"

lemma world_at_simps [simp]: "w_ext (world_at e) = e" "w_trace (world_at e) = []" "log (world_at e) = []"
  by (simp_all add: world_at_def log_def)

lemma sample_consumer_simps [simp]:
  "dc_cfg (sample_consumer l now) = sample_config" "dc_ch (sample_consumer l now)"
  "dc_ledger (sample_consumer l now) = Some l" "dc_now (sample_consumer l now) = now"
  "dc_publish (sample_consumer l now) = Some (\<lambda>x ex rk ev e. (None, e))"
  "dc_pub (sample_consumer l now) = Some sample_publisher" "dc_deployer (sample_consumer l now) = sample_manager"
  "renewals (sample_consumer l now) rn w = w"
  by (simp_all add: sample_consumer_def renewals_def split: option.split)

lemma sample_id [simp]: "se_DeploymentID sample_event = ''d1''"
  by (simp add: sample_event_def)

lemma sample_accepted: "accepted (sample_consumer l now) sample_body = Some (sample_event, sample_request, sample_target)"
proof -
  have "dr_ImageTag sample_request = ''img''" by (simp add: sample_request_def)
  then show ?thesis
    by (simp add: accepted_def sample_unmarshal sample_deploy_request sample_targetForRequest sample_strings)
qed

lemma sample_max_attempts [simp]: "sint (MaxAttempts sample_config) = 5"
  by (simp add: sample_config_def)

lemma sample_delivery_simps [simp]:
  "deployHeaderAttempt (dl_Headers sample_delivery) = 0" "dl_Body sample_delivery = sample_body"
  "dl_Ack sample_delivery m e = (None, e)" "dl_Nack sample_delivery m q e = (None, e)"
  by (simp_all add: sample_delivery_def deployHeaderAttempt_def)

lemma show_int_1 [simp]: "show_int 1 = ''1''"
proof -
  have "char_of (49::nat) = CHR ''1''" by (simp add: char_of_eq_iff)
  then show ?thesis by (simp add: show_int_def show_nat.simps)
qed

lemma sample_publish_copy [simp]:
  "publish_copy (sample_consumer l now) x q p w = (None, w\<lparr>w_trace := w_trace w @ [PublishedCopy q p None]\<rparr>)"
  by (simp add: publish_copy_def call_def sample_publisher_def rp_Publish_def rp_publish_def sample_channel_def)

lemma sample_publish_progress [simp]:
  "publishProgressEvent (sample_consumer l now) rn x ex rk ev w =
     (None, w\<lparr>w_trace := w_trace w @ [PublishedProgress x ex rk ev None]\<rparr>)"
  by (simp add: publishProgressEvent_def call_def)

lemma sample_retry_queue [simp]:
  "retry_index sample_config 0 = 0" "retry_index sample_config 1 = 0"
  "retry_queue sample_config 0 = ''app.deploy.retry.1''"
  by (simp_all add: retry_index_def retry_queue_def sample_config_def)

end
