(* ===== verification/Ledger_Contract.thy ===== *)
theory Ledger_Contract
  imports Ledger
begin

text \<open>
  What the consumer may rely on of a stage ledger, as a locale over the operations of the Go
  interface \<open>StageLedger\<close>, and its interpretation on \<open>PostgresStageLedger\<close>, here one part of a
  larger world (\<open>beside\<close>). Before that, what each operation of the ledger does to its row.
\<close>

section \<open>The operations, row by row\<close>

definition terminal :: "pg_row \<Rightarrow> bool" where
  "terminal r \<longleftrightarrow> row_state r \<noteq> StateInProgress"

text \<open>C29. A claim refines its abstract step.\<close>

theorem claim_refines_step:
  assumes "pg_Claim c dep stage d db = ((disp, rec, None), db')"
  shows "\<exists>now row'. pg_clock db \<le> now \<and> now \<le> pg_clock db' \<and>
    claim_step now (now + sint d) (pg_rows db (dep, stage)) = Some (disp, row') \<and>
    pg_rows db' = (pg_rows db)((dep, stage) \<mapsto> row') \<and>
    sr_LeaseExpiresAt rec = row_lease row' \<and>
    (row_result row' \<noteq> None \<longrightarrow> sr_ResultJSON rec = the (row_result row'))"
  using pg_Claim_ok [OF assms] .

definition empty_db :: pg_db where
  "empty_db = \<lparr>pg_rows = Map.empty, pg_clock = 0, pg_count = 0, pg_fault = (\<lambda>n. None), pg_delay = (\<lambda>n. 1),
     pg_jsonb = Inr\<rparr>"

lemma empty_db_claim:
  "pg_Claim background ''d1'' ''orchestration'' 900 empty_db =
     ((ClaimAcquired, \<lparr>sr_DeploymentID = ''d1'', sr_Stage = ''orchestration'', sr_State = Some StateInProgress,
        sr_Attempt = 1, sr_LeaseExpiresAt = Some 901, sr_ResultJSON = []\<rparr>, None),
      empty_db\<lparr>pg_rows := [(''d1'', ''orchestration'') \<mapsto> \<lparr>row_state = StateInProgress, row_attempt = 1,
                        row_lease = Some 901, row_result = None\<rparr>], pg_clock := 3, pg_count := 3\<rparr>)"
  by (simp add: pg_Claim_def pg_stmt_def empty_db_def sql_insert_def pg_commit_def pg_rollback_def pg_tick_def Let_def)

theorem claim_refines_step_witness:
  "\<exists>now row'. 0 \<le> now \<and> now \<le> 3 \<and>
    claim_step now (now + 900) None = Some (ClaimAcquired, row') \<and> row_lease row' = Some 901"
  using claim_refines_step [OF empty_db_claim] by (simp add: empty_db_def) fastforce

lemma null_result_row_error:
  assumes "pg_rows db (dep, stage) = Some r" "row_result r = None"
  shows "\<exists>disp rec e db'. pg_Claim c dep stage d db = ((disp, rec, Some e), db') \<and> pg_rows db' = pg_rows db"
proof -
  obtain disp rec e db' where cl: "pg_Claim c dep stage d db = ((disp, rec, e), db')" by (metis surj_pair)
  have "claim_step now lease (pg_rows db (dep, stage)) = None" for now lease
    using assms by (simp add: claim_step_def)
  then have "e \<noteq> None" "pg_rows db' = pg_rows db"
    using pg_Claim_ok [of c dep stage d db disp rec db'] pg_Claim_effect [OF cl] cl
    by (auto simp: claim_effect_def)
  then show ?thesis using cl by auto
qed

text \<open>A row without a result can never be claimed again.\<close>

theorem null_result_blocks_claims:
  assumes "pg_rows db (dep, stage) = Some r" "row_result r = None"
  shows "\<exists>disp rec e db'. pg_Claim c dep stage d db = ((disp, rec, Some e), db') \<and> pg_rows db' = pg_rows db"
  by (rule null_result_row_error [OF assms])

lemma null_row_db:
  "pg_rows (empty_db\<lparr>pg_rows := [(''d1'', ''orchestration'') \<mapsto> \<lparr>row_state = StateInProgress, row_attempt = 1,
     row_lease = None, row_result = None\<rparr>]\<rparr>) (''d1'', ''orchestration'') =
   Some \<lparr>row_state = StateInProgress, row_attempt = 1, row_lease = None, row_result = None\<rparr>"
  by simp

theorem null_result_blocks_claims_witness:
  "\<exists>disp rec e db'. pg_Claim background ''d1'' ''orchestration'' 900 (empty_db\<lparr>pg_rows :=
       [(''d1'', ''orchestration'') \<mapsto> \<lparr>row_state = StateInProgress, row_attempt = 1, row_lease = None,
         row_result = None\<rparr>]\<rparr>) = ((disp, rec, Some e), db')"
  using null_result_blocks_claims [OF null_row_db] by fastforce

lemma claim_effect_terminal:
  "claim_effect dep stage d now t t' \<Longrightarrow> t (dep, stage) = Some r \<Longrightarrow> terminal r \<Longrightarrow> t' = t"
  by (cases "row_state r") (auto simp: claim_effect_def claim_step_def terminal_def split: if_splits)

lemma pg_Claim_terminal:
  assumes "pg_rows db (dep, stage) = Some r" "terminal r" "pg_Claim c dep stage d db = (res, db')"
  shows "pg_rows db' = pg_rows db"
  using pg_Claim_effect [OF assms(3)] claim_effect_terminal [of dep stage d _ "pg_rows db"] assms(1,2) by blast

lemma pg_Renew_terminal:
  assumes "pg_rows db (dep, stage) = Some r" "terminal r" "pg_Renew c dep stage d db = (res, db')"
  shows "pg_rows db' = pg_rows db"
proof -
  have "sql_update dep stage (\<lambda>r. if row_state r = StateInProgress
      then r\<lparr>row_lease := Some (pg_clock db + sint d)\<rparr> else r) (pg_rows db) = Inr ((), t) \<Longrightarrow> t = pg_rows db" for t
    using assms(1,2) by (auto simp: sql_update_def terminal_def split: if_splits)
  then show ?thesis using pg_exec_effect [OF assms(3) [unfolded pg_Renew_def]] by blast
qed

text \<open>A finished stage stays finished: whatever the server does, claims and renewals leave the
  table as it was.\<close>

theorem terminal_row_is_stable:
  assumes "pg_rows db (dep, stage) = Some r" "terminal r"
  shows "pg_rows (snd (pg_Claim c dep stage d db)) = pg_rows db \<and>
    pg_rows (snd (pg_Renew c dep stage d db)) = pg_rows db"
  using pg_Claim_terminal [OF assms] pg_Renew_terminal [OF assms] by (metis prod.collapse)

definition done_row :: pg_row where
  "done_row = \<lparr>row_state = StateCompleted, row_attempt = 1, row_lease = None, row_result = Some ''{}''\<rparr>"

definition done_db :: pg_db where
  "done_db = empty_db\<lparr>pg_rows := [(''d1'', ''orchestration'') \<mapsto> done_row]\<rparr>"

theorem terminal_row_is_stable_witness:
  "pg_rows (snd (pg_Claim background ''d1'' ''orchestration'' 900 done_db)) (''d1'', ''orchestration'') = Some done_row"
  using terminal_row_is_stable [of done_db "''d1''" "''orchestration''" done_row background 900]
  by (simp add: done_db_def terminal_def) (simp add: done_row_def)

text \<open>\<open>Complete\<close> and \<open>Fail\<close> store the marshalled bundle and the state, and end the lease.\<close>

theorem set_stores_result:
  assumes "pg_set c dep stage s v db = (None, db')" "pg_rows db (dep, stage) = Some r"
  shows "\<exists>j. pg_jsonb db (json_text (bundle_json v)) = Inr j \<and>
    pg_rows db' = (pg_rows db)((dep, stage) \<mapsto> r\<lparr>row_state := s, row_result := Some j, row_lease := None\<rparr>)"
proof -
  let ?f = "\<lambda>r j. r\<lparr>row_state := s, row_result := Some j, row_lease := None\<rparr>"
  have "(case pg_jsonb db (json_text (bundle_json v)) of Inl e \<Rightarrow> Inl e
      | Inr j \<Rightarrow> sql_update dep stage (\<lambda>r. ?f r j) (pg_rows db)) = Inr ((), pg_rows db')"
    using pg_exec_effect [OF assms(1) [unfolded pg_set_def]] by auto
  then show ?thesis using assms(2) by (auto simp: sql_update_def split: sum.splits if_splits)
qed

lemma set_stores_result_run:
  "pg_set background ''d1'' ''orchestration'' StateFailed zero_bundle done_db =
    (None, done_db\<lparr>pg_rows := [(''d1'', ''orchestration'') \<mapsto> done_row\<lparr>row_state := StateFailed,
        row_result := Some (json_text (bundle_json zero_bundle)), row_lease := None\<rparr>], pg_clock := 1, pg_count := 1\<rparr>)"
  by (simp add: pg_set_def pg_exec_def pg_stmt_def pg_tick_def done_db_def empty_db_def sql_update_def done_row_def
      attempt_check_def)

theorem set_stores_result_witness:
  "pg_rows (snd (pg_set background ''d1'' ''orchestration'' StateFailed zero_bundle done_db)) (''d1'', ''orchestration'')
     = Some (done_row\<lparr>row_state := StateFailed, row_result := Some (json_text (bundle_json zero_bundle))\<rparr>)"
  using set_stores_result [OF set_stores_result_run, of done_row]
  by (simp add: set_stores_result_run) (simp add: done_db_def empty_db_def done_row_def)

text \<open>
  C39. \<open>Release\<close> has no guard: it reopens a stage that is finished, and the next claim that reaches
  the server acquires it, so that the deployment runs again.
\<close>

theorem release_reopens_finished_stage:
  assumes "pg_rows db (dep, stage) = Some r" "terminal r" "row_result r \<noteq> None"
    and "attempt_check (row_attempt r)"
    and "pg_Release c dep stage db = (None, db1)"
    and "pg_Claim c' dep stage d db1 = ((disp, rec, None), db2)"
  shows "disp = ClaimAcquired"
proof -
  have "sql_update dep stage (\<lambda>r. r\<lparr>row_state := StateInProgress, row_lease := None\<rparr>) (pg_rows db) =
      Inr ((), pg_rows db1)"
    using pg_exec_effect [OF assms(5) [unfolded pg_Release_def]] by auto
  then have "pg_rows db1 (dep, stage) = Some (r\<lparr>row_state := StateInProgress, row_lease := None\<rparr>)"
    using assms(1,4) by (simp add: sql_update_def) (metis fun_upd_same)
  then show ?thesis
    using pg_Claim_ok [OF assms(6)] assms(3) by (auto simp: claim_step_def split: if_splits)
qed

lemma done_release:
  "pg_Release background ''d1'' ''orchestration'' done_db = (None, done_db\<lparr>pg_rows :=
     [(''d1'', ''orchestration'') \<mapsto> done_row\<lparr>row_state := StateInProgress\<rparr>], pg_clock := 1, pg_count := 1\<rparr>)"
  by (simp add: pg_Release_def pg_exec_def pg_stmt_def pg_tick_def done_db_def empty_db_def sql_update_def done_row_def
      attempt_check_def)

theorem release_reopens_finished_stage_witness:
  "fst (fst (pg_Claim background ''d1'' ''orchestration'' 900 (snd (pg_Release background ''d1'' ''orchestration'' done_db))))
     = ClaimAcquired"
proof -
  let ?db1 = "snd (pg_Release background ''d1'' ''orchestration'' done_db)"
  have cl: "snd (snd (fst (pg_Claim background ''d1'' ''orchestration'' 900 ?db1))) = None"
    unfolding done_release snd_conv
    by (simp add: pg_Claim_def pg_claim_existing_def pg_stmt_def pg_commit_def pg_rollback_def pg_tick_def
        sql_insert_def sql_select_def sql_update_def attempt_check_def done_db_def empty_db_def done_row_def Let_def)
  obtain disp rec e db2 where "pg_Claim background ''d1'' ''orchestration'' 900 ?db1 = ((disp, rec, e), db2)"
    by (metis surj_pair)
  moreover from this cl have "e = None" by simp
  ultimately show ?thesis
    using release_reopens_finished_stage [of done_db "''d1''" "''orchestration''" done_row background ?db1
        background 900 disp rec db2] done_release
    by (simp add: done_db_def terminal_def) (simp add: done_row_def attempt_check_def)
qed


definition claimed_sys :: ledger_sys where
  "claimed_sys = \<lparr>lsys_db = snd (pg_Claim background ''d1'' ''orchestration'' 900 empty_db), holder = [0 \<mapsto> 901]\<rparr>"

lemma claimed_sys_reachable: "ledger_reachable ''d1'' ''orchestration'' 900 claimed_sys"
proof -
  let ?s0 = "\<lparr>lsys_db = empty_db, holder = (\<lambda>w. None)\<rparr>"
  have "ledger_reachable ''d1'' ''orchestration'' 900 ?s0" by (rule ledger_reachable.start) simp
  moreover have "ledger_step ''d1'' ''orchestration'' 900 ?s0 claimed_sys"
    using ledger_step.claim [of background "''d1''" "''orchestration''" 900 ?s0, simplified, OF empty_db_claim, of 0]
    by (simp add: claimed_sys_def empty_db_claim)
  ultimately show ?thesis by (rule ledger_reachable.step)
qed

lemma claimed_sys_runs: "lease_runs claimed_sys 0"
  by (simp add: lease_runs_def claimed_sys_def empty_db_claim)


section \<open>The contract\<close>

text \<open>
  \<open>result_of\<close> is the abstraction: the disposition and the stored result of a deployment whose stage is
  finished. \<open>clock\<close> is the clock the contexts are read against.
\<close>

locale stage_ledger_laws =
  fixes ledger :: "'e stage_ledger"
    and clock :: "'e \<Rightarrow> int"
    and result_of :: "'e \<Rightarrow> string \<Rightarrow> (claim_disposition \<times> string) option"
  assumes result_final: "result_of e dep = Some (disp, j) \<Longrightarrow> disp = ClaimCompleted \<or> disp = ClaimFailed"
    and claim_final: "result_of e dep = Some (disp, j) \<Longrightarrow>
      sl_Claim ledger x dep ''orchestration'' d e = ((disp', rec, None), e') \<Longrightarrow> disp' = disp \<and> sr_ResultJSON rec = j"
    and claim_open: "result_of e dep = None \<Longrightarrow>
      sl_Claim ledger x dep ''orchestration'' d e = ((disp', rec, None), e') \<Longrightarrow>
      disp' = ClaimAcquired \<or> disp' = ClaimBusy"
    and claim_keeps: "result_of e dep = Some v \<Longrightarrow>
      result_of (snd (sl_Claim ledger x dep ''orchestration'' d e)) dep = Some v"
    and renew_keeps: "result_of e dep = Some v \<Longrightarrow>
      result_of (snd (sl_Renew ledger x dep ''orchestration'' d e)) dep = Some v"
    and complete_done_ctx: "ctx_err (clock e) x = Some err \<Longrightarrow>
      sl_Complete ledger x dep ''orchestration'' b e = (Some err, e)"
begin

lemma claim_not_acquired:
  assumes "result_of e dep = Some v" "sl_Claim ledger x dep ''orchestration'' d e = ((disp, rec, None), e')"
  shows "disp \<noteq> ClaimAcquired \<and> v = (disp, sr_ResultJSON rec) \<and> result_of e' dep = Some v"
proof -
  obtain disp0 j where v: "v = (disp0, j)" by fastforce
  show ?thesis
    using claim_final [OF assms(1) [unfolded v] assms(2)] result_final [OF assms(1) [unfolded v]]
      claim_keeps [OF assms(1), of x d] assms(2) v by auto
qed

end

section \<open>PostgreSQL beside the rest of the world\<close>

definition with_db :: "(pg_db \<Rightarrow> 'r \<times> pg_db) \<Rightarrow> 'a \<times> pg_db \<Rightarrow> 'r \<times> 'a \<times> pg_db" where
  "with_db f e = (let (r, db) = f (snd e) in (r, fst e, db))"

definition beside :: "pg_db stage_ledger \<Rightarrow> ('a \<times> pg_db) stage_ledger" where
  "beside l = \<lparr>sl_Claim = (\<lambda>x dep stage d. with_db (sl_Claim l x dep stage d)),
     sl_Renew = (\<lambda>x dep stage d. with_db (sl_Renew l x dep stage d)),
     sl_Complete = (\<lambda>x dep stage v. with_db (sl_Complete l x dep stage v)),
     sl_Fail = (\<lambda>x dep stage v. with_db (sl_Fail l x dep stage v)),
     sl_Release = (\<lambda>x dep stage. with_db (sl_Release l x dep stage))\<rparr>"

definition row_outcome :: "pg_row option \<Rightarrow> (claim_disposition \<times> string) option" where
  "row_outcome r = (case r of
       Some r \<Rightarrow> (case (row_state r, row_result r) of
            (StateCompleted, Some j) \<Rightarrow> Some (ClaimCompleted, j)
          | (StateFailed, Some j) \<Rightarrow> Some (ClaimFailed, j)
          | _ \<Rightarrow> None)
     | None \<Rightarrow> None)"

definition pg_outcome :: "'a \<times> pg_db \<Rightarrow> string \<Rightarrow> (claim_disposition \<times> string) option" where
  "pg_outcome e dep = row_outcome (pg_rows (snd e) (dep, ''orchestration''))"

lemma row_outcome_Some:
  assumes "row_outcome ro = Some (disp, j)"
  obtains r where "ro = Some r" "terminal r" "row_result r = Some j"
    "disp = (if row_state r = StateCompleted then ClaimCompleted else ClaimFailed)"
  using assms by (cases ro) (auto simp: row_outcome_def terminal_def split: stage_state.splits option.splits)

lemma claim_step_outcome:
  assumes "claim_step now l ro = Some (disp, row')"
  shows "row_outcome ro = Some v \<Longrightarrow> v = (disp, the (row_result row')) \<and> row_result row' \<noteq> None"
    and "row_outcome ro = None \<Longrightarrow> disp = ClaimAcquired \<or> disp = ClaimBusy"
  using assms by (cases ro; auto simp: row_outcome_def claim_step_def split: stage_state.splits option.splits if_splits)+

lemma beside_simps:
  "sl_Claim (beside postgresLedger) x dep stage d e = with_db (pg_Claim x dep stage d) e"
  "sl_Renew (beside postgresLedger) x dep stage d e = with_db (pg_Renew x dep stage d) e"
  "sl_Complete (beside postgresLedger) x dep stage b e = with_db (pg_Complete x dep stage b) e"
  by (simp_all add: beside_def postgresLedger_def)

lemma with_db_eq: "with_db f e = (r, e') \<longleftrightarrow> f (snd e) = (r, snd e') \<and> fst e' = fst e"
  by (auto simp: with_db_def prod_eq_iff split: prod.splits)

lemma pg_outcome_keeps: "pg_rows (snd e') = pg_rows (snd e) \<Longrightarrow> pg_outcome e' dep = pg_outcome e dep"
  by (simp add: pg_outcome_def)

lemma pg_outcome_row:
  assumes "pg_outcome e dep = Some v"
  shows "\<exists>r. pg_rows (snd e) (dep, ''orchestration'') = Some r \<and> terminal r"
  using assms unfolding pg_outcome_def by (metis row_outcome_Some surj_pair)

interpretation pgl: stage_ledger_laws "beside postgresLedger" "\<lambda>e. pg_clock (snd e)" pg_outcome
proof (unfold_locales, goal_cases)
  case (1 e dep disp j)
  then show ?case by (auto simp: pg_outcome_def elim!: row_outcome_Some split: if_splits)
next
  case (2 e dep disp j x d disp' rec e')
  then have "pg_Claim x dep ''orchestration'' d (snd e) = ((disp', rec, None), snd e')"
    by (simp add: beside_simps with_db_eq)
  from pg_Claim_ok [OF this] show ?case
    using claim_step_outcome(1) [of _ _ "pg_rows (snd e) (dep, ''orchestration'')"] 2(1)
    unfolding pg_outcome_def by fastforce
next
  case (3 e dep x d disp' rec e')
  then have "pg_Claim x dep ''orchestration'' d (snd e) = ((disp', rec, None), snd e')"
    by (simp add: beside_simps with_db_eq)
  from pg_Claim_ok [OF this] show ?case
    using claim_step_outcome(2) [of _ _ "pg_rows (snd e) (dep, ''orchestration'')"] 3(1)
    unfolding pg_outcome_def by blast
next
  case (4 e dep v x d)
  obtain res e' where cl: "sl_Claim (beside postgresLedger) x dep ''orchestration'' d e = (res, e')"
    by (metis surj_pair)
  obtain r where r: "pg_rows (snd e) (dep, ''orchestration'') = Some r" "terminal r"
    using pg_outcome_row [OF 4] by blast
  have "pg_rows (snd e') = pg_rows (snd e)"
    using cl pg_Claim_terminal [OF r] unfolding beside_simps with_db_eq by blast
  then show ?case using cl 4 pg_outcome_keeps by (metis snd_conv)
next
  case (5 e dep v x d)
  obtain res e' where rn: "sl_Renew (beside postgresLedger) x dep ''orchestration'' d e = (res, e')"
    by (metis surj_pair)
  obtain r where r: "pg_rows (snd e) (dep, ''orchestration'') = Some r" "terminal r"
    using pg_outcome_row [OF 5] by blast
  have "pg_rows (snd e') = pg_rows (snd e)"
    using rn pg_Renew_terminal [OF r] unfolding beside_simps with_db_eq by blast
  then show ?case using rn 5 pg_outcome_keeps by (metis snd_conv)
next
  case (6 e x err dep b)
  then show ?case
    by (simp add: beside_simps with_db_def pg_Complete_def pg_set_def pg_exec_def pg_stmt_def)
qed

end
