(* ===== verification/Event_Props.thy ===== *)
theory Event_Props
  imports Wire Json_Round_Trip
begin

text \<open>
  Properties of the events (\<open>events.go\<close>) and of the stored bundle: event identities, the text of a
  failure, and the JSON round trip of what the service stores and reads back.
\<close>

section \<open>Identities\<close>

text \<open>An event identity is 64 hexadecimal digits; the deploy.succeeded event and the running event of
  one deployment share their identity, and so do the deploy.failed and the failed event, while a restart of the
  handler gives the same identities again: they do not depend on the time or the target.\<close>

theorem event_identities:
  "length (deploymentEventID dep stage status) = 64 \<and>
   set (deploymentEventID dep stage status) \<subseteq> set ''0123456789abcdef'' \<and>
   se_EventID (newDeploySucceededEvent now request target) = de_EventID (newOrchestrationRunningEvent now' request target') \<and>
   se_EventID (newDeployFailedEvent now request target err) = de_EventID (newOrchestrationFailedEvent now' request target' err')"
  using hex_encode_digits sha256_bytes
  by (auto simp: deploymentEventID_def length_hex_encode length_sha256 newDeploySucceededEvent_def
      newOrchestrationRunningEvent_def newDeployFailedEvent_def newOrchestrationFailedEvent_def)

section \<open>The text of a failure\<close>

lemma to_valid_chunks_good: "\<not> list_ex bad_chunk ps \<Longrightarrow> to_valid_chunks rep b ps = concat (map snd ps)"
  by (induction ps arbitrary: b) auto

lemma ToValidUTF8_id: "utf8_valid s \<Longrightarrow> ToValidUTF8 s rep = s"
  by (simp add: ToValidUTF8_def utf8_valid_def to_valid_chunks_good chunks_concat)

lemma runes_scalar_take: "\<forall>r \<in> set (take n (runes s)). scalar r"
  using scalar_runes by (auto dest: in_set_takeD)

text \<open>A failure message is cut to 2000 characters and is valid UTF-8 whatever the error says; a valid
  message of at most 2000 characters is kept as it is.\<close>

theorem sanitizeFailureMessage_bounds:
  "utf8_valid (sanitizeFailureMessage m) \<and> length (runes (sanitizeFailureMessage m)) \<le> 2000 \<and>
   (if utf8_valid m \<and> length (runes m) \<le> 2000 then sanitizeFailureMessage m = m else True)"
proof -
  define rs where "rs = runes (ToValidUTF8 m (encode_rune rune_error))"
  define cut where "cut = (if 2000 < length rs then take 2000 rs else rs)"
  have sc: "\<forall>r \<in> set cut. scalar r"
    using runes_scalar_take [of 2000] scalar_runes by (auto simp: cut_def rs_def)
  have s: "sanitizeFailureMessage m = encode_runes cut"
    by (simp add: sanitizeFailureMessage_def Let_def cut_def rs_def)
  have "length cut \<le> 2000" by (simp add: cut_def)
  then have 1: "utf8_valid (sanitizeFailureMessage m)" "length (runes (sanitizeFailureMessage m)) \<le> 2000"
    using sc by (simp_all add: s utf8_valid_encode_runes runes_encode_runes)
  have 2: "sanitizeFailureMessage m = m" if "utf8_valid m" "length (runes m) \<le> 2000"
    using that by (simp add: s cut_def rs_def ToValidUTF8_id encode_runes_valid)
  show ?thesis using 1 2 by simp
qed

lemma failure_text_valid: "utf8_valid (sanitizeFailureMessage m)"
  using runes_scalar_take [of 2000] scalar_runes
  by (auto simp: sanitizeFailureMessage_def Let_def intro!: utf8_valid_encode_runes)

section \<open>Events as JSON\<close>

text \<open>Characters that JSON strings show as they are.\<close>

definition plain_char :: "char \<Rightarrow> bool" where
  "plain_char c \<longleftrightarrow> ascii c \<and> 0x20 \<le> byte_of c \<and> byte_of c \<notin> {0x22, 0x5C, 0x3C, 0x3E, 0x26}"

lemma quote_string_plain:
  assumes "\<forall>c \<in> set s. plain_char c"
  shows "quote_string s = [CHR 0x22] @ s @ [CHR 0x22]"
proof -
  have a: "\<forall>c \<in> set s. ascii c" using assms by (simp add: plain_char_def)
  have "map quote_chunk (chunks s) = map (\<lambda>c. [c]) s"
    using assms by (simp add: chunks_ascii [OF a]) (auto simp: plain_char_def quote_chunk_def ascii_def Let_def)
  then show ?thesis by (simp add: quote_string_def)
qed

lemma utf8_valid_plain: "\<forall>c \<in> set s. plain_char c \<Longrightarrow> utf8_valid s"
  by (auto simp: utf8_valid_def chunks_ascii plain_char_def list_ex_iff bad_chunk_def rune_error_def ascii_def)

lemma plain_digits: "\<forall>c \<in> set (show_nat n). plain_char c"
  using show_nat_digits by (fastforce simp: plain_char_def ascii_def)

lemma plain_show_int: "\<forall>c \<in> set (show_int i). plain_char c"
  using plain_digits by (auto simp: show_int_def plain_char_def ascii_def byte_of_def)

lemma plain_pad: "\<forall>c \<in> set (pad_left n (show_int i)). plain_char c"
  using plain_show_int by (auto simp: pad_left_def plain_char_def ascii_def byte_of_def)

lemma plain_hex: "\<forall>c \<in> set (deploymentEventID d s t). plain_char c"
proof -
  have "set (deploymentEventID d s t) \<subseteq> set ''0123456789abcdef''"
    using hex_encode_digits sha256_bytes by (simp add: deploymentEventID_def)
  moreover have "\<forall>c \<in> set ''0123456789abcdef''. plain_char c"
    by (simp add: plain_char_def ascii_def byte_of_def)
  ultimately show ?thesis by blast
qed

lemma marshal_time_plain:
  assumes "marshal_time t = Some s"
  obtains b where "s = [CHR 0x22] @ b @ [CHR 0x22]" "\<forall>c \<in> set b. plain_char c"
proof -
  obtain y m d where ymd: "civil_of_days (t div 1000000000 div 86400) = (y, m, d)" by (metis surj_pair)
  let ?f = "rev (dropWhile (\<lambda>c. c = CHR ''0'') (rev (pad_left 9 (show_int (t mod 1000000000)))))"
  let ?sod = "t div 1000000000 mod 86400"
  let ?b = "pad_left 4 (show_int y) @ ''-'' @ pad_left 2 (show_int m) @ ''-'' @
           pad_left 2 (show_int d) @ ''T'' @ pad_left 2 (show_int (?sod div 3600)) @ '':'' @
           pad_left 2 (show_int (?sod div 60 mod 60)) @ '':'' @ pad_left 2 (show_int (?sod mod 60)) @
           (if ?f = [] then [] else ''.'' @ ?f) @ ''Z''"
  have "s = [CHR 0x22] @ ?b @ [CHR 0x22]"
    using assms ymd by (auto simp: marshal_time_def Let_def split: if_splits)
  moreover have f: "\<forall>c \<in> set ?f. plain_char c"
    using plain_pad set_dropWhileD by fastforce
  have "\<forall>c \<in> set ?b. plain_char c"
    using plain_pad f by (auto simp: plain_char_def ascii_def byte_of_def)
  ultimately show ?thesis using that by blast
qed

lemma parse_timestamp: "\<exists>ts. parse_json (marshalTimestamp t) = Some ts \<and> json_ok ts \<and> json_depth ts = 0"
proof (cases "marshal_time t")
  case None
  then show ?thesis using parse_json_text [of JNull] by (simp add: marshalTimestamp_def)
next
  case (Some s)
  obtain b where b: "s = [CHR 0x22] @ b @ [CHR 0x22]" "\<forall>c \<in> set b. plain_char c"
    by (rule marshal_time_plain [OF Some])
  then have "s = json_text (JStr b)" using quote_string_plain by simp
  then show ?thesis using parse_json_text [of "JStr b"] utf8_valid_plain [OF b(2)] Some by (simp add: marshalTimestamp_def)
qed

lemma digits_val_show: "digits_val (show_nat n) = Some n"
  using show_nat_all_digits by (simp add: read_show_nat)

lemma int_literal_show: "int_literal (show_int i) = Some i"
proof (cases "i < 0")
  case True
  then show ?thesis using digits_val_show [of "nat (- i)"] by (simp add: int_literal_def show_int_def starts_def)
next
  case False
  have "hd (show_nat (nat i)) \<noteq> CHR ''-''"
    using show_nat_hd [of "nat i"] by (auto simp: is_digit_def in_range_def byte_of_def)
  then show ?thesis
    using False digits_val_show [of "nat i"] by (simp add: int_literal_def show_int_def starts_def del: digits_val.simps)
qed

lemma json_int_ok [simp]: "json_ok (json_int i)" "json_depth (json_int i) = 0"
  by (simp_all add: json_int_def int_literal_show)

lemma fold_max_le: "a \<le> n \<Longrightarrow> \<forall>x \<in> set xs. x \<le> n \<Longrightarrow> fold max xs a \<le> (n :: nat)"
  by (induction xs arbitrary: a) auto

lemma json_depth_obj: "\<forall>v \<in> snd ` set kvs. json_depth v \<le> n \<Longrightarrow> json_depth (JObj kvs) \<le> Suc n"
  by (force intro!: fold_max_le)

text \<open>An object of valid members.\<close>

definition obj_ok :: "nat \<Rightarrow> (string \<times> json) list \<Rightarrow> bool" where
  "obj_ok n kvs \<longleftrightarrow> (\<forall>(k, v) \<in> set kvs. utf8_valid k \<and> json_ok v \<and> json_depth v \<le> n)"

lemma obj_ok_simps [simp]:
  "obj_ok n []" "obj_ok n ((k, v) # kvs) \<longleftrightarrow> utf8_valid k \<and> json_ok v \<and> json_depth v \<le> n \<and> obj_ok n kvs"
  "obj_ok n (xs @ ys) \<longleftrightarrow> obj_ok n xs \<and> obj_ok n ys" "obj_ok n (sort_key f kvs) \<longleftrightarrow> obj_ok n kvs"
  by (auto simp: obj_ok_def)

lemma obj_ok_json: "obj_ok n kvs \<Longrightarrow> json_ok (JObj kvs) \<and> json_depth (JObj kvs) \<le> Suc n"
  using json_depth_obj [of kvs n] by (fastforce simp: obj_ok_def list_all_iff simp del: json_depth.simps)

lemma obj_ok_omit [simp]: "obj_ok n (omit_empty k v) \<longleftrightarrow> v = [] \<or> (utf8_valid k \<and> utf8_valid v)"
  by (simp add: omit_empty_def)

definition valid_request :: "build_payload service_event \<Rightarrow> bool" where
  "valid_request r \<longleftrightarrow> list_all utf8_valid [se_DeploymentID r, se_ProjectID r, se_ServiceID r, se_ServiceName r,
     se_UserID r, bp_ImageTag (se_Payload r), bp_CommitSHA (se_Payload r)]"

definition valid_target :: "deployment_target \<Rightarrow> bool" where
  "valid_target t \<longleftrightarrow> list_all utf8_valid [dt_Namespace t, dt_DeploymentName t, dt_ServiceName t, dt_IngressHost t]"

lemma literal_valid [simp]: "\<forall>c \<in> set s. ascii c \<Longrightarrow> utf8_valid s"
  by (rule utf8_valid_ascii)

lemma service_event_json_ok:
  assumes "service_event_json payload e = Some j" "\<exists>t. se_Timestamp e = marshalTimestamp t"
    and "json_ok (payload (se_Payload e)) \<and> json_depth (payload (se_Payload e)) \<le> 1"
    and "list_all utf8_valid [se_EventID e, se_EventType e, se_DeploymentID e, se_ProjectID e, se_ServiceID e,
      se_ServiceName e, se_UserID e]"
  shows "json_ok j \<and> json_depth j \<le> 2"
proof -
  obtain t where t: "se_Timestamp e = marshalTimestamp t" using assms(2) by blast
  obtain ts where ts: "parse_json (se_Timestamp e) = Some ts" "json_ok ts" "json_depth ts = 0"
    using parse_timestamp [of t] t by auto
  have "\<exists>kvs. j = JObj kvs \<and> obj_ok 1 kvs"
    using assms(1,3,4) ts by (auto simp: service_event_json_def ascii_def byte_of_def)
  then show ?thesis using obj_ok_json [of 1] by fastforce
qed

lemma succeeded_json_ok:
  assumes "marshal_any (SucceededEvent (newDeploySucceededEvent now r t)) = Inr j" "valid_request r" "valid_target t"
  shows "json_ok j \<and> json_depth j \<le> 2"
proof (rule service_event_json_ok)
  let ?e = "newDeploySucceededEvent now r t"
  show "service_event_json succeeded_payload_json ?e = Some j"
    using assms(1) by (auto simp: marshal_any_def split: option.splits)
  show "\<exists>t. se_Timestamp ?e = marshalTimestamp t" by (auto simp: newDeploySucceededEvent_def)
  have "\<exists>kvs. succeeded_payload_json (se_Payload ?e) = JObj kvs \<and> obj_ok 0 kvs"
    using assms(2,3) by (auto simp: succeeded_payload_json_def newDeploySucceededEvent_def valid_request_def
      valid_target_def ascii_def byte_of_def)
  then show "json_ok (succeeded_payload_json (se_Payload ?e)) \<and> json_depth (succeeded_payload_json (se_Payload ?e)) \<le> 1"
    using obj_ok_json [of 0] by fastforce
  show "list_all utf8_valid [se_EventID ?e, se_EventType ?e, se_DeploymentID ?e, se_ProjectID ?e, se_ServiceID ?e,
      se_ServiceName ?e, se_UserID ?e]"
    using assms(2) utf8_valid_plain [OF plain_hex]
    by (auto simp: newDeploySucceededEvent_def valid_request_def deploySucceededEventType_def ascii_def byte_of_def)
qed

lemma failed_json_ok:
  assumes "marshal_any (FailedEvent (newDeployFailedEvent now r t err)) = Inr j" "valid_request r" "valid_target t"
  shows "json_ok j \<and> json_depth j \<le> 2"
proof (rule service_event_json_ok)
  let ?e = "newDeployFailedEvent now r t err"
  show "service_event_json failed_payload_json ?e = Some j"
    using assms(1) by (auto simp: marshal_any_def split: option.splits)
  show "\<exists>t. se_Timestamp ?e = marshalTimestamp t" by (auto simp: newDeployFailedEvent_def)
  have "\<exists>kvs. failed_payload_json (se_Payload ?e) = JObj kvs \<and> obj_ok 0 kvs"
    using assms(2,3) failure_text_valid by (auto simp: failed_payload_json_def newDeployFailedEvent_def valid_request_def
      valid_target_def ascii_def byte_of_def)
  then show "json_ok (failed_payload_json (se_Payload ?e)) \<and> json_depth (failed_payload_json (se_Payload ?e)) \<le> 1"
    using obj_ok_json [of 0] by fastforce
  show "list_all utf8_valid [se_EventID ?e, se_EventType ?e, se_DeploymentID ?e, se_ProjectID ?e, se_ServiceID ?e,
      se_ServiceName ?e, se_UserID ?e]"
    using assms(2) utf8_valid_plain [OF plain_hex]
    by (auto simp: newDeployFailedEvent_def valid_request_def deployFailedEventType_def ascii_def byte_of_def)
qed

text \<open>The progress events that go with them, with all their metadata.\<close>

definition progress_ok :: "deployment_event \<Rightarrow> bool" where
  "progress_ok e \<longleftrightarrow> list_all utf8_valid [de_EventID e, de_DeploymentID e, de_ProjectID e, de_ServiceName e,
     de_EventType e, de_Status e] \<and> obj_ok 0 (map (\<lambda>(k, v). (k, meta_json v)) (de_Metadata e))"

lemma progress_json_ok:
  assumes "marshal_any (ProgressEvent e) = Inr j" "progress_ok e"
  shows "json_ok j \<and> json_depth j \<le> 2"
proof -
  obtain ts where ts: "marshal_time (de_Timestamp e) = Some ts"
    using assms(1) by (auto simp: marshal_any_def progress_json_def split: option.splits)
  obtain b where "ts = [CHR 0x22] @ b @ [CHR 0x22]" "\<forall>c \<in> set b. plain_char c"
    by (rule marshal_time_plain [OF ts])
  then have tv: "utf8_valid (butlast (tl ts))" using utf8_valid_plain by (simp add: butlast_append)
  have m: "json_ok (JObj (sort_key fst (map (\<lambda>(k, v). (k, meta_json v)) (de_Metadata e)))) \<and>
      json_depth (JObj (sort_key fst (map (\<lambda>(k, v). (k, meta_json v)) (de_Metadata e)))) \<le> 1"
    using obj_ok_json [of 0 "sort_key fst (map (\<lambda>(k, v). (k, meta_json v)) (de_Metadata e))"] assms(2)
    unfolding progress_ok_def by simp
  have "\<exists>kvs. j = JObj kvs \<and> obj_ok 1 kvs"
    using assms ts tv m
    by (auto simp: marshal_any_def progress_json_def progress_ok_def ascii_def byte_of_def
        simp del: json_ok.simps(6) json_depth.simps(2))
  then show ?thesis using obj_ok_json [of 1] by fastforce
qed

lemma result_progress_ok:
  assumes "valid_request r" "valid_target t"
  shows "progress_ok (newOrchestrationRunningEvent now r t)"
    and "utf8_valid (error_text err) \<Longrightarrow> progress_ok (newOrchestrationFailedEvent now r t err)"
  using assms utf8_valid_plain [OF plain_hex]
  by (auto simp: progress_ok_def newOrchestrationRunningEvent_def newOrchestrationFailedEvent_def target_metadata_def
      valid_request_def valid_target_def runningStatus_def deployFailedStatus_def ascii_def byte_of_def
      deploymentOrchestrationRunningType_def deploymentOrchestrationFailedType_def)

section \<open>The bundle\<close>

definition bundle_ok :: "deploy_result_events \<Rightarrow> bool" where
  "bundle_ok b \<longleftrightarrow> utf8_valid (ServiceRoutingKey b) \<and> utf8_valid (ProgressRoutingKey b) \<and>
     (case (ServiceEvent b, ProgressEvent_raw b) of
        (Some s, Some p) \<Rightarrow> json_ok s \<and> json_ok p \<and> json_depth s < 10000 \<and> json_depth p < 10000
      | _ \<Rightarrow> False)"

lemma bundle_round_trip:
  assumes "bundle_ok b"
  shows "unmarshal_bundle (json_text (bundle_json b)) = Inr b"
proof -
  obtain s p where sp: "ServiceEvent b = Some s" "ProgressEvent_raw b = Some p"
    using assms by (auto simp: bundle_ok_def split: option.splits)
  have "\<exists>kvs. bundle_json b = JObj kvs \<and> obj_ok 9999 kvs"
    using assms sp by (auto simp: bundle_json_def raw_json_def bundle_ok_def ascii_def byte_of_def)
  then have "json_ok (bundle_json b) \<and> json_depth (bundle_json b) \<le> 10000"
    using obj_ok_json [of 9999] by fastforce
  then have "parse_json (json_text (bundle_json b)) = Some (bundle_json b)" by (simp add: parse_json_text)
  then show ?thesis
    using sp by (cases b) (simp add: unmarshal_bundle_def unmarshal_into_def bundle_json_def store_object_def raw_json_def
      store_bundle_def same_key_ascii ascii_def byte_of_def fold_rune_def in_range_def set_string_def zero_bundle_def)
qed

end
