(* ===== verification/Delivery.thy ===== *)
theory Delivery
  imports Sample Ledger_Contract Event_Props
begin

text \<open>
  The properties of one delivery (\<open>processDelivery\<close> and \<open>handleMessage\<close> of \<open>consumer.go\<close>), proved from the
  protocol of \<open>Consumer_Protocol\<close>: it is settled once, no message is lost, results are stored before
  they are published, nothing is deployed without a claim, finished stages are replayed, busy
  leases are not counted, retries are bounded and go to declared queues.
\<close>

section \<open>The calls of one delivery\<close>

definition handled :: "'e deploy_consumer \<Rightarrow> string \<Rightarrow> 'e world \<Rightarrow> effect list" where
  "handled c body w = drop (length (log w)) (log (snd (handleMessage c body w)))"

definition delivered :: "'e deploy_consumer \<Rightarrow> 'e delivery \<Rightarrow> 'e world \<Rightarrow> effect list" where
  "delivered c msg w = drop (length (log w)) (log (processDelivery c msg w))"

lemma handled_run: "message_run c body (handled c body w) (fst (fst (handleMessage c body w)))"
  using handleMessage_run [of c body w] unfolding handled_def
  by (metis append_eq_conv_conj prod.collapse)

lemma delivered_run: "delivery_run c msg (delivered c msg w)"
  using processDelivery_run [of c msg w] unfolding delivered_def by (metis append_eq_conv_conj)

text \<open>C2. The handler keeps to its protocol: the calls it makes for a message, and the action it returns,
  are a run of \<open>message_run\<close>, and whenever it does not acknowledge it returns an error.\<close>

theorem handler_refines_protocol:
  "log (snd (handleMessage c body w)) = log w @ handled c body w \<and>
   message_run c body (handled c body w) (fst (fst (handleMessage c body w))) \<and>
   (da_ack (fst (fst (handleMessage c body w))) \<or> (\<exists>err. snd (fst (handleMessage c body w)) = Some err))"
proof -
  obtain act err w' where h: "handleMessage c body w = ((act, err), w')" by (metis surj_pair)
  from handleMessage_run [OF h] show ?thesis using h by (auto simp: handled_def)
qed

text \<open>C1. A delivery keeps to its protocol: the handler's run, then the retry or dead-letter calls that
  its action asks for, then the settlement.\<close>

theorem delivery_refines_protocol:
  "log (processDelivery c msg w) = log w @ delivered c msg w \<and> delivery_run c msg (delivered c msg w)"
  using processDelivery_run [of c msg w] by (auto simp: delivered_def)

text \<open>The ways to follow a script, one call at a time.\<close>

lemma follows_Cons_iff:
  "follows (f # fs) t ok \<longleftrightarrow> (t = [] \<and> \<not> ok) \<or> (\<exists>u. t = f None # u \<and> follows fs u ok) \<or>
     (\<exists>e. t = [f (Some e)] \<and> \<not> ok)"
  by (cases t) auto

fun is_settlement :: "effect \<Rightarrow> bool" where
  "is_settlement (Acked r) = True"
| "is_settlement (Nacked b r) = True"
| "is_settlement _ = False"

lemmas run_defs = finish_success_def finish_failure_def success_script_def failure_script_def
  replay_script_def counted_script_def pending_note_def started_note_def deployed_note_def
  retrying_note_def retry_note_def dead_note_def Let_def

declare follows.simps(2,3) [simp del]

lemmas trace_simps = run_defs follows_Cons_iff

text \<open>The calls that only \<open>processDelivery\<close> makes; the handler makes none of them.\<close>

fun delivery_call :: "effect \<Rightarrow> bool" where
  "delivery_call (PublishedCopy q p r) = True"
| "delivery_call (ReleasedStage dep r) = True"
| "delivery_call x = is_settlement x"

lemma finish_success_delivery: "finish_success c x dep evs t act \<Longrightarrow> filter delivery_call t = []"
  by (auto simp: trace_simps split: if_splits)

lemma finish_failure_delivery: "finish_failure c x dep evs t act \<Longrightarrow> filter delivery_call t = []"
  by (auto simp: trace_simps split: if_splits)

lemma await_run_delivery: "await_run c event target t act \<Longrightarrow> filter delivery_call t = []"
  by (erule await_run.cases)
    (auto simp: pending_note_def follows_Cons_iff dest: finish_success_delivery finish_failure_delivery)

lemma stage_run_delivery: "stage_run c event request target t act \<Longrightarrow> filter delivery_call t = []"
  by (erule stage_run.cases)
    (auto simp: started_note_def deployed_note_def follows_Cons_iff
      dest: finish_failure_delivery await_run_delivery)

lemma message_run_delivery: "message_run c body t act \<Longrightarrow> filter delivery_call t = []"
  by (erule message_run.cases)
    (auto simp: replay_script_def follows_Cons_iff elim!: replay_run.cases dest: stage_run_delivery)

lemma no_settlement: "filter delivery_call t = [] \<Longrightarrow> filter is_settlement t = []"
proof -
  have "is_settlement x \<Longrightarrow> delivery_call x" for x by (cases x) simp_all
  then show "filter delivery_call t = [] \<Longrightarrow> filter is_settlement t = []" by (auto simp: filter_empty_conv)
qed

lemmas message_run_no_settlement = message_run_delivery [THEN no_settlement]

lemma retry_run_no_settlement: "retry_run c msg event err count t ok \<Longrightarrow> filter is_settlement t = []"
  by (erule retry_run.cases)
    (auto simp: counted_script_def retrying_note_def retry_note_def dead_note_def follows_Cons_iff
      dest: finish_failure_delivery [THEN no_settlement] split: if_splits)

text \<open>C15. A delivery is settled exactly once, and last: whatever the ledger, the cluster, the broker
  and the clock answer, the calls of \<open>processDelivery\<close> end with one acknowledgement or one negative
  acknowledgement, and no call before it is one.\<close>

theorem settled_once:
  "\<exists>s. delivered c msg w = filter (\<lambda>x. \<not> is_settlement x) (delivered c msg w) @ [s] \<and> is_settlement s"
  using delivered_run [of c msg w]
  by (cases rule: delivery_run.cases)
    (auto simp: dead_note_def follows_Cons_iff filter_empty_conv
      dest!: message_run_no_settlement retry_run_no_settlement)

section \<open>No message is lost\<close>

definition result_published :: "effect list \<Rightarrow> bool" where
  "result_published t \<longleftrightarrow> (\<exists>u x ex rk s ex' rk' p.
     t = u @ [PublishedEvent x ex rk s None, PublishedProgress x ex' rk' p None])"

definition pending_published :: "'e deploy_consumer \<Rightarrow> effect list \<Rightarrow> bool" where
  "pending_published c t \<longleftrightarrow> (\<exists>u x now event target err. t = u @ [pending_note c x now event target err None])"

definition copy_kept :: "'e deploy_consumer \<Rightarrow> 'e delivery \<Rightarrow> effect list \<Rightarrow> bool" where
  "copy_kept c msg t \<longleftrightarrow> (\<exists>q h. PublishedCopy q (copy_of msg h) None \<in> set t \<and>
     (q = DLQ (dc_cfg c) \<or> (\<exists>a. q = retry_queue (dc_cfg c) (retry_index (dc_cfg c) a))))"

lemma finish_success_published: "finish_success c x dep evs t act \<Longrightarrow> da_ack act \<Longrightarrow> result_published (u @ t)"
  unfolding result_published_def by (simp add: run_defs follows_done)

lemma finish_failure_published: "finish_failure c x dep evs t act \<Longrightarrow> da_ack act \<Longrightarrow> result_published (u @ t)"
  unfolding result_published_def by (simp add: run_defs follows_done)

lemma await_run_published:
  "await_run c event target t act \<Longrightarrow> da_ack act \<Longrightarrow> result_published (u @ t) \<or> pending_published c (u @ t)"
proof (induction rule: await_run.induct)
  case (ready x now t act)
  then show ?case using finish_success_published [where u = "u @ [Waited x target None]"] by fastforce
next
  case (ready_late r now y t act x err)
  then show ?case
    using finish_success_published [where u = "u @ [Waited x target (Some err), Waited y target r]"] by fastforce
next
  case (pending r z now err t act x y)
  then have "u @ Waited x target (Some err) # Waited y target r # t =
    (u @ [Waited x target (Some err), Waited y target r]) @ [pending_note c z now event target err None]"
    by (simp add: follows_done)
  then show ?case unfolding pending_published_def by blast
next
  case (failed err err' y now t act x)
  then show ?case using finish_failure_published [where u = "u @ [Waited x target (Some err)]"] by fastforce
qed simp

lemma stage_run_published:
  "stage_run c event request target t act \<Longrightarrow> da_ack act \<Longrightarrow> result_published (u @ t) \<or> pending_published c (u @ t)"
proof (induction rule: stage_run.induct)
  case (failed err y now' t act tg x now)
  then show ?case
    using finish_failure_published [where u = "u @ [started_note c x now event None, Deployed request (tg, Some err)]"]
    by fastforce
next
  case (awaited tg t act x now y now')
  then show ?case
    using await_run_published [where u = "u @ [started_note c x now event None, Deployed request (tg, None),
      deployed_note c y now' event tg None]"] by fastforce
qed simp_all

lemma replay_run_published: "replay_run c raw t act \<Longrightarrow> da_ack act \<Longrightarrow> result_published (u @ t)"
  unfolding result_published_def replay_run.simps by (auto simp: replay_script_def follows_done)

lemma message_run_published:
  "message_run c body t act \<Longrightarrow> da_ack act \<Longrightarrow> result_published t \<or> pending_published c t"
proof (induction rule: message_run.induct)
  case (replay event request target d r t act)
  then show ?case using replay_run_published [where u = "[Claimed (se_DeploymentID event) (d, r, None)]"] by fastforce
next
  case (claimed event request target t act r)
  then show ?case
    using stage_run_published [where u = "[Claimed (se_DeploymentID event) (ClaimAcquired, r, None)]"] by fastforce
next
  case (no_ledger event request target t act)
  then show ?case using stage_run_published [where u = "[]"] by fastforce
qed simp_all

lemma retry_run_kept: "retry_run c msg event err count t True \<Longrightarrow> copy_kept c msg (u @ t)"
  by (erule retry_run.cases)
    (auto simp: copy_kept_def follows_done dead_note_def counted_script_def retry_note_def)

text \<open>C3. No message is lost: a delivery that is acknowledged has just had both of its result events
  published without an error, or the event that its rollout is pending, or else a copy of it was
  published without an error to the dead-letter queue or a retry queue.\<close>

theorem no_message_lost:
  "(\<exists>t b r. delivered c msg w = t @ [Nacked b r]) \<or>
   (\<exists>t r. delivered c msg w = t @ [Acked r] \<and>
     (result_published t \<or> pending_published c t \<or> copy_kept c msg t))"
  using delivered_run [of c msg w]
proof (cases rule: delivery_run.cases)
  case (acked t act r)
  then show ?thesis using message_run_published by blast
next
  case (retried t event request target err u r)
  then show ?thesis using retry_run_kept [of c msg event err _ u t] by fastforce
next
  case (buried t err u r)
  then have "copy_kept c msg (t @ u)" by (auto simp: copy_kept_def follows_done dead_note_def)
  then show ?thesis using buried by fastforce
next
  case (requeued t event request target err u r)
  then show ?thesis by (metis append.assoc)
next
  case (dropped t err u r)
  then show ?thesis by (metis append.assoc)
next
  case (channel_nil t act r)
  then show ?thesis by blast
qed

section \<open>Results are stored before they are published\<close>

text \<open>
  A walk over the calls that remembers the bundle last stored without an error. A result event that
  the consumer makes itself must be in that bundle, with its routing key.
\<close>

definition bundled :: "deploy_result_events option \<Rightarrow> string \<Rightarrow> event_any \<Rightarrow> bool" where
  "bundled b rk ev \<longleftrightarrow> (case (b, marshal_any ev) of
     (Some b, Inr j) \<Rightarrow> ServiceEvent b = Some j \<and> ServiceRoutingKey b = rk
   | _ \<Rightarrow> False)"

fun is_stored :: "event_any \<Rightarrow> bool" where
  "is_stored (StoredEvent j) = True"
| "is_stored _ = False"

fun stored_first :: "deploy_result_events option \<Rightarrow> effect list \<Rightarrow> bool" where
  "stored_first b [] = True"
| "stored_first b (CompletedStage x dep b' r # t) = stored_first (if r = None then Some b' else None) t"
| "stored_first b (FailedStage x dep b' r # t) = stored_first (if r = None then Some b' else None) t"
| "stored_first b (PublishedEvent x ex rk ev r # t) \<longleftrightarrow> (is_stored ev \<or> bundled b rk ev) \<and> stored_first b t"
| "stored_first b (_ # t) = stored_first b t"

lemma bundle_has_event:
  "makeDeployResultEvents sk se pk pe = (b, None) \<Longrightarrow> bundled (Some b) sk se"
  by (auto simp: makeDeployResultEvents_def bundled_def split: sum.splits)

lemma success_bundled: "snd (success_bundle cfg evs) = None \<Longrightarrow>
    bundled (Some (fst (success_bundle cfg evs))) (DeploySucceededRoutingKey cfg) (fst evs)"
  unfolding success_bundle_def by (metis bundle_has_event case_prod_unfold prod.collapse)

lemma failure_bundled: "snd (failure_bundle cfg evs) = None \<Longrightarrow>
    bundled (Some (fst (failure_bundle cfg evs))) (DeployFailedRoutingKey cfg) (fst evs)"
  unfolding failure_bundle_def by (metis bundle_has_event case_prod_unfold prod.collapse)

lemma stored_first_append: "(\<And>b. stored_first b u) \<Longrightarrow> stored_first b (t @ u) = stored_first b t"
  by (induction b t rule: stored_first.induct) auto

lemma finish_success_stored:
  "finish_success c x dep evs t act \<Longrightarrow> dc_ledger c \<noteq> None \<Longrightarrow> stored_first b t"
  by (auto simp: trace_simps intro: success_bundled)

lemma finish_failure_stored:
  "finish_failure c x dep evs t act \<Longrightarrow> dc_ledger c \<noteq> None \<Longrightarrow> stored_first b t"
  by (auto simp: trace_simps intro: failure_bundled)

lemma await_run_stored: "await_run c event target t act \<Longrightarrow> dc_ledger c \<noteq> None \<Longrightarrow> stored_first b t"
  by (erule await_run.cases)
    (auto simp: pending_note_def follows_Cons_iff dest: finish_success_stored finish_failure_stored)

lemma stage_run_stored: "stage_run c event request target t act \<Longrightarrow> dc_ledger c \<noteq> None \<Longrightarrow> stored_first b t"
  by (erule stage_run.cases)
    (auto simp: started_note_def deployed_note_def follows_Cons_iff dest: finish_failure_stored await_run_stored)

lemma message_run_stored: "message_run c body t act \<Longrightarrow> dc_ledger c \<noteq> None \<Longrightarrow> stored_first b t"
  by (erule message_run.cases)
    (auto simp: replay_script_def follows_Cons_iff elim!: replay_run.cases dest: stage_run_stored)

lemma retry_run_stored: "retry_run c msg event err count t ok \<Longrightarrow> dc_ledger c \<noteq> None \<Longrightarrow> stored_first b t"
  by (erule retry_run.cases)
    (auto simp: counted_script_def retrying_note_def retry_note_def dead_note_def follows_Cons_iff
      stored_first_append dest: finish_failure_stored)


section \<open>One deployment, and only under a claim\<close>

fun is_deploy :: "effect \<Rightarrow> bool" where
  "is_deploy (Deployed request r) = True"
| "is_deploy _ = False"

lemma finish_success_no_deploy: "finish_success c x dep evs t act \<Longrightarrow> filter is_deploy t = []"
  by (auto simp: trace_simps split: if_splits)

lemma finish_failure_no_deploy: "finish_failure c x dep evs t act \<Longrightarrow> filter is_deploy t = []"
  by (auto simp: trace_simps split: if_splits)

lemma await_run_no_deploy: "await_run c event target t act \<Longrightarrow> filter is_deploy t = []"
  by (erule await_run.cases)
    (auto simp: pending_note_def follows_Cons_iff dest: finish_success_no_deploy finish_failure_no_deploy)

lemma retry_run_no_deploy: "retry_run c msg event err count t ok \<Longrightarrow> filter is_deploy t = []"
  by (erule retry_run.cases)
    (auto simp: counted_script_def retrying_note_def retry_note_def dead_note_def follows_Cons_iff
      dest: finish_failure_no_deploy split: if_splits)

text \<open>The calls before the one deployment of a run, and none after it.\<close>

definition deploys_once ::
  "'e deploy_consumer \<Rightarrow> build_payload service_event \<Rightarrow> deploy_request \<Rightarrow> effect list \<Rightarrow> effect list \<Rightarrow> bool" where
  "deploys_once c event request p t \<longleftrightarrow> (\<exists>x now r u.
     t = p @ [started_note c x now event None, Deployed request r] @ u \<and> filter is_deploy u = [])"

lemma stage_run_deploys:
  "stage_run c event request target t act \<Longrightarrow>
   filter is_deploy t = [] \<or> deploys_once c event request [] t"
proof (induction rule: stage_run.induct)
  case (not_started x now t)
  then show ?case by (auto simp: started_note_def follows_Cons_iff)
next
  case (retry err tg x now)
  then show ?case unfolding deploys_once_def by fastforce
next
  case (failed err y now' t act tg x now)
  then show ?case unfolding deploys_once_def using finish_failure_no_deploy by fastforce
next
  case (not_announced y now' tg t x now)
  then have "filter is_deploy t = []" by (auto simp: deployed_note_def follows_Cons_iff)
  then show ?case unfolding deploys_once_def by fastforce
next
  case (awaited tg t act x now y now')
  then have "filter is_deploy (deployed_note c y now' event tg None # t) = []"
    using await_run_no_deploy by (auto simp: deployed_note_def)
  then show ?case unfolding deploys_once_def by fastforce
qed

definition claim_part :: "'e deploy_consumer \<Rightarrow> build_payload service_event \<Rightarrow> effect list \<Rightarrow> bool" where
  "claim_part c event p \<longleftrightarrow> (if dc_ledger c = None then p = []
     else \<exists>r. p = [Claimed (se_DeploymentID event) (ClaimAcquired, r, None)])"

lemma message_run_deploys:
  "message_run c body t act \<Longrightarrow> filter is_deploy t = [] \<or>
   (\<exists>event request target p. accepted c body = Some (event, request, target) \<and> claim_part c event p \<and>
      deploys_once c event request p t)"
proof (induction rule: message_run.induct)
  case (replay event request target d r t act)
  then show ?case by (auto simp: replay_script_def follows_Cons_iff elim!: replay_run.cases)
next
  case (claimed event request target t act r)
  from stage_run_deploys [OF claimed(3)] show ?case
  proof
    assume "deploys_once c event request [] t"
    then have "deploys_once c event request [Claimed (se_DeploymentID event) (ClaimAcquired, r, None)]
      (Claimed (se_DeploymentID event) (ClaimAcquired, r, None) # t)"
      by (auto simp: deploys_once_def)
    then show ?thesis using claimed(1,2) unfolding claim_part_def by (metis (no_types, lifting))
  qed simp
next
  case (no_ledger event request target t act)
  then show ?case using stage_run_deploys unfolding claim_part_def by (metis (no_types, lifting))
qed simp_all

lemma deploys_once_append:
  "deploys_once c event request p t \<Longrightarrow> filter is_deploy u = [] \<Longrightarrow> deploys_once c event request p (t @ u)"
  unfolding deploys_once_def by (metis append.assoc append_Nil filter_append)

text \<open>C5. A delivery calls \<open>Deploy\<close> at most once, with the request built from its event, right after the
  start of the orchestration was announced without an error; with a ledger, only after the claim of the stage was
  acquired without an error, and as its first calls.\<close>

theorem deploys_only_under_claim:
  "filter is_deploy (delivered c msg w) = [] \<or>
   (\<exists>event request target p. accepted c (dl_Body msg) = Some (event, request, target) \<and>
      claim_part c event p \<and> deploys_once c event request p (delivered c msg w))"
proof -
  obtain t act u where t: "delivered c msg w = t @ u" "message_run c (dl_Body msg) t act" "filter is_deploy u = []"
  proof -
    show ?thesis
      using delivered_run [of c msg w]
    proof (cases rule: delivery_run.cases)
      case (retried t event request target err u r)
      then show ?thesis using that [of t "u @ [Acked r]"] retry_run_no_deploy by fastforce
    next
      case (requeued t event request target err u r)
      then show ?thesis using that [of t "u @ [Nacked True r]"] retry_run_no_deploy by fastforce
    next
      case (buried t err u r)
      then show ?thesis using that [of t "u @ [Acked r]"] by (auto simp: dead_note_def follows_Cons_iff)
    next
      case (dropped t err u r)
      then show ?thesis using that [of t "u @ [Nacked False r]"] by (auto simp: dead_note_def follows_Cons_iff)
    qed (use that in fastforce)+
  qed
  from message_run_deploys [OF t(2)] show ?thesis
    using t(1,3) deploys_once_append by fastforce
qed

section \<open>Answers of the ledger\<close>

text \<open>What the ledger answers to the claim of a message.\<close>

definition claim_answer ::
  "'e deploy_consumer \<Rightarrow> build_payload service_event \<Rightarrow> 'e world \<Rightarrow> (claim_disposition \<times> stage_record \<times> go_error option) option" where
  "claim_answer c event w = (case dc_ledger c of None \<Rightarrow> None
     | Some l \<Rightarrow> Some (fst (sl_Claim l background (se_DeploymentID event) ''orchestration''
         (LeaseDuration (dc_cfg c)) (w_ext w))))"

lemma claim_stage_cases:
  assumes "claim_answer c event w = Some a"
  obtains w1 where "log w1 = log w @ [Claimed (se_DeploymentID event) a]"
    "claim_stage c event request target w =
      (case a of
         (d, r, Some err) \<Rightarrow> ((actionNackRequeue, Some (WrapError ''claim orchestration stage: '' err)), w1)
       | (d, r, None) \<Rightarrow> if d = ClaimCompleted \<or> d = ClaimFailed then publishStored c (sr_ResultJSON r) w1
           else if d = ClaimBusy then ((actionNackRequeue, Some OrchestrationLeaseBusy), w1)
           else run_stage c event request target w1)"
proof -
  obtain l where l: "dc_ledger c = Some l" using assms by (auto simp: claim_answer_def split: option.splits)
  obtain e where e: "sl_Claim l background (se_DeploymentID event) ''orchestration''
      (LeaseDuration (dc_cfg c)) (w_ext w) = (a, e)"
    using assms l by (auto simp: claim_answer_def prod_eq_iff)
  obtain w1 where w1: "call c None (Claimed (se_DeploymentID event))
      (sl_Claim l background (se_DeploymentID event) ''orchestration'' (LeaseDuration (dc_cfg c))) w = (a, w1)"
    by (auto simp: call_def e)
  obtain d r eo where a: "a = (d, r, eo)" by (cases a)
  show ?thesis
    using that [of w1] call_log [OF w1] unfolding claim_stage_def l option.case w1 a by simp
qed


lemma simple_claim_answer:
  "claim_answer (simple_consumer d) sample_event w = Some (d, zero_record, None)"
  by (simp add: claim_answer_def sample_ledger_def)


lemma success_bundle_reads:
  assumes "valid_request event" "valid_target target" "marshal_time now \<noteq> None"
    and "utf8_valid (DeploySucceededRoutingKey cfg)" "utf8_valid (OrchestrationRunningRoutingKey cfg)"
  shows "\<exists>s p b. success_bundle cfg (success_events now event target) = (b, None) \<and>
     marshal_any (fst (success_events now event target)) = Inr s \<and>
     marshal_any (snd (success_events now event target)) = Inr p \<and>
     unmarshal_bundle (json_text (bundle_json b)) = Inr b \<and>
     ServiceRoutingKey b = DeploySucceededRoutingKey cfg \<and> unmarshal_any (ServiceEvent b) = Inr (norm_any s) \<and>
     ProgressRoutingKey b = OrchestrationRunningRoutingKey cfg \<and> unmarshal_any (ProgressEvent_raw b) = Inr (norm_any p)"
proof -
  let ?s = "newDeploySucceededEvent now event target" let ?p = "newOrchestrationRunningEvent now event target"
  obtain s where s: "marshal_any (SucceededEvent ?s) = Inr s"
    using parse_timestamp [of now] by (auto simp: marshal_any_def service_event_json_def newDeploySucceededEvent_def)
  obtain p where p: "marshal_any (ProgressEvent ?p) = Inr p"
    using assms(3) by (auto simp: marshal_any_def progress_json_def newOrchestrationRunningEvent_def)
  define b where "b = \<lparr>ServiceRoutingKey = DeploySucceededRoutingKey cfg, ServiceEvent = Some s,
    ProgressRoutingKey = OrchestrationRunningRoutingKey cfg, ProgressEvent_raw = Some p\<rparr>"
  have "bundle_ok b"
    using succeeded_json_ok [OF s assms(1,2)] progress_json_ok [OF p result_progress_ok(1) [OF assms(1,2)]] assms(4,5)
    by (simp add: bundle_ok_def b_def)
  then show ?thesis
    using s p bundle_round_trip [of b]
    by (auto simp: success_bundle_def success_events_def makeDeployResultEvents_def b_def unmarshal_any_def)
qed

text \<open>C11. What a success stores can be replayed: the stored text reads back as the bundle that was made
  from the two events, and its members as the JSON of the events (as Go maps: keys sorted).\<close>

theorem stored_success_reads_back:
  assumes "valid_request event" "valid_target target" "marshal_time now \<noteq> None"
    and "utf8_valid (DeploySucceededRoutingKey cfg)" "utf8_valid (OrchestrationRunningRoutingKey cfg)"
  shows "\<exists>s p b. success_bundle cfg (success_events now event target) = (b, None) \<and>
     marshal_any (fst (success_events now event target)) = Inr s \<and>
     marshal_any (snd (success_events now event target)) = Inr p \<and>
     unmarshal_bundle (json_text (bundle_json b)) = Inr b \<and>
     ServiceRoutingKey b = DeploySucceededRoutingKey cfg \<and> unmarshal_any (ServiceEvent b) = Inr (norm_any s) \<and>
     ProgressRoutingKey b = OrchestrationRunningRoutingKey cfg \<and> unmarshal_any (ProgressEvent_raw b) = Inr (norm_any p)"
  using assms by (rule success_bundle_reads)

theorem stored_success_reads_back_witness:
  "\<exists>b. success_bundle sample_config (success_events 0 sample_event sample_target) = (b, None) \<and>
     unmarshal_bundle (json_text (bundle_json b)) = Inr b"
proof -
  have "civil_of_days 0 = (1970, 1, 1)" by code_simp
  then have "marshal_time 0 \<noteq> None" by (simp only: marshal_time_def Let_def div_0 case_prod_conv) simp
  moreover have "valid_request sample_event" "valid_target sample_target"
    "utf8_valid (DeploySucceededRoutingKey sample_config)" "utf8_valid (OrchestrationRunningRoutingKey sample_config)"
    by (simp_all add: valid_request_def valid_target_def sample_event_def sample_target_def sample_config_def
        zero_event_def ascii_def byte_of_def)
  ultimately show ?thesis using stored_success_reads_back [of sample_event sample_target 0 sample_config] by blast
qed

text \<open>When another worker holds the lease, the message goes back to a retry queue with the
  attempt it had. Nothing is deployed, no retry is announced and the claim of the other worker is not released;
  the delivery is acknowledged exactly when the copy was published.\<close>

theorem busy_lease_is_not_counted:
  assumes "accepted c (dl_Body msg) = Some (event, request, target)" "dc_ch c"
    and "claim_answer c event w = Some (ClaimBusy, r, None)"
    and "sint (deployHeaderAttempt (dl_Headers msg)) < sint (MaxAttempts (dc_cfg c))"
  shows "\<exists>t ok s. delivered c msg w = Claimed (se_DeploymentID event) (ClaimBusy, r, None) # t @ [s] \<and>
     follows [retry_note c msg (Some OrchestrationLeaseBusy) (deployHeaderAttempt (dl_Headers msg))] t ok \<and>
     (if ok then s \<in> range Acked else s \<in> range (Nacked True))"
proof -
  obtain w1 where w1: "log w1 = log w @ [Claimed (se_DeploymentID event) (ClaimBusy, r, None)]"
    "claim_stage c event request target w = ((actionNackRequeue, Some OrchestrationLeaseBusy), w1)"
    by (auto intro: claim_stage_cases [OF assms(3), where request = request and target = target])
  obtain res w2 where 2: "scheduleRetry c msg (Some OrchestrationLeaseBusy) False w1 = (res, w2)" by fastforce
  from scheduleRetry_run [OF 2 accepted_event [OF assms(1)]] obtain t where t: "log w2 = log w1 @ t"
    "retry_run c msg event OrchestrationLeaseBusy False t (res = None)" by blast
  have f: "follows [retry_note c msg (Some OrchestrationLeaseBusy) (deployHeaderAttempt (dl_Headers msg))] t (res = None)"
    using t(2) assms(4) by (auto elim!: retry_run.cases simp: next_attempt_def)
  have "processDelivery c msg w = (if res = None then ack c msg w2 else nack c msg True w2)"
    using handleMessage_accepted [OF assms(1)] w1(2) 2 assms(2)
    by (auto simp: processDelivery_def)
  then show ?thesis
    using ack_log [of c msg w2] nack_log [of c msg True w2] t(1) w1(1) f
    by (cases "res = None") (fastforce simp: delivered_def)+
qed

theorem busy_lease_is_not_counted_witness:
  "\<exists>t ok s. delivered (simple_consumer ClaimBusy) sample_delivery (world_at 0) =
       Claimed ''d1'' (ClaimBusy, zero_record, None) # t @ [s] \<and>
     follows [retry_note (simple_consumer ClaimBusy) sample_delivery (Some OrchestrationLeaseBusy) 0] t ok \<and>
     (if ok then s \<in> range Acked else s \<in> range (Nacked True))"
  using busy_lease_is_not_counted [of "simple_consumer ClaimBusy" sample_delivery sample_event sample_request
    sample_target "world_at 0" zero_record]
  by (simp add: sample_accepted simple_claim_answer)

section \<open>Over a ledger that keeps its contract\<close>

lemma handled_claim:
  assumes "accepted c body = Some (event, request, target)" "claim_answer c event w = Some a"
  shows "\<exists>t. handled c body w = Claimed (se_DeploymentID event) a # t"
proof -
  obtain w1 where w1: "log w1 = log w @ [Claimed (se_DeploymentID event) a]"
    "claim_stage c event request target w =
      (case a of
         (d, r, Some err) \<Rightarrow> ((actionNackRequeue, Some (WrapError ''claim orchestration stage: '' err)), w1)
       | (d, r, None) \<Rightarrow> if d = ClaimCompleted \<or> d = ClaimFailed then publishStored c (sr_ResultJSON r) w1
           else if d = ClaimBusy then ((actionNackRequeue, Some OrchestrationLeaseBusy), w1)
           else run_stage c event request target w1)"
    by (rule claim_stage_cases [OF assms(2), where request = request and target = target])
  obtain act err w2 where 2: "handleMessage c body w = ((act, err), w2)" by (metis surj_pair)
  obtain d r eo where a: "a = (d, r, eo)" by (cases a)
  have "\<exists>t. log w2 = log w1 @ t"
    using 2 handleMessage_accepted [OF assms(1)] w1(2) run_stage_run [of c event request target w1 act err w2]
      publishStored_run [of c "sr_ResultJSON r" w1 act err w2]
    by (auto simp: a split: option.splits if_splits)
  then show ?thesis using w1(1) 2 by (auto simp: handled_def)
qed

fun is_publication :: "effect \<Rightarrow> bool" where
  "is_publication (PublishedEvent x ex rk ev r) = True"
| "is_publication (PublishedProgress x ex rk ev r) = True"
| "is_publication _ = False"

context stage_ledger_laws
begin

lemma finished_stage_not_deployed:
  assumes l: "dc_ledger c = Some ledger" and a: "accepted c body = Some (event, request, target)"
    and fin: "result_of (w_ext w) (se_DeploymentID event) = Some v"
  shows "filter is_deploy (handled c body w) = []"
proof -
  obtain disp rec eo e' where cl: "sl_Claim ledger background (se_DeploymentID event) ''orchestration''
      (LeaseDuration (dc_cfg c)) (w_ext w) = ((disp, rec, eo), e')" by (metis surj_pair)
  then have ans: "claim_answer c event w = Some (disp, rec, eo)" by (simp add: claim_answer_def l)
  obtain t where t: "handled c body w = Claimed (se_DeploymentID event) (disp, rec, eo) # t"
    using handled_claim [OF a ans] by blast
  have na: "\<not> (disp = ClaimAcquired \<and> eo = None)" using claim_not_acquired [OF fin] cl by blast
  have "\<not> deploys_once c event request p (handled c body w)" if "claim_part c event p" for p
    using that na t l by (auto simp: claim_part_def deploys_once_def)
  then show ?thesis using message_run_deploys [OF handled_run [of c body w]] a by auto
qed

lemma late_success_not_stored:
  assumes l: "dc_ledger c = Some ledger" "dc_now c = clock"
    and wait: "wait_rollout c rn (timeout_ctx c w (15 * second)) target w = (r, w1)" and ready: "rollout_ready c r"
    and run: "rollout_timed_out c rn event target err w = ((act, res), w')"
  shows "act = actionNackRequeue \<and> filter is_publication (drop (length (log w)) (log w')) = []"
proof -
  define y where "y = cancel (dc_now c (w_ext w1)) (timeout_ctx c w (15 * second))"
  define evs where "evs = success_events (dc_now c (w_ext w1)) event target"
  obtain err' where dn: "ctx_err (clock (w_ext w1)) y = Some err'"
    using ctx_err_cancel [of "clock (w_ext w1)"] unfolding y_def l(2) by blast
  have pr: "publishRolloutSuccess c rn event target y w1 = ((act, res), w')"
    using run ready wait unfolding rollout_timed_out_def Let_def rollout_ready_def y_def by auto
  have cmp: "fst (ledger_Complete c rn y (se_DeploymentID event) b w1) = Some err'" for b
    by (simp add: ledger_Complete_def l(1) call_def complete_done_ctx [OF dn])
  obtain b me where b: "success_bundle (dc_cfg c) evs = (b, me)" by fastforce
  obtain w2 where w2: "ledger_Complete c rn y (se_DeploymentID event) b w1 = (Some err', w2)"
    using cmp [of b] by (metis prod.collapse)
  have "act = actionNackRequeue \<and> (w' = w1 \<or> w' = w2)"
    using pr b w2
    by (cases me) (auto simp: publishRolloutSuccess_def Let_def evs_def success_events_def success_bundle_def)
  moreover have "log w1 = log w @ [Waited (timeout_ctx c w (15 * second)) target r]"
    using wait_rollout_log [OF wait] .
  moreover have "log w2 = log w1 @ [CompletedStage y (se_DeploymentID event) b (Some err')]"
    using w2 by (auto simp: ledger_Complete_def l(1) dest!: call_log)
  ultimately show ?thesis by auto
qed

end

text \<open>C27. With PostgreSQL behind the ledger, a message of a deployment whose stage is finished never
  reaches the cluster, whatever the server and everything else answer.\<close>

theorem finished_deployment_not_redeployed:
  assumes "dc_ledger c = Some (beside postgresLedger)" "accepted c body = Some (event, request, target)"
    and "pg_rows (snd (w_ext w)) (se_DeploymentID event, ''orchestration'') = Some r"
    and "terminal r" "row_result r = Some j"
  shows "filter is_deploy (handled c body w) = []"
proof -
  have "\<exists>v. pg_outcome (w_ext w) (se_DeploymentID event) = Some v"
    using assms(3-5) by (cases "row_state r") (auto simp: pg_outcome_def row_outcome_def terminal_def)
  then show ?thesis using pgl.finished_stage_not_deployed [OF assms(1,2)] by blast
qed

abbreviation pg_consumer :: "(unit \<times> pg_db) deploy_consumer" where
  "pg_consumer \<equiv> sample_consumer (beside postgresLedger) (\<lambda>e. pg_clock (snd e))"

theorem finished_deployment_not_redeployed_witness:
  "filter is_deploy (handled pg_consumer sample_body (world_at ((), done_db))) = []"
  using finished_deployment_not_redeployed [OF _ sample_accepted, of _ _ "world_at ((), done_db)" done_row "''{}''"]
  by (simp add: done_db_def done_row_def terminal_def)

text \<open>C35. A stage whose row has no result is never worked on again: every claim of it fails, so that
  each retry of a message whose first attempt ended before a result was stored stops at the claim.\<close>

theorem retry_never_gets_past_the_claim:
  assumes "dc_ledger c = Some (beside postgresLedger)" "accepted c body = Some (event, request, target)"
    and "pg_rows (snd (w_ext w)) (se_DeploymentID event, ''orchestration'') = Some r" "row_result r = None"
  shows "\<exists>d rec err. handled c body w = [Claimed (se_DeploymentID event) (d, rec, Some err)] \<and>
     fst (fst (handleMessage c body w)) = actionNackRequeue"
proof -
  obtain d rec err db' where "pg_Claim background (se_DeploymentID event) ''orchestration'' (LeaseDuration (dc_cfg c))
      (snd (w_ext w)) = ((d, rec, Some err), db')"
    using null_result_row_error [OF assms(3,4)] by blast
  then have ans: "claim_answer c event w = Some (d, rec, Some err)"
    by (simp add: claim_answer_def assms(1) beside_simps with_db_def)
  obtain w1 where "log w1 = log w @ [Claimed (se_DeploymentID event) (d, rec, Some err)]"
    "claim_stage c event request target w =
      ((actionNackRequeue, Some (WrapError ''claim orchestration stage: '' err)), w1)"
    by (auto intro: claim_stage_cases [OF ans, where request = request and target = target])
  then show ?thesis using handleMessage_accepted [OF assms(2)] by (simp add: handled_def)
qed

theorem retry_never_gets_past_the_claim_witness:
  "\<exists>d rec err. handled pg_consumer sample_body (world_at ((), empty_db\<lparr>pg_rows := [(''d1'', ''orchestration'') \<mapsto>
       \<lparr>row_state = StateInProgress, row_attempt = 1, row_lease = None, row_result = None\<rparr>]\<rparr>))
     = [Claimed ''d1'' (d, rec, Some err)]"
  using retry_never_gets_past_the_claim [OF _ sample_accepted, of _ _ "world_at ((), empty_db\<lparr>pg_rows :=
    [(''d1'', ''orchestration'') \<mapsto> \<lparr>row_state = StateInProgress, row_attempt = 1, row_lease = None, row_result = None\<rparr>]\<rparr>)"]
  by fastforce



section \<open>Retries are bounded\<close>

lemma sint_word_id: "word_of_int (sint a) = a"
  by simp

lemma sint_int32_of_int:
  "- 2147483648 \<le> i \<Longrightarrow> i < 2147483648 \<Longrightarrow> sint (word_of_int i :: int32) = i"
  by (simp add: sint_sbintrunc' signed_take_bit_int_eq_self)

lemma int64_of_int32_of_int64:
  assumes "- 2147483648 \<le> sint a" "sint a < 2147483648"
  shows "int64_of_int32 (int32_of_int64 a) = a"
proof -
  have "int32_of_int64 (word_of_int (sint a)) = word_of_int (sint a)"
    unfolding int32_of_int64_def by (rule ucast_down_wi) (simp add: is_down)
  then have "int32_of_int64 a = word_of_int (sint a)" by (simp only: sint_word_id)
  then have "sint (int32_of_int64 a) = sint a" using sint_int32_of_int [OF assms] by metis
  then show ?thesis by (simp add: int64_of_int32_def scast_eq)
qed

lemma header_attempt_retry:
  "- 2147483648 \<le> sint a \<Longrightarrow> sint a < 2147483648 \<Longrightarrow> deployHeaderAttempt (retry_headers msg cause a) = a"
  by (simp add: deployHeaderAttempt_def retry_headers_def int64_of_int32_of_int64)

lemma sint_int64_add_1:
  assumes "sint (a :: int64) < 9223372036854775807"
  shows "sint (a + 1) = sint a + 1"
proof -
  have "a + 1 = word_of_int (sint a + 1)" by simp
  then show ?thesis using sint_int64_of_int [of "sint a + 1"] assms sint_int64_bounds [of a] by simp
qed

definition attempts :: "'e delivery \<Rightarrow> int" where
  "attempts msg = sint (deployHeaderAttempt (dl_Headers msg))"

text \<open>The copy that a counted retry of a message leaves in a retry queue is delivered as \<open>msg'\<close>.\<close>

definition counted_copy :: "'e deploy_consumer \<Rightarrow> 'e delivery \<Rightarrow> 'e delivery \<Rightarrow> bool" where
  "counted_copy c msg msg' \<longleftrightarrow> (\<exists>cause event w q.
     unmarshal_event (dl_Body msg) = Inr event \<and> q \<noteq> DLQ (dc_cfg c) \<and>
     PublishedCopy q (copy_of msg (dl_Headers msg')) None
       \<in> set (drop (length (log w)) (log (snd (scheduleRetry c msg (Some cause) True w)))))"

lemma no_copies: "filter delivery_call t = [] \<Longrightarrow> PublishedCopy q p r \<notin> set t"
  by (auto simp: filter_empty_conv)

lemma counted_copy_attempts:
  assumes "counted_copy c msg msg'" "0 \<le> attempts msg" "attempts msg < 2147483648" "sint (MaxAttempts (dc_cfg c)) \<le> 2147483648"
  shows "attempts msg' = attempts msg + 1 \<and> attempts msg' < sint (MaxAttempts (dc_cfg c))"
proof -
  obtain cause event w q where ev: "unmarshal_event (dl_Body msg) = Inr event" and q: "q \<noteq> DLQ (dc_cfg c)"
    "PublishedCopy q (copy_of msg (dl_Headers msg')) None
       \<in> set (drop (length (log w)) (log (snd (scheduleRetry c msg (Some cause) True w))))"
    using assms(1) unfolding counted_copy_def by blast
  obtain r w' where s: "scheduleRetry c msg (Some cause) True w = (r, w')" by fastforce
  from scheduleRetry_run [OF s ev] obtain t where t: "log w' = log w @ t"
    "retry_run c msg event cause True t (r = None)" by blast
  have mem: "PublishedCopy q (copy_of msg (dl_Headers msg')) None \<in> set t" using q(2) s t(1) by simp
  let ?a = "next_attempt msg True"
  from t(2) mem q(1) have "sint ?a < sint (MaxAttempts (dc_cfg c))"
    "dl_Headers msg' = retry_headers msg (Some cause) ?a"
    by (cases rule: retry_run.cases;
        auto simp: follows_Cons_iff counted_script_def retrying_note_def retry_note_def dead_note_def copy_of_def
          no_copies [OF finish_failure_delivery] split: if_splits)+
  moreover have "sint ?a = attempts msg + 1"
    using sint_int64_add_1 [of "deployHeaderAttempt (dl_Headers msg)"] assms(3)
    by (simp add: next_attempt_def attempts_def)
  ultimately show ?thesis
    using header_attempt_retry [of ?a msg "Some cause"] assms(2,4) by (auto simp: attempts_def)
qed

lemma retries_bounded:
  assumes "(counted_copy c ^^ n) msg msg'" "0 \<le> attempts msg" "attempts msg < 2147483648"
    and "sint (MaxAttempts (dc_cfg c)) \<le> 2147483648"
  shows "attempts msg' = attempts msg + int n \<and> (0 < n \<longrightarrow> int n < sint (MaxAttempts (dc_cfg c)) - attempts msg)"
  using assms(1)
proof (induction n arbitrary: msg')
  case (Suc n)
  then obtain m where m: "(counted_copy c ^^ n) msg m" "counted_copy c m msg'" by auto
  then show ?case using Suc.IH [OF m(1)] counted_copy_attempts [OF m(2) _ _ assms(4)] assms(2-4)
    by (cases "n = 0") auto
qed simp

text \<open>Retries are bounded: each counted copy carries one attempt more than its message, and a
  chain of \<open>n\<close> counted copies from a message with \<open>a\<close> attempts has \<open>a + n\<close> below \<open>MaxAttempts\<close>. The header
  keeps 32 bits of the attempt, hence the bounds.\<close>

theorem retries_are_bounded:
  assumes "(counted_copy c ^^ n) msg msg'" "0 \<le> attempts msg" "attempts msg < 2147483648"
    and "sint (MaxAttempts (dc_cfg c)) \<le> 2147483648"
  shows "attempts msg' = attempts msg + int n \<and> (0 < n \<longrightarrow> int n < sint (MaxAttempts (dc_cfg c)) - attempts msg)"
  using assms by (rule retries_bounded)

definition sample_copy :: "int delivery" where
  "sample_copy = simple_delivery\<lparr>dl_Headers := retry_headers simple_delivery (Some (ErrorString ''down'')) 1\<rparr>"

lemma sample_counted_copy: "counted_copy (simple_consumer ClaimAcquired) simple_delivery sample_copy"
proof -
  let ?c = "simple_consumer ClaimAcquired" let ?cause = "Some (ErrorString ''down'')"
  have "PublishedCopy ''app.deploy.retry.1'' (copy_of simple_delivery (dl_Headers sample_copy)) None
    \<in> set (drop (length (log (world_at 0))) (log (snd (scheduleRetry ?c simple_delivery ?cause True (world_at 0)))))"
    by (simp add: scheduleRetry_def Let_def emitRetrying_def sample_unmarshal releaseClaim_def sample_ledger_def
        call_def log_def retry_headers_def deployCloneHeaders_def sample_copy_def)
  moreover have "''app.deploy.retry.1'' \<noteq> DLQ (dc_cfg ?c)" by (simp add: sample_config_def)
  ultimately show ?thesis
    unfolding counted_copy_def using sample_unmarshal sample_delivery_simps(2) by metis
qed

lemma sample_counted_copies: "(counted_copy (simple_consumer ClaimAcquired) ^^ 1) simple_delivery sample_copy"
  unfolding relpowp_1 by (rule sample_counted_copy)

theorem retries_are_bounded_witness: "attempts sample_copy = 1"
  using retries_are_bounded [OF sample_counted_copies]
  by (simp add: attempts_def)

section \<open>Copies go to declared queues\<close>

text \<open>The queues that \<open>declareDeployRetryTopology\<close> declares when nothing fails.\<close>

definition declared_queues :: "config \<Rightarrow> string list" where
  "declared_queues cfg = snd (declareDeployRetryTopology (\<lambda>q args qs. (None, qs @ [q])) cfg [])"

lemma declare_backoffs_queues:
  assumes "0 \<le> k" "k + int (length ds) < 9223372036854775807"
  shows "snd (declare_backoffs (\<lambda>q args qs. (None, qs @ [q])) cfg (word_of_int k) ds qs) =
     qs @ map (\<lambda>i. RetryQueuePrefix cfg @ ''.'' @ show_int i) [k + 1..k + int (length ds)]"
  using assms
proof (induction ds arbitrary: k qs)
  case (Cons d ds)
  have "word_of_int k + 1 = (word_of_int (k + 1) :: int64)" by simp
  moreover have "sint (word_of_int (k + 1) :: int64) = k + 1" using Cons.prems by (intro sint_int64_of_int) auto
  ultimately show ?case
    using Cons.IH [of "k + 1"] Cons.prems
    using upto_rec1 [of "k + 1" "k + int (length (d # ds))"]
    by (simp add: ac_simps)
qed simp

lemma declared_queues_eq:
  assumes "int (length (RetryBackoffs cfg)) < 9223372036854775807"
  shows "declared_queues cfg = DLQ cfg # map (\<lambda>i. RetryQueuePrefix cfg @ ''.'' @ show_int i)
    [1..int (length (RetryBackoffs cfg))]"
  using declare_backoffs_queues [of 0 "RetryBackoffs cfg" cfg "[DLQ cfg]"] assms
  by (simp add: declared_queues_def declareDeployRetryTopology_def)

lemma retry_queue_declared:
  assumes "RetryBackoffs cfg \<noteq> []" "int (length (RetryBackoffs cfg)) < 9223372036854775807" "0 \<le> sint a"
  shows "retry_queue cfg (retry_index cfg a) \<in> set (declared_queues cfg)"
proof -
  let ?n = "int (length (RetryBackoffs cfg))"
  define idx where "idx = (if 0 < sint a then a - 1 else a)"
  have n: "sint (of_nat (length (RetryBackoffs cfg)) :: int64) = ?n" "0 < ?n"
    using sint_int64_of_int [of ?n] assms(1,2) by simp_all
  have sub: "sint (b - 1) = sint b - 1" if "0 < sint b" for b :: int64
  proof -
    have "b - 1 = word_of_int (sint b - 1)" by simp
    then show ?thesis using sint_int64_of_int [of "sint b - 1"] that sint_int64_bounds [of b] by simp
  qed
  have idx: "0 \<le> sint idx" using sub [of a] assms(3) by (simp add: idx_def)
  have r: "retry_index cfg a = (if ?n \<le> sint idx then of_nat (length (RetryBackoffs cfg)) - 1 else idx)"
    by (simp add: retry_index_def Let_def idx_def n)
  have "0 \<le> sint (retry_index cfg a) \<and> sint (retry_index cfg a) < ?n"
    using idx n sub [of "of_nat (length (RetryBackoffs cfg))"] by (auto simp: r)
  moreover from this have "sint (retry_index cfg a + 1) = sint (retry_index cfg a) + 1"
    using assms(2) by (intro sint_int64_add_1) linarith
  ultimately show ?thesis unfolding retry_queue_def declared_queues_eq [OF assms(2)] by auto
qed

lemma retry_run_copies:
  assumes "retry_run c msg event err count t ok" "PublishedCopy q p r \<in> set t"
  shows "q = DLQ (dc_cfg c) \<or>
    sint (next_attempt msg count) < sint (MaxAttempts (dc_cfg c)) \<and>
    q = retry_queue (dc_cfg c) (retry_index (dc_cfg c) (next_attempt msg count))"
  using assms
  by (cases rule: retry_run.cases)
    (auto simp: follows_Cons_iff counted_script_def retrying_note_def retry_note_def dead_note_def
      no_copies [OF finish_failure_delivery] split: if_splits)

lemma copies_declared:
  assumes "PublishedCopy q p r \<in> set (delivered c msg w)"
    and "RetryBackoffs (dc_cfg c) \<noteq> []" "int (length (RetryBackoffs (dc_cfg c))) < 9223372036854775807"
    and "0 \<le> attempts msg" "attempts msg < 9223372036854775807"
  shows "q \<in> set (declared_queues (dc_cfg c))"
proof -
  note dlq = declared_queues_eq [OF assms(3)]
  have a: "0 \<le> sint (next_attempt msg count)" for count
    using assms(4,5) sint_int64_add_1 [of "deployHeaderAttempt (dl_Headers msg)"]
    by (simp add: next_attempt_def attempts_def)
  have "q = DLQ (dc_cfg c) \<or> (\<exists>count. q = retry_queue (dc_cfg c) (retry_index (dc_cfg c) (next_attempt msg count)))"
    using delivered_run [of c msg w] assms(1)
    by (cases rule: delivery_run.cases)
      (auto simp: dead_note_def follows_Cons_iff no_copies [OF message_run_delivery] dest: retry_run_copies)
  then show ?thesis using retry_queue_declared [OF assms(2,3) a] by (auto simp: dlq)
qed

text \<open>Every copy of a message goes to a queue that \<open>declareDeployRetryTopology\<close> declares, if there
  is a backoff and the attempt in the header is not negative. The default exchange would drop it otherwise.\<close>

theorem copies_go_to_declared_queues:
  assumes "PublishedCopy q p r \<in> set (delivered c msg w)"
    and "RetryBackoffs (dc_cfg c) \<noteq> []" "int (length (RetryBackoffs (dc_cfg c))) < 9223372036854775807"
    and "0 \<le> attempts msg" "attempts msg < 9223372036854775807"
  shows "q \<in> set (declared_queues (dc_cfg c))"
  using assms by (rule copies_declared)

lemma sample_busy_copy:
  "PublishedCopy ''app.deploy.retry.1'' (copy_of simple_delivery
     (retry_headers simple_delivery (Some OrchestrationLeaseBusy) 0)) None
     \<in> set (delivered (simple_consumer ClaimBusy) simple_delivery (world_at 0))"
  by (simp add: delivered_def processDelivery_def handleMessage_accepted [OF sample_accepted] claim_stage_def
      sample_ledger_def call_def scheduleRetry_def ack_def log_def retry_headers_def deployCloneHeaders_def)

theorem copies_go_to_declared_queues_witness:
  "''app.deploy.retry.1'' \<in> set (declared_queues sample_config)"
  using copies_go_to_declared_queues [OF sample_busy_copy]
  by (simp add: attempts_def) (simp add: sample_config_def)

end
