(* ===== verification/Base64.thy ===== *)
theory Base64
  imports GoStrings
begin

text \<open>
  \<open>encoding/base64\<close>, which \<open>dockerConfigJSON\<close> (\<open>reconciler.go\<close>) calls: \<open>StdEncoding.EncodeToString\<close>
  as RFC 4648 has it, with padding, the decoder a reader of the registry secret applies to it, and the
  proof that nothing is lost in between.
\<close>

section \<open>Encoder and decoder\<close>

definition base64_alphabet :: string where
  "base64_alphabet = ''ABCDEFGHIJKLMNOPQRSTUVWXYZabcdefghijklmnopqrstuvwxyz0123456789+/''"

definition base64_digit :: "nat \<Rightarrow> char" where
  "base64_digit n = base64_alphabet ! n"

fun base64_encode :: "nat list \<Rightarrow> string" where
  "base64_encode [] = []"
| "base64_encode [a] =
     [base64_digit (a div 4), base64_digit (a mod 4 * 16), CHR ''='', CHR ''='']"
| "base64_encode [a, b] =
     [base64_digit (a div 4), base64_digit (a mod 4 * 16 + b div 16), base64_digit (b mod 16 * 4), CHR ''='']"
| "base64_encode (a # b # c # bs) =
     [base64_digit (a div 4), base64_digit (a mod 4 * 16 + b div 16),
      base64_digit (b mod 16 * 4 + c div 64), base64_digit (c mod 64)] @ base64_encode bs"

definition EncodeToString :: "string \<Rightarrow> string" where
  "EncodeToString s = base64_encode (map byte_of s)"

fun index_of :: "'a \<Rightarrow> 'a list \<Rightarrow> nat option" where
  "index_of x [] = None"
| "index_of x (y # ys) = (if x = y then Some 0 else map_option Suc (index_of x ys))"

definition base64_value :: "char \<Rightarrow> nat option" where
  "base64_value c = index_of c base64_alphabet"

fun base64_decode :: "string \<Rightarrow> nat list option" where
  "base64_decode [] = Some []"
| "base64_decode (p # q # r # s # cs) =
     (case (base64_value p, base64_value q) of
        (Some v1, Some v2) \<Rightarrow>
          (if r = CHR ''='' then (if s = CHR ''='' \<and> cs = [] then Some [v1 * 4 + v2 div 16] else None)
           else case base64_value r of
                  None \<Rightarrow> None
                | Some v3 \<Rightarrow>
                    (if s = CHR ''='' then
                       (if cs = [] then Some [v1 * 4 + v2 div 16, v2 mod 16 * 16 + v3 div 4] else None)
                     else case base64_value s of
                            None \<Rightarrow> None
                          | Some v4 \<Rightarrow>
                              map_option (\<lambda>bs. [v1 * 4 + v2 div 16, v2 mod 16 * 16 + v3 div 4, v3 mod 4 * 64 + v4] @ bs)
                                (base64_decode cs)))
      | _ \<Rightarrow> None)"
| "base64_decode _ = None"

definition DecodeString :: "string \<Rightarrow> string option" where
  "DecodeString s = map_option (map char_of) (base64_decode s)"

section \<open>Round trip\<close>

lemma index_of_nth: "distinct xs \<Longrightarrow> i < length xs \<Longrightarrow> index_of (xs ! i) xs = Some i"
  by (induction xs arbitrary: i) (auto simp: nth_Cons split: nat.split)

lemma base64_alphabet_distinct: "distinct base64_alphabet" "length base64_alphabet = 64"
  by (simp_all add: base64_alphabet_def)

lemma base64_value_digit [simp]: "n < 64 \<Longrightarrow> base64_value (base64_digit n) = Some n"
  by (simp add: base64_value_def base64_digit_def index_of_nth base64_alphabet_distinct)

lemma base64_digit_in: "n < 64 \<Longrightarrow> base64_digit n \<in> set base64_alphabet"
  by (simp add: base64_digit_def base64_alphabet_distinct)

lemma base64_digit_not_pad [simp]: "n < 64 \<Longrightarrow> base64_digit n \<noteq> CHR ''=''"
  using base64_digit_in [of n] by (auto simp: base64_alphabet_def)

lemma base64_digit_ascii: "n < 64 \<Longrightarrow> ascii (base64_digit n)"
  using base64_digit_in [of n] by (auto simp: base64_alphabet_def ascii_def byte_of_def)

text \<open>The six-bit groups that the encoder forms of bytes are below 64.\<close>

lemma base64_groups:
  fixes a b c :: nat
  assumes "a < 256" "b < 256" "c < 256"
  shows "a div 4 < 64" "a mod 4 * 16 < 64" "a mod 4 * 16 + b div 16 < 64" "b mod 16 * 4 < 64"
    "b mod 16 * 4 + c div 64 < 64" "c mod 64 < 64"
proof -
  have m: "a mod 4 < 4" "b mod 16 < 16" "c mod 64 < 64" by simp_all
  have d: "a div 4 < 64" "b div 16 < 16" "c div 64 < 4" using assms by (simp_all add: less_mult_imp_div_less)
  show "a div 4 < 64" "c mod 64 < 64" using d m by simp_all
  show "a mod 4 * 16 < 64" "a mod 4 * 16 + b div 16 < 64" "b mod 16 * 4 < 64" "b mod 16 * 4 + c div 64 < 64"
    using m d by linarith+
qed

lemma base64_decode_encode: "\<forall>b \<in> set bs. b < 256 \<Longrightarrow> base64_decode (base64_encode bs) = Some bs"
proof (induction bs rule: base64_encode.induct)
  case (2 a)
  then show ?case using base64_groups [of a 0 0] by (simp add: div_mult_mod_eq)
next
  case (3 a b)
  moreover from 3 have "b div 16 < 16" by (simp add: less_mult_imp_div_less)
  ultimately show ?case using base64_groups [of a b 0] by (simp add: div_mult_mod_eq)
next
  case (4 a b c bs)
  moreover from 4 have "b div 16 < 16" "c div 64 < 4" by (simp_all add: less_mult_imp_div_less)
  ultimately show ?case using base64_groups [of a b c] by (simp add: div_mult_mod_eq)
qed simp

lemma DecodeString_EncodeToString: "DecodeString (EncodeToString s) = Some s"
proof -
  have "map (char_of \<circ> byte_of) s = s" by (simp add: map_idI)
  then show ?thesis by (simp add: DecodeString_def EncodeToString_def base64_decode_encode)
qed

lemma base64_encode_length: "length (base64_encode bs) = 4 * ((length bs + 2) div 3)"
proof (induction bs rule: base64_encode.induct)
  case (4 a b c bs)
  have "(length bs + 2 + 3) div 3 = (length bs + 2) div 3 + 1" by (rule div_add_self2) simp
  then show ?case using 4 by (simp add: ac_simps)
qed simp_all

lemma base64_encode_ascii: "\<forall>b \<in> set bs. b < 256 \<Longrightarrow> \<forall>c \<in> set (base64_encode bs). ascii c"
proof (induction bs rule: base64_encode.induct)
  case (2 a)
  then show ?case using base64_groups [of a 0 0] by (auto simp: base64_digit_ascii) (simp_all add: ascii_def byte_of_def)
next
  case (3 a b)
  then show ?case using base64_groups [of a b 0] by (auto simp: base64_digit_ascii) (simp_all add: ascii_def byte_of_def)
next
  case (4 a b c bs)
  then show ?case using base64_groups [of a b c] by (auto simp: base64_digit_ascii)
qed simp

lemma EncodeToString_ascii: "\<forall>c \<in> set (EncodeToString s). ascii c"
  unfolding EncodeToString_def by (rule base64_encode_ascii) simp

end
