(* ===== verification/Manifests.thy ===== *)
theory Manifests
  imports Names Json_Round_Trip Base64 "HOL-Library.Sublist"
begin

text \<open>
  The Kubernetes objects that \<open>reconciler.go\<close> writes, with the fields it sets or reads, and the pure
  functions that build them: the environment of the container, resource requirements, the registry
  secret, and the wanted deployment, service and ingress. A Go map is the list of its entries, with
  distinct keys; a pointer is an option. Quantities are a type \<open>'q\<close> of their own, since
  \<open>resource.ParseQuantity\<close> is outside code and an argument here.
\<close>

section \<open>Labels\<close>

type_synonym labels = "(string \<times> string) list"

text \<open>Indexing a Go map of strings: the empty string when the key is missing.\<close>

definition label_at :: "labels \<Rightarrow> string \<Rightarrow> string" where
  "label_at ls k = (case map_of ls k of None \<Rightarrow> [] | Some v \<Rightarrow> v)"

text \<open>\<open>maps.Equal\<close>.\<close>

definition maps_Equal :: "labels \<Rightarrow> labels \<Rightarrow> bool" where
  "maps_Equal a b \<longleftrightarrow> list_all (\<lambda>k. map_of a k = map_of b k) (map fst a @ map fst b)"

definition map_store :: "labels \<Rightarrow> string \<Rightarrow> string \<Rightarrow> labels" where
  "map_store m k v = (if k \<in> set (map fst m) then map (\<lambda>p. if fst p = k then (k, v) else p) m else m @ [(k, v)])"

definition cloneLabels :: "labels \<Rightarrow> labels" where
  "cloneLabels ls = foldl (\<lambda>cloned (key, v). map_store cloned key v) [] ls"

section \<open>Objects of the API\<close>

record k8s_namespace =
  nm_Name :: string
  nm_Labels :: labels

record k8s_secret =
  sc_Name :: string
  sc_Namespace :: string
  sc_ResourceVersion :: string
  sc_Type :: string
  sc_Data :: "(string \<times> string) list"

datatype int_or_string = FromInt int32 | FromString string

text \<open>A probe of a TCP port.\<close>

record probe =
  probe_Port :: int_or_string
  probe_PeriodSeconds :: int32
  probe_FailureThreshold :: int32
  probe_InitialDelaySeconds :: int32

record 'q resource_requirements =
  rq_Requests :: "(string \<times> 'q) list"
  rq_Limits :: "(string \<times> 'q) list"

record 'q container =
  ct_Name :: string
  ct_Image :: string
  ct_ImagePullPolicy :: string
  ct_Ports :: "(string \<times> int32) list"
  ct_Env :: "env_var list"
  ct_ReadinessProbe :: "probe option"
  ct_StartupProbe :: "probe option"
  ct_Resources :: "'q resource_requirements"

record 'q k8s_deployment =
  dp_Name :: string
  dp_Namespace :: string
  dp_Labels :: labels
  dp_ResourceVersion :: string
  dp_Replicas :: "int32 option"
  dp_Selector :: "labels option"
  dp_StrategyType :: string
  dp_MaxUnavailable :: "int_or_string option"
  dp_MaxSurge :: "int_or_string option"
  dp_ProgressDeadlineSeconds :: "int32 option"
  dp_TemplateLabels :: labels
  dp_Containers :: "'q container list"
  dp_ImagePullSecrets :: "string list"

record service_port =
  sp_Name :: string
  sp_Port :: int32
  sp_Protocol :: string
  sp_TargetPort :: int_or_string

record k8s_service =
  sv_Name :: string
  sv_Namespace :: string
  sv_Labels :: labels
  sv_ResourceVersion :: string
  sv_Type :: string
  sv_Selector :: labels
  sv_Ports :: "service_port list"
  sv_ClusterIP :: string
  sv_ClusterIPs :: "string list"
  sv_IPFamilies :: "string list"
  sv_IPFamilyPolicy :: "string option"
  sv_InternalTrafficPolicy :: "string option"

record ingress_path =
  ip_Path :: string
  ip_PathType :: string
  ip_ServiceName :: string
  ip_ServicePort :: int32

record ingress_rule =
  ir_Host :: string
  ir_Paths :: "ingress_path list"

record k8s_ingress =
  ig_Name :: string
  ig_Namespace :: string
  ig_Labels :: labels
  ig_ResourceVersion :: string
  ig_IngressClassName :: "string option"
  ig_Rules :: "ingress_rule list"
  ig_TLS :: "(string list \<times> string) list"

section \<open>Helpers\<close>

definition intOrStringPtr :: "int_or_string \<Rightarrow> int_or_string option" where
  "intOrStringPtr v = Some v"

definition stringPtr :: "string \<Rightarrow> string option" where
  "stringPtr v = (if blank v then None else Some v)"

text \<open>The loop of \<open>platformPortEnv\<close> with its map \<open>seen\<close>.\<close>

fun platform_env_loop :: "env_var list \<Rightarrow> string list \<Rightarrow> env_var list \<Rightarrow> env_var list" where
  "platform_env_loop [] seen result = result"
| "platform_env_loop (variable # userEnv) seen result =
     (if env_Name variable = ''PORT'' \<or> env_Name variable = ''SERVER_PORT''
      then platform_env_loop userEnv seen result
      else if env_Name variable \<in> set seen then platform_env_loop userEnv seen result
      else platform_env_loop userEnv (env_Name variable # seen) (result @ [variable]))"

definition platformPortEnv :: "deploy_request \<Rightarrow> int32 \<Rightarrow> env_var list" where
  "platformPortEnv request port =
     (let platformValue = show_int (sint port)
      in platform_env_loop (dr_Environment request) [] [] @
           [\<lparr>env_Name = ''PORT'', env_Value = platformValue\<rparr>,
            \<lparr>env_Name = ''SERVER_PORT'', env_Value = platformValue\<rparr>])"

definition buildResourceRequirements ::
  "(string \<Rightarrow> go_error + 'q) \<Rightarrow> resource_defaults \<Rightarrow> go_error + 'q resource_requirements" where
  "buildResourceRequirements ParseQuantity defaults =
     (case ParseQuantity (rd_CPURequest defaults) of
        Inl err \<Rightarrow> Inl (WrapError ''parse K8S_CPU_REQUEST: '' err)
      | Inr cpuRequest \<Rightarrow>
     (case ParseQuantity (rd_CPULimit defaults) of
        Inl err \<Rightarrow> Inl (WrapError ''parse K8S_CPU_LIMIT: '' err)
      | Inr cpuLimit \<Rightarrow>
     (case ParseQuantity (rd_MemoryRequest defaults) of
        Inl err \<Rightarrow> Inl (WrapError ''parse K8S_MEMORY_REQUEST: '' err)
      | Inr memoryRequest \<Rightarrow>
     (case ParseQuantity (rd_MemoryLimit defaults) of
        Inl err \<Rightarrow> Inl (WrapError ''parse K8S_MEMORY_LIMIT: '' err)
      | Inr memoryLimit \<Rightarrow>
          Inr \<lparr>rq_Requests = [(''cpu'', cpuRequest), (''memory'', memoryRequest)],
               rq_Limits = [(''cpu'', cpuLimit), (''memory'', memoryLimit)]\<rparr>))))"

section \<open>The registry secret\<close>

definition registryCredentialsConfigured :: "registry_config \<Rightarrow> go_error + bool" where
  "registryCredentialsConfigured cfg =
     (let allBlank = blank (rc_Host cfg) \<and> blank (rc_Username cfg) \<and> rc_Password cfg = []
      in if allBlank then Inr False
         else if blank (rc_Host cfg) then Inl (ErrorString ''missing CONTAINER_REGISTRY_HOST'')
         else if blank (rc_Username cfg) then Inl (ErrorString ''missing CONTAINER_REGISTRY_USERNAME'')
         else if rc_Password cfg = [] then Inl (ErrorString ''missing CONTAINER_REGISTRY_PASSWORD'')
         else Inr True)"

text \<open>\<open>json.Marshal\<close> writes the keys of a map in their order, and does not fail on strings.\<close>

definition docker_config :: "registry_config \<Rightarrow> json" where
  "docker_config cfg =
     (let auth = EncodeToString (rc_Username cfg @ '':'' @ rc_Password cfg)
      in JObj [(''auths'', JObj [(rc_Host cfg, JObj
           [(''auth'', JStr auth), (''password'', JStr (rc_Password cfg)), (''username'', JStr (rc_Username cfg))])])])"

definition dockerConfigJSON :: "registry_config \<Rightarrow> go_error + string" where
  "dockerConfigJSON cfg = Inr (json_text (docker_config cfg))"

section \<open>The wanted objects\<close>

definition wanted_namespace :: "string \<Rightarrow> labels \<Rightarrow> k8s_namespace" where
  "wanted_namespace namespace labels =
     \<lparr>nm_Name = namespace,
      nm_Labels = [(''shiply.io/managed-by'', label_at labels ''shiply.io/managed-by''),
                   (''shiply.io/project-id'', label_at labels ''shiply.io/project-id'')]\<rparr>"

definition wanted_secret :: "config \<Rightarrow> string \<Rightarrow> string \<Rightarrow> k8s_secret" where
  "wanted_secret cfg namespace payload =
     \<lparr>sc_Name = ImagePullSecretName cfg, sc_Namespace = namespace, sc_ResourceVersion = [],
      sc_Type = ''kubernetes.io/dockerconfigjson'', sc_Data = [(''.dockerconfigjson'', payload)]\<rparr>"

definition tcp_probe :: "int32 \<Rightarrow> int32 \<Rightarrow> probe" where
  "tcp_probe port failures =
     \<lparr>probe_Port = FromInt port, probe_PeriodSeconds = 5, probe_FailureThreshold = failures,
      probe_InitialDelaySeconds = 0\<rparr>"

definition wanted_deployment ::
  "config \<Rightarrow> deploy_request \<Rightarrow> deployment_target \<Rightarrow> labels \<Rightarrow> string \<Rightarrow> 'q resource_requirements \<Rightarrow> 'q k8s_deployment" where
  "wanted_deployment cfg request target labels pullSecretName resources =
     \<lparr>dp_Name = dt_DeploymentName target, dp_Namespace = dt_Namespace target, dp_Labels = cloneLabels labels,
      dp_ResourceVersion = [], dp_Replicas = Some (DefaultReplicas cfg),
      dp_Selector = Some [(''shiply.io/service-id'', dr_ServiceID request)],
      dp_StrategyType = ''RollingUpdate'', dp_MaxUnavailable = intOrStringPtr (FromInt 0),
      dp_MaxSurge = intOrStringPtr (FromInt 1), dp_ProgressDeadlineSeconds = Some 1800,
      dp_TemplateLabels = cloneLabels labels,
      dp_Containers =
        [\<lparr>ct_Name = dt_DeploymentName target, ct_Image = dr_ImageTag request, ct_ImagePullPolicy = ''IfNotPresent'',
          ct_Ports = [(''http'', dt_ContainerPort target)],
          ct_Env = platformPortEnv request (dt_ContainerPort target),
          ct_ReadinessProbe = Some (tcp_probe (dt_ContainerPort target) 3),
          ct_StartupProbe = Some (tcp_probe (dt_ContainerPort target) 60),
          ct_Resources = resources\<rparr>],
      dp_ImagePullSecrets = (if pullSecretName \<noteq> [] then [pullSecretName] else [])\<rparr>"

definition wanted_service :: "deployment_target \<Rightarrow> labels \<Rightarrow> k8s_service" where
  "wanted_service target labels =
     \<lparr>sv_Name = dt_ServiceName target, sv_Namespace = dt_Namespace target, sv_Labels = cloneLabels labels,
      sv_ResourceVersion = [], sv_Type = ''ClusterIP'',
      sv_Selector = [(''shiply.io/service-id'', label_at labels ''shiply.io/service-id'')],
      sv_Ports = [\<lparr>sp_Name = ''http'', sp_Port = 80, sp_Protocol = ''TCP'',
        sp_TargetPort = FromInt (dt_ContainerPort target)\<rparr>],
      sv_ClusterIP = [], sv_ClusterIPs = [], sv_IPFamilies = [], sv_IPFamilyPolicy = None,
      sv_InternalTrafficPolicy = None\<rparr>"

definition wanted_ingress :: "config \<Rightarrow> deployment_target \<Rightarrow> labels \<Rightarrow> k8s_ingress" where
  "wanted_ingress cfg target labels =
     \<lparr>ig_Name = dt_IngressName target, ig_Namespace = dt_Namespace target, ig_Labels = cloneLabels labels,
      ig_ResourceVersion = [], ig_IngressClassName = stringPtr (IngressClassName cfg),
      ig_Rules = [\<lparr>ir_Host = dt_IngressHost target,
        ir_Paths = [\<lparr>ip_Path = ''/'', ip_PathType = ''Prefix'', ip_ServiceName = dt_ServiceName target,
          ip_ServicePort = 80\<rparr>]\<rparr>],
      ig_TLS = (if TLSSecretName cfg \<noteq> [] then [([dt_IngressHost target], TLSSecretName cfg)] else [])\<rparr>"

section \<open>Labels: properties\<close>

lemma maps_Equal_iff: "maps_Equal a b \<longleftrightarrow> map_of a = map_of b"
proof
  assume e: "maps_Equal a b"
  show "map_of a = map_of b"
  proof
    fix k
    show "map_of a k = map_of b k"
    proof (cases "k \<in> set (map fst a) \<union> set (map fst b)")
      case True
      then show ?thesis using e by (auto simp: maps_Equal_def list_all_iff)
    next
      case False
      then have "map_of a k = None" "map_of b k = None" by (auto simp: map_of_eq_None_iff)
      then show ?thesis by simp
    qed
  qed
qed (simp add: maps_Equal_def list_all_iff)

lemma foldl_map_store:
  "distinct (map fst (m @ ls)) \<Longrightarrow> foldl (\<lambda>cloned (key, v). map_store cloned key v) m ls = m @ ls"
proof (induction ls arbitrary: m)
  case (Cons p ls)
  obtain k v where p: "p = (k, v)" by fastforce
  have "k \<notin> fst ` set m" using Cons.prems p by auto
  then have "map_store m k v = m @ [(k, v)]" by (simp add: map_store_def)
  then show ?case using Cons.IH [of "m @ [(k, v)]"] Cons.prems p by simp
qed simp

lemma cloneLabels_id: "distinct (map fst ls) \<Longrightarrow> cloneLabels ls = ls"
  using foldl_map_store [of "[]" ls] by (simp add: cloneLabels_def)

lemma labelsForRequest_distinct: "distinct (map fst (labelsForRequest r))"
  by (simp add: labelsForRequest_def)

lemma cloneLabels_labelsForRequest [simp]: "cloneLabels (labelsForRequest r) = labelsForRequest r"
  by (rule cloneLabels_id) (rule labelsForRequest_distinct)

lemma label_at_request:
  "label_at (labelsForRequest r) ''shiply.io/managed-by'' = ''orchestration-service''"
  "label_at (labelsForRequest r) ''shiply.io/project-id'' = dr_ProjectID r"
  "label_at (labelsForRequest r) ''shiply.io/service-id'' = dr_ServiceID r"
  by (simp_all add: label_at_def labelsForRequest_def)

section \<open>The environment of the container: properties\<close>

definition platform_name :: "string \<Rightarrow> bool" where
  "platform_name n \<longleftrightarrow> n = ''PORT'' \<or> n = ''SERVER_PORT''"

text \<open>What is kept of the user's variables: the first of each name, without the two of the platform.\<close>

fun kept_env :: "env_var list \<Rightarrow> string set \<Rightarrow> env_var list" where
  "kept_env [] seen = []"
| "kept_env (v # vs) seen =
     (if platform_name (env_Name v) \<or> env_Name v \<in> seen then kept_env vs seen
      else v # kept_env vs (insert (env_Name v) seen))"

lemma platform_env_loop_kept: "platform_env_loop vs seen result = result @ kept_env vs (set seen)"
  by (induction vs seen result rule: platform_env_loop.induct) (simp_all add: platform_name_def)

lemma kept_env_names: "v \<in> set (kept_env vs seen) \<Longrightarrow> \<not> platform_name (env_Name v) \<and> env_Name v \<notin> seen"
  by (induction vs seen rule: kept_env.induct) (auto split: if_splits)

lemma kept_env_distinct: "distinct (map env_Name (kept_env vs seen))"
  by (induction vs seen rule: kept_env.induct) (auto dest: kept_env_names)

lemma kept_env_subseq: "subseq (kept_env vs seen) vs"
  by (induction vs seen rule: kept_env.induct) auto

lemma kept_env_find:
  "n \<notin> seen \<Longrightarrow> \<not> platform_name n \<Longrightarrow>
   List.find (\<lambda>v. env_Name v = n) (kept_env vs seen) = List.find (\<lambda>v. env_Name v = n) vs"
  by (induction vs seen rule: kept_env.induct) auto

text \<open>C25. The container's environment has each name once. \<open>PORT\<close> and \<open>SERVER_PORT\<close> come last and carry the
  platform's port; in front of them are user variables in the user's order, and every other name has the
  value the user gave it first.\<close>

theorem platformPortEnv_spec:
  "\<exists>kept. platformPortEnv r port =
       kept @ [\<lparr>env_Name = ''PORT'', env_Value = show_int (sint port)\<rparr>,
               \<lparr>env_Name = ''SERVER_PORT'', env_Value = show_int (sint port)\<rparr>] \<and>
     subseq kept (dr_Environment r) \<and> distinct (map env_Name (platformPortEnv r port)) \<and>
     (\<forall>n. List.find (\<lambda>v. env_Name v = n) kept =
        (if platform_name n then None else List.find (\<lambda>v. env_Name v = n) (dr_Environment r)))"
proof (intro exI conjI)
  let ?k = "kept_env (dr_Environment r) {}"
  show e: "platformPortEnv r port = ?k @ [\<lparr>env_Name = ''PORT'', env_Value = show_int (sint port)\<rparr>,
       \<lparr>env_Name = ''SERVER_PORT'', env_Value = show_int (sint port)\<rparr>]"
    by (simp add: platformPortEnv_def platform_env_loop_kept Let_def)
  show "subseq ?k (dr_Environment r)" by (rule kept_env_subseq)
  have "\<forall>v \<in> set ?k. \<not> platform_name (env_Name v)" using kept_env_names by blast
  then show "distinct (map env_Name (platformPortEnv r port))"
    unfolding e by (auto simp: kept_env_distinct platform_name_def)
  show "\<forall>n. List.find (\<lambda>v. env_Name v = n) ?k =
      (if platform_name n then None else List.find (\<lambda>v. env_Name v = n) (dr_Environment r))"
    using kept_env_find [of _ "{}"] kept_env_names [of _ "dr_Environment r" "{}"] by (auto simp: find_None_iff)
qed

section \<open>The registry secret: properties\<close>

lemma registryCredentialsConfigured_True:
  "registryCredentialsConfigured cfg = Inr True \<longleftrightarrow>
     \<not> blank (rc_Host cfg) \<and> \<not> blank (rc_Username cfg) \<and> rc_Password cfg \<noteq> []"
  by (auto simp: registryCredentialsConfigured_def Let_def)

lemma registryCredentialsConfigured_False:
  "registryCredentialsConfigured cfg = Inr False \<longleftrightarrow>
     blank (rc_Host cfg) \<and> blank (rc_Username cfg) \<and> rc_Password cfg = []"
  by (auto simp: registryCredentialsConfigured_def Let_def)

text \<open>A reader of the secret, as the kubelet is one: host, user name and password of the first entry.\<close>

definition split_auth :: "string \<Rightarrow> string \<times> string" where
  "split_auth s = (takeWhile (\<lambda>c. c \<noteq> CHR '':'') s, drop 1 (dropWhile (\<lambda>c. c \<noteq> CHR '':'') s))"

definition read_docker_config :: "string \<Rightarrow> (string \<times> string \<times> string) option" where
  "read_docker_config text =
     (case parse_json text of
        Some (JObj [(_, JObj ((host, JObj kvs) # _))]) \<Rightarrow>
          (case map_of kvs ''auth'' of
             Some (JStr auth) \<Rightarrow> map_option (\<lambda>s. (host, split_auth s)) (DecodeString auth)
           | _ \<Rightarrow> None)
      | _ \<Rightarrow> None)"

lemma docker_config_ok:
  assumes "utf8_valid (rc_Host cfg)" "utf8_valid (rc_Username cfg)" "utf8_valid (rc_Password cfg)"
  shows "json_ok (docker_config cfg)" "json_depth (docker_config cfg) \<le> 10000"
  using assms EncodeToString_ascii
  by (simp_all add: docker_config_def Let_def utf8_valid_ascii ascii_def byte_of_def)

text \<open>C26. Whoever reads the registry secret back gets the configured host, user name and password, whatever
  characters the password has.\<close>

theorem dockerConfigJSON_reads_back:
  assumes "utf8_valid (rc_Host cfg)" "utf8_valid (rc_Username cfg)" "utf8_valid (rc_Password cfg)"
    "CHR '':'' \<notin> set (rc_Username cfg)"
  shows "\<exists>text. dockerConfigJSON cfg = Inr text \<and>
     read_docker_config text = Some (rc_Host cfg, rc_Username cfg, rc_Password cfg)"
proof -
  have "takeWhile (\<lambda>c. c \<noteq> CHR '':'') (rc_Username cfg @ '':'' @ rc_Password cfg) = rc_Username cfg"
    "dropWhile (\<lambda>c. c \<noteq> CHR '':'') (rc_Username cfg @ '':'' @ rc_Password cfg) = '':'' @ rc_Password cfg"
    using assms(4) by (auto simp: takeWhile_append dropWhile_append)
  then show ?thesis
    using parse_json_text [OF docker_config_ok [OF assms(1-3)]]
    by (simp add: dockerConfigJSON_def read_docker_config_def docker_config_def Let_def
        DecodeString_EncodeToString split_auth_def)
qed

theorem dockerConfigJSON_reads_back_witness:
  "\<exists>text. dockerConfigJSON \<lparr>rc_Host = ''ghcr.io'', rc_Username = ''bot'', rc_Password = ''p:w''\<rparr> = Inr text \<and>
     read_docker_config text = Some (''ghcr.io'', ''bot'', ''p:w'')"
  using dockerConfigJSON_reads_back [of "\<lparr>rc_Host = ''ghcr.io'', rc_Username = ''bot'', rc_Password = ''p:w''\<rparr>"]
  by (simp add: utf8_valid_ascii ascii_def byte_of_def)

end
