(* ===== verification/Reconciler.thy ===== *)
theory Reconciler
  imports Manifests Rollout
begin

text \<open>
  \<open>reconciler.go\<close>: bringing the namespace, the registry secret, the deployment, the service and the
  ingress of a request into the cluster. The Kubernetes API is outside code: a client is a record of
  operations on a state \<open>'e\<close>, any of which may fail. \<open>cl_calls\<close> is a ghost, the list of the calls made,
  with their answers. \<open>retry.RetryOnConflict\<close>, the clock and the choice of \<open>select\<close> are arguments too.
  The one loop of the file, which waits for a deletion, takes fuel; \<open>None\<close> is a call that has not
  returned when the fuel is used up.
\<close>

section \<open>The client and its calls\<close>

record ('o, 'e) object_api =
  oa_Get :: "ctx \<Rightarrow> string \<Rightarrow> string \<Rightarrow> 'e \<Rightarrow> (go_error + 'o) \<times> 'e"
  oa_Create :: "ctx \<Rightarrow> string \<Rightarrow> 'o \<Rightarrow> 'e \<Rightarrow> go_error option \<times> 'e"
  oa_Update :: "ctx \<Rightarrow> string \<Rightarrow> 'o \<Rightarrow> 'e \<Rightarrow> go_error option \<times> 'e"
  oa_Delete :: "ctx \<Rightarrow> string \<Rightarrow> string \<Rightarrow> string \<Rightarrow> 'e \<Rightarrow> go_error option \<times> 'e"

record ('q, 'e) clientset =
  cs_Namespaces :: "(k8s_namespace, 'e) object_api"
  cs_Secrets :: "(k8s_secret, 'e) object_api"
  cs_Deployments :: "('q k8s_deployment, 'e) object_api"
  cs_Services :: "(k8s_service, 'e) object_api"
  cs_Ingresses :: "(k8s_ingress, 'e) object_api"

datatype 'q api_call =
    GetNamespace string "go_error + k8s_namespace"
  | CreateNamespace k8s_namespace "go_error option"
  | GetSecret string string "go_error + k8s_secret"
  | CreateSecret string k8s_secret "go_error option"
  | UpdateSecret string k8s_secret "go_error option"
  | GetDeployment string string "go_error + 'q k8s_deployment"
  | CreateDeployment string "'q k8s_deployment" "go_error option"
  | UpdateDeployment string "'q k8s_deployment" "go_error option"
  | DeleteDeployment string string string "go_error option"
  | GetService string string "go_error + k8s_service"
  | CreateService string k8s_service "go_error option"
  | UpdateService string k8s_service "go_error option"
  | GetIngress string string "go_error + k8s_ingress"
  | CreateIngress string k8s_ingress "go_error option"
  | UpdateIngress string k8s_ingress "go_error option"

record ('q, 'e) cluster =
  cl_ext :: 'e
  cl_calls :: "'q api_call list"

type_synonym ('q, 'e) attempt = "('q, 'e) cluster \<Rightarrow> (go_error option \<times> ('q, 'e) cluster) option"

text \<open>The struct \<open>KubernetesClient\<close>, and with it the outside functions the reconciler uses.\<close>

record ('q, 'e) kubernetes_client =
  kc_cfg :: config
  kc_clientset :: "('q, 'e) clientset"
  kc_ParseQuantity :: "string \<Rightarrow> go_error + 'q"
  kc_RetryOnConflict :: "('q, 'e) attempt \<Rightarrow> ('q, 'e) attempt"
  kc_Now :: "'e \<Rightarrow> int"
  kc_Sleep :: "int \<Rightarrow> 'e \<Rightarrow> 'e"
  kc_Select :: "'e \<Rightarrow> nat"

definition api :: "('r \<Rightarrow> 'q api_call) \<Rightarrow> ('e \<Rightarrow> 'r \<times> 'e) \<Rightarrow> ('q, 'e) cluster \<Rightarrow> 'r \<times> ('q, 'e) cluster" where
  "api note f w = (let (r, e) = f (cl_ext w) in (r, \<lparr>cl_ext = e, cl_calls = cl_calls w @ [note r]\<rparr>))"

abbreviation IsNotFound :: "go_error \<Rightarrow> bool" where "IsNotFound \<equiv> api_error x_IsNotFound"
abbreviation IsAlreadyExists :: "go_error \<Rightarrow> bool" where "IsAlreadyExists \<equiv> api_error x_IsAlreadyExists"
abbreviation IsConflict :: "go_error \<Rightarrow> bool" where "IsConflict \<equiv> api_error x_IsConflict"
abbreviation IsInvalid :: "go_error \<Rightarrow> bool" where "IsInvalid \<equiv> api_error x_IsInvalid"

text \<open>\<open>strings.Contains\<close>.\<close>

fun Contains :: "string \<Rightarrow> string \<Rightarrow> bool" where
  "Contains [] sub = (sub = [])"
| "Contains (c # cs) sub = (take (length sub) (c # cs) = sub \<or> Contains cs sub)"

section \<open>The namespace\<close>

definition checkNamespaceOwnership :: "k8s_namespace \<Rightarrow> string \<Rightarrow> labels \<Rightarrow> go_error option" where
  "checkNamespaceOwnership namespaceObject namespace labels =
     (if label_at (nm_Labels namespaceObject) ''shiply.io/managed-by'' \<noteq> label_at labels ''shiply.io/managed-by'' \<or>
         label_at (nm_Labels namespaceObject) ''shiply.io/project-id'' \<noteq> label_at labels ''shiply.io/project-id''
      then Some (OwnershipError (''refusing to update namespace '' @ namespace @
             '': ownership labels do not match request''))
      else None)"

definition ensureNamespace ::
  "('q, 'e) kubernetes_client \<Rightarrow> ctx \<Rightarrow> string \<Rightarrow> labels \<Rightarrow> ('q, 'e) cluster \<Rightarrow> go_error option \<times> ('q, 'e) cluster" where
  "ensureNamespace k c namespace labels w =
     (let namespaces = cs_Namespaces (kc_clientset k); wanted = wanted_namespace namespace labels in
      case api (GetNamespace namespace) (oa_Get namespaces c [] namespace) w of
        (Inr current, w1) \<Rightarrow> (checkNamespaceOwnership current namespace labels, w1)
      | (Inl err, w1) \<Rightarrow>
          if \<not> IsNotFound err then (Some (WrapError (''get namespace '' @ namespace @ '': '') err), w1)
          else case api (CreateNamespace wanted) (oa_Create namespaces c [] wanted) w1 of
                 (None, w2) \<Rightarrow> (None, w2)
               | (Some err, w2) \<Rightarrow>
                   if IsAlreadyExists err
                   then case api (GetNamespace namespace) (oa_Get namespaces c [] namespace) w2 of
                          (Inl getErr, w3) \<Rightarrow>
                            (Some (WrapError (''get namespace '' @ namespace @ '' after create race: '') getErr), w3)
                        | (Inr current, w3) \<Rightarrow> (checkNamespaceOwnership current namespace labels, w3)
                   else (Some (WrapError (''create namespace '' @ namespace @ '': '') err), w2))"

section \<open>The registry secret\<close>

definition update_secret ::
  "('q, 'e) kubernetes_client \<Rightarrow> ctx \<Rightarrow> string \<Rightarrow> string \<Rightarrow> ('q, 'e) attempt" where
  "update_secret k c namespace payload w =
     (let secrets = cs_Secrets (kc_clientset k); name = ImagePullSecretName (kc_cfg k) in
      case api (GetSecret namespace name) (oa_Get secrets c namespace name) w of
        (Inl err, w1) \<Rightarrow> Some (Some err, w1)
      | (Inr latest, w1) \<Rightarrow>
          let s = latest\<lparr>sc_Type := ''kubernetes.io/dockerconfigjson'', sc_Data := [(''.dockerconfigjson'', payload)]\<rparr>
          in Some (api (UpdateSecret namespace s) (oa_Update secrets c namespace s) w1))"

definition ensureRegistryPullSecret ::
  "('q, 'e) kubernetes_client \<Rightarrow> ctx \<Rightarrow> string \<Rightarrow> ('q, 'e) cluster \<Rightarrow>
   ((string \<times> go_error option) \<times> ('q, 'e) cluster) option" where
  "ensureRegistryPullSecret k c namespace w =
     (let cfg = kc_cfg k; name = ImagePullSecretName cfg; secrets = cs_Secrets (kc_clientset k) in
      if name = [] then Some (([], None), w)
      else case registryCredentialsConfigured (cfg_Registry cfg) of
             Inl err \<Rightarrow> Some (([], Some err), w)
           | Inr False \<Rightarrow> Some (([], None), w)
           | Inr True \<Rightarrow>
          (case dockerConfigJSON (cfg_Registry cfg) of
             Inl err \<Rightarrow> Some (([], Some err), w)
           | Inr payload \<Rightarrow>
          (case api (GetSecret namespace name) (oa_Get secrets c namespace name) w of
             (Inr _, w1) \<Rightarrow>
               map_option (\<lambda>(err, w2). ((name, err), w2))
                 (kc_RetryOnConflict k (update_secret k c namespace payload) w1)
           | (Inl err, w1) \<Rightarrow>
               if \<not> IsNotFound err then Some (([], Some err), w1)
               else let s = wanted_secret cfg namespace payload;
                        (err, w2) = api (CreateSecret namespace s) (oa_Create secrets c namespace s) w1
                    in Some ((name, err), w2))))"

section \<open>Waiting for a deletion\<close>

text \<open>
  A \<open>select\<close> over channels that become ready at given times: it goes on at the first of them (at once
  when some are ready), with one of those that are ready then; \<open>n\<close> is the choice among these.
\<close>

datatype wake = CtxDone | DeadlineTimer | TickerTick

definition select_ready :: "int \<Rightarrow> (int \<times> wake) list \<Rightarrow> nat \<Rightarrow> int \<times> wake" where
  "select_ready now events n =
     (let ready = map (\<lambda>(t, ev). (max now t, ev)) events;
          first = Min (set (map fst ready));
          candidates = filter (\<lambda>p. fst p = first) ready
      in candidates ! (n mod length candidates))"

definition ctx_wake :: "int \<Rightarrow> ctx \<Rightarrow> (int \<times> wake) list" where
  "ctx_wake now c =
     (if ctx_err now c \<noteq> None then [(now, CtxDone)]
      else case ctx_deadline c of None \<Rightarrow> [] | Some dl \<Rightarrow> [(dl, CtxDone)])"

definition deletion_timeout :: int where "deletion_timeout = 60 * second"
definition deletion_period :: int where "deletion_period = 100000000"

text \<open>\<open>Inr ()\<close> leaves the loop, \<open>Inl\<close> returns from the function.\<close>

fun deletion_loop ::
  "('q, 'e) kubernetes_client \<Rightarrow> ctx \<Rightarrow> string \<Rightarrow> string \<Rightarrow> int \<Rightarrow> nat \<Rightarrow> int \<Rightarrow> ('q, 'e) cluster \<Rightarrow>
   ((go_error option + unit) \<times> ('q, 'e) cluster) option" where
  "deletion_loop k c ns deploymentName deadline 0 tick w = None"
| "deletion_loop k c ns deploymentName deadline (Suc fuel) tick w =
     (case api (GetDeployment ns deploymentName) (oa_Get (cs_Deployments (kc_clientset k)) c ns deploymentName) w of
        (Inl err, w1) \<Rightarrow>
          if IsNotFound err then Some (Inr (), w1)
          else Some (Inl (Some (WrapError (''wait for deployment '' @ deploymentName @ '' deletion: '') err)), w1)
      | (Inr _, w1) \<Rightarrow>
          let now = kc_Now k (cl_ext w1);
              (t, ev) = select_ready now (ctx_wake now c @ [(deadline, DeadlineTimer), (tick, TickerTick)])
                (kc_Select k (cl_ext w1));
              w2 = w1\<lparr>cl_ext := kc_Sleep k t (cl_ext w1)\<rparr>
          in case ev of
               CtxDone \<Rightarrow> Some (Inl (ctx_err t c), w2)
             | DeadlineTimer \<Rightarrow>
                 Some (Inl (Some (ErrorString (''timed out waiting for deployment '' @ deploymentName @ '' deletion''))), w2)
             | TickerTick \<Rightarrow>
                 deletion_loop k c ns deploymentName deadline fuel (tick_after deletion_period tick t) w2)"

text \<open>The arguments that only the log line uses are left out.\<close>

definition recreateDeployment ::
  "('q, 'e) kubernetes_client \<Rightarrow> nat \<Rightarrow> ctx \<Rightarrow> string \<Rightarrow> 'q k8s_deployment \<Rightarrow> string \<Rightarrow> ('q, 'e) attempt" where
  "recreateDeployment k fuel c ns desired deploymentName w =
     (let deployments = cs_Deployments (kc_clientset k);
          (deleteErr, w1) = api (DeleteDeployment ns deploymentName ''Foreground'')
            (oa_Delete deployments c ns deploymentName ''Foreground'') w;
          start = kc_Now k (cl_ext w1);
          recreate =
            (case deletion_loop k c ns deploymentName (start + deletion_timeout) fuel (start + deletion_period) w1 of
               None \<Rightarrow> None
             | Some (Inl err, w2) \<Rightarrow> Some (err, w2)
             | Some (Inr _, w2) \<Rightarrow> Some (api (CreateDeployment ns desired) (oa_Create deployments c ns desired) w2))
      in case deleteErr of
           None \<Rightarrow> recreate
         | Some err \<Rightarrow>
             if IsNotFound err then recreate
             else Some (Some (WrapError (''delete deployment '' @ deploymentName @ '' for selector change: '') err), w1))"

section \<open>The deployment\<close>

text \<open>
  One run of the function given to \<open>RetryOnConflict\<close>. It sets the resource version of the shared
  \<open>desired\<close> anew each time before it is used, so that each run may start from the original.
\<close>

definition update_deployment ::
  "('q, 'e) kubernetes_client \<Rightarrow> nat \<Rightarrow> ctx \<Rightarrow> deployment_target \<Rightarrow> 'q k8s_deployment \<Rightarrow> ('q, 'e) attempt" where
  "update_deployment k fuel c target desired w =
     (let deployments = cs_Deployments (kc_clientset k); ns = dt_Namespace target; name = dt_DeploymentName target in
      case api (GetDeployment ns name) (oa_Get deployments c ns name) w of
        (Inl err, w1) \<Rightarrow> Some (Some err, w1)
      | (Inr latest, w1) \<Rightarrow>
          let d = desired\<lparr>dp_ResourceVersion := dp_ResourceVersion latest\<rparr> in
          (case api (UpdateDeployment ns d) (oa_Update deployments c ns d) w1 of
             (None, w2) \<Rightarrow> Some (None, w2)
           | (Some err, w2) \<Rightarrow>
               if IsInvalid err \<and> Contains (ToLower (error_text err)) ''selector''
               then recreateDeployment k fuel c ns d name w2
               else Some (Some err, w2)))"

definition match_labels :: "'q k8s_deployment \<Rightarrow> labels" where
  "match_labels d = (case dp_Selector d of None \<Rightarrow> [] | Some ls \<Rightarrow> ls)"

definition ensureDeployment ::
  "('q, 'e) kubernetes_client \<Rightarrow> nat \<Rightarrow> ctx \<Rightarrow> deploy_request \<Rightarrow> deployment_target \<Rightarrow> labels \<Rightarrow> string \<Rightarrow>
   ('q, 'e) attempt" where
  "ensureDeployment k fuel c request target labels pullSecretName w =
     (case buildResourceRequirements (kc_ParseQuantity k) (cfg_ResourceDefaults (kc_cfg k)) of
        Inl err \<Rightarrow> Some (Some err, w)
      | Inr resources \<Rightarrow>
          let deployments = cs_Deployments (kc_clientset k); ns = dt_Namespace target; name = dt_DeploymentName target;
              desired = wanted_deployment (kc_cfg k) request target labels pullSecretName resources
          in case api (GetDeployment ns name) (oa_Get deployments c ns name) w of
               (Inr existing, w1) \<Rightarrow>
                 if \<not> maps_Equal (match_labels existing) (match_labels desired)
                 then recreateDeployment k fuel c ns desired name w1
                 else kc_RetryOnConflict k (update_deployment k fuel c target desired) w1
             | (Inl err, w1) \<Rightarrow>
                 if \<not> IsNotFound err then Some (Some err, w1)
                 else Some (api (CreateDeployment ns desired) (oa_Create deployments c ns desired) w1))"

section \<open>The service and the ingress\<close>

definition update_service ::
  "('q, 'e) kubernetes_client \<Rightarrow> ctx \<Rightarrow> deployment_target \<Rightarrow> k8s_service \<Rightarrow> ('q, 'e) attempt" where
  "update_service k c target desired w =
     (let services = cs_Services (kc_clientset k); ns = dt_Namespace target; name = dt_ServiceName target in
      case api (GetService ns name) (oa_Get services c ns name) w of
        (Inl err, w1) \<Rightarrow> Some (Some err, w1)
      | (Inr latest, w1) \<Rightarrow>
          let s = desired\<lparr>sv_ResourceVersion := sv_ResourceVersion latest, sv_ClusterIP := sv_ClusterIP latest,
                sv_ClusterIPs := sv_ClusterIPs latest, sv_IPFamilies := sv_IPFamilies latest,
                sv_IPFamilyPolicy := sv_IPFamilyPolicy latest,
                sv_InternalTrafficPolicy := sv_InternalTrafficPolicy latest\<rparr>
          in Some (api (UpdateService ns s) (oa_Update services c ns s) w1))"

definition ensureService ::
  "('q, 'e) kubernetes_client \<Rightarrow> ctx \<Rightarrow> deployment_target \<Rightarrow> labels \<Rightarrow> ('q, 'e) attempt" where
  "ensureService k c target labels w =
     (let services = cs_Services (kc_clientset k); ns = dt_Namespace target; name = dt_ServiceName target;
          desired = wanted_service target labels in
      case api (GetService ns name) (oa_Get services c ns name) w of
        (Inr _, w1) \<Rightarrow> kc_RetryOnConflict k (update_service k c target desired) w1
      | (Inl err, w1) \<Rightarrow>
          if \<not> IsNotFound err then Some (Some err, w1)
          else Some (api (CreateService ns desired) (oa_Create services c ns desired) w1))"

definition update_ingress ::
  "('q, 'e) kubernetes_client \<Rightarrow> ctx \<Rightarrow> deployment_target \<Rightarrow> k8s_ingress \<Rightarrow> ('q, 'e) attempt" where
  "update_ingress k c target desired w =
     (let ingresses = cs_Ingresses (kc_clientset k); ns = dt_Namespace target; name = dt_IngressName target in
      case api (GetIngress ns name) (oa_Get ingresses c ns name) w of
        (Inl err, w1) \<Rightarrow> Some (Some err, w1)
      | (Inr latest, w1) \<Rightarrow>
          let i = desired\<lparr>ig_ResourceVersion := ig_ResourceVersion latest\<rparr>
          in Some (api (UpdateIngress ns i) (oa_Update ingresses c ns i) w1))"

definition ensureIngress ::
  "('q, 'e) kubernetes_client \<Rightarrow> ctx \<Rightarrow> deployment_target \<Rightarrow> labels \<Rightarrow> ('q, 'e) attempt" where
  "ensureIngress k c target labels w =
     (let ingresses = cs_Ingresses (kc_clientset k); ns = dt_Namespace target; name = dt_IngressName target;
          desired = wanted_ingress (kc_cfg k) target labels in
      case api (GetIngress ns name) (oa_Get ingresses c ns name) w of
        (Inr _, w1) \<Rightarrow> kc_RetryOnConflict k (update_ingress k c target desired) w1
      | (Inl err, w1) \<Rightarrow>
          if \<not> IsNotFound err then Some (Some err, w1)
          else Some (api (CreateIngress ns desired) (oa_Create ingresses c ns desired) w1))"

section \<open>Deploying a request\<close>

text \<open>A step of \<open>Deploy\<close>: an error ends it, with the name of the step in front.\<close>

definition step ::
  "string \<Rightarrow> deployment_target \<Rightarrow> (go_error option \<times> ('q, 'e) cluster) option \<Rightarrow>
   (('q, 'e) cluster \<Rightarrow> ((deployment_target \<times> go_error option) \<times> ('q, 'e) cluster) option) \<Rightarrow>
   ((deployment_target \<times> go_error option) \<times> ('q, 'e) cluster) option" where
  "step what target r rest =
     (case r of
        None \<Rightarrow> None
      | Some (Some err, w) \<Rightarrow> Some ((target, Some (WrapError what err)), w)
      | Some (None, w) \<Rightarrow> rest w)"

definition Deploy ::
  "('q, 'e) kubernetes_client \<Rightarrow> nat \<Rightarrow> ctx \<Rightarrow> deploy_request \<Rightarrow> ('q, 'e) cluster \<Rightarrow>
   ((deployment_target \<times> go_error option) \<times> ('q, 'e) cluster) option" where
  "Deploy k fuel c request w =
     (case targetForRequest (kc_cfg k) request of
        Inl err \<Rightarrow> Some ((zero_target, Some err), w)
      | Inr target \<Rightarrow>
          let labels = labelsForRequest request in
          step ''ensure namespace: '' target (Some (ensureNamespace k c (dt_Namespace target) labels w)) (\<lambda>w1.
          case ensureRegistryPullSecret k c (dt_Namespace target) w1 of
            None \<Rightarrow> None
          | Some ((_, Some err), w2) \<Rightarrow> Some ((target, Some (WrapError ''ensure registry pull secret: '' err)), w2)
          | Some ((pullSecretName, None), w2) \<Rightarrow>
          step ''ensure deployment: '' target (ensureDeployment k fuel c request target labels pullSecretName w2) (\<lambda>w3.
          step ''ensure service: '' target (ensureService k c target labels w3) (\<lambda>w4.
          step ''ensure ingress: '' target (ensureIngress k c target labels w4) (\<lambda>w5.
          Some ((target, None), w5))))))"

end
