(* ===== verification/Reconciler_Protocol.thy ===== *)
theory Reconciler_Protocol
  imports Reconciler
begin

text \<open>
  The abstract protocol of the reconciler: which sequences of API calls, with which answers, lead to
  which result. \<open>conflict_retry\<close> is the contract of \<open>retry.RetryOnConflict\<close>; \<open>Deploy_run\<close> proves that
  \<open>Deploy\<close> keeps to the protocol, whatever the API server answers.
\<close>

section \<open>Retrying on conflicts\<close>

text \<open>
  What the documentation of client-go says of \<open>RetryOnConflict\<close> with \<open>DefaultRetry\<close>: the function is called
  up to five times with pauses in between, again only after a conflict; the last error is returned.
\<close>

fun conflict_loop :: "('e \<Rightarrow> 'e) list \<Rightarrow> ('q, 'e) attempt \<Rightarrow> ('q, 'e) attempt" where
  "conflict_loop [] f w = f w"
| "conflict_loop (pause # pauses) f w =
     (case f w of
        Some (Some err, w1) \<Rightarrow>
          if IsConflict err then conflict_loop pauses f (w1\<lparr>cl_ext := pause (cl_ext w1)\<rparr>) else Some (Some err, w1)
      | r \<Rightarrow> r)"

text \<open>The calls of up to \<open>n\<close> runs of a function, each but the last of which met a conflict.\<close>

inductive conflict_runs ::
  "('q api_call list \<Rightarrow> go_error option \<Rightarrow> bool) \<Rightarrow> nat \<Rightarrow> 'q api_call list \<Rightarrow> go_error option \<Rightarrow> bool" for once where
  last_run: "once t r \<Longrightarrow> conflict_runs once (Suc n) t r"
| run_again: "\<lbrakk>once t (Some err); IsConflict err; conflict_runs once n u r\<rbrakk> \<Longrightarrow> conflict_runs once (Suc n) (t @ u) r"

definition ran :: "('q, 'e) cluster \<Rightarrow> 'q api_call list \<Rightarrow> ('q, 'e) cluster \<Rightarrow> bool" where
  "ran w t w' \<longleftrightarrow> cl_calls w' = cl_calls w @ t"

lemma ran_refl [simp]: "ran w [] w"
  by (simp add: ran_def)

lemma ran_trans: "ran w t w1 \<Longrightarrow> ran w1 u w2 \<Longrightarrow> ran w (t @ u) w2"
  by (simp add: ran_def)

lemma ran_Cons: "ran w [x] w1 \<Longrightarrow> ran w1 u w2 \<Longrightarrow> ran w (x # u) w2"
  by (simp add: ran_def)

lemma ran_ext [simp]: "ran (w\<lparr>cl_ext := e\<rparr>) t w' = ran w t w'" "ran w t (w'\<lparr>cl_ext := e\<rparr>) = ran w t w'"
  by (simp_all add: ran_def)

lemma ran_api: "api note f w = (r, w') \<Longrightarrow> ran w [note r] w'"
  by (auto simp: api_def ran_def split: prod.splits)

lemma conflict_loop_runs:
  assumes once: "\<And>w r w'. f w = Some (r, w') \<Longrightarrow> \<exists>t. ran w t w' \<and> once t r"
  shows "conflict_loop pauses f w = Some (r, w') \<Longrightarrow> \<exists>t. ran w t w' \<and> conflict_runs once (Suc (length pauses)) t r"
proof (induction pauses arbitrary: w)
  case Nil
  then obtain t where "ran w t w'" "once t r" using once [of w r w'] by auto
  then show ?case using last_run [of once t r 0] by auto
next
  case (Cons pause pauses)
  obtain r1 w1 where f: "f w = Some (r1, w1)" using Cons.prems by (auto split: option.splits)
  then obtain t where t: "ran w t w1" "once t r1" using once by blast
  show ?case
  proof (cases "\<exists>err. r1 = Some err \<and> IsConflict err")
    case True
    then obtain err where err: "r1 = Some err" "IsConflict err" by blast
    then obtain u where u: "ran w1 u w'" "conflict_runs once (Suc (length pauses)) u r"
      using Cons.IH [of "w1\<lparr>cl_ext := pause (cl_ext w1)\<rparr>"] Cons.prems f by auto
    then show ?thesis using t err run_again [of once t err] ran_trans by fastforce
  next
    case False
    then have "r1 = r" "w1 = w'" using Cons.prems f by (auto split: option.splits if_splits)
    then show ?thesis using t last_run by fastforce
  qed
qed

locale conflict_retry =
  fixes retry :: "('q, 'e) attempt \<Rightarrow> ('q, 'e) attempt"
  assumes retries: "\<exists>pauses. length pauses = 4 \<and> retry f w = conflict_loop pauses f w"
begin

lemma retry_runs:
  assumes "\<And>w r w'. f w = Some (r, w') \<Longrightarrow> \<exists>t. ran w t w' \<and> once t r" "retry f w = Some (r, w')"
  shows "\<exists>t. ran w t w' \<and> conflict_runs once 5 t r"
proof -
  obtain pauses where "length pauses = 4" "retry f w = conflict_loop pauses f w" using retries by blast
  then show ?thesis using conflict_loop_runs [of f once pauses w r w'] assms by simp
qed

end

lemma conflict_retry_loop: "length pauses = 4 \<Longrightarrow> conflict_retry (conflict_loop pauses)"
  by unfold_locales blast

section \<open>The protocol\<close>

inductive namespace_run :: "string \<Rightarrow> labels \<Rightarrow> 'q api_call list \<Rightarrow> go_error option \<Rightarrow> bool" for ns ls where
  namespace_found: "namespace_run ns ls [GetNamespace ns (Inr current)] (checkNamespaceOwnership current ns ls)"
| namespace_failed: "\<not> IsNotFound err \<Longrightarrow>
    namespace_run ns ls [GetNamespace ns (Inl err)] (Some (WrapError (''get namespace '' @ ns @ '': '') err))"
| namespace_created: "IsNotFound err \<Longrightarrow>
    namespace_run ns ls [GetNamespace ns (Inl err), CreateNamespace (wanted_namespace ns ls) None] None"
| namespace_not_created: "\<lbrakk>IsNotFound err; \<not> IsAlreadyExists err'\<rbrakk> \<Longrightarrow>
    namespace_run ns ls [GetNamespace ns (Inl err), CreateNamespace (wanted_namespace ns ls) (Some err')]
      (Some (WrapError (''create namespace '' @ ns @ '': '') err'))"
| namespace_raced: "\<lbrakk>IsNotFound err; IsAlreadyExists err'\<rbrakk> \<Longrightarrow>
    namespace_run ns ls [GetNamespace ns (Inl err), CreateNamespace (wanted_namespace ns ls) (Some err'),
      GetNamespace ns (Inr current)] (checkNamespaceOwnership current ns ls)"
| namespace_raced_failed: "\<lbrakk>IsNotFound err; IsAlreadyExists err'\<rbrakk> \<Longrightarrow>
    namespace_run ns ls [GetNamespace ns (Inl err), CreateNamespace (wanted_namespace ns ls) (Some err'),
      GetNamespace ns (Inl err'')] (Some (WrapError (''get namespace '' @ ns @ '' after create race: '') err''))"

definition filled_secret :: "k8s_secret \<Rightarrow> string \<Rightarrow> k8s_secret" where
  "filled_secret s payload =
     s\<lparr>sc_Type := ''kubernetes.io/dockerconfigjson'', sc_Data := [(''.dockerconfigjson'', payload)]\<rparr>"

inductive update_secret_run ::
  "string \<Rightarrow> string \<Rightarrow> string \<Rightarrow> 'q api_call list \<Rightarrow> go_error option \<Rightarrow> bool" for ns name payload where
  secret_unread: "update_secret_run ns name payload [GetSecret ns name (Inl err)] (Some err)"
| secret_written: "update_secret_run ns name payload
    [GetSecret ns name (Inr latest), UpdateSecret ns (filled_secret latest payload) r] r"

text \<open>When the configuration asks for a pull secret, and its content.\<close>

definition secret_payload :: "config \<Rightarrow> string \<Rightarrow> bool" where
  "secret_payload cfg payload \<longleftrightarrow> ImagePullSecretName cfg \<noteq> [] \<and>
     registryCredentialsConfigured (cfg_Registry cfg) = Inr True \<and> dockerConfigJSON (cfg_Registry cfg) = Inr payload"

inductive secret_run ::
  "config \<Rightarrow> string \<Rightarrow> 'q api_call list \<Rightarrow> string \<Rightarrow> go_error option \<Rightarrow> bool" for cfg ns where
  secret_not_wanted: "ImagePullSecretName cfg = [] \<or> registryCredentialsConfigured (cfg_Registry cfg) = Inr False \<Longrightarrow>
    secret_run cfg ns [] [] None"
| secret_misconfigured: "\<lbrakk>ImagePullSecretName cfg \<noteq> []; registryCredentialsConfigured (cfg_Registry cfg) = Inl err\<rbrakk> \<Longrightarrow>
    secret_run cfg ns [] [] (Some err)"
| secret_failed: "\<lbrakk>secret_payload cfg payload; \<not> IsNotFound err\<rbrakk> \<Longrightarrow>
    secret_run cfg ns [GetSecret ns (ImagePullSecretName cfg) (Inl err)] [] (Some err)"
| secret_created: "\<lbrakk>secret_payload cfg payload; IsNotFound err\<rbrakk> \<Longrightarrow>
    secret_run cfg ns [GetSecret ns (ImagePullSecretName cfg) (Inl err), CreateSecret ns (wanted_secret cfg ns payload) r]
      (ImagePullSecretName cfg) r"
| secret_updated: "\<lbrakk>secret_payload cfg payload;
    conflict_runs (update_secret_run ns (ImagePullSecretName cfg) payload) 5 t r\<rbrakk> \<Longrightarrow>
    secret_run cfg ns (GetSecret ns (ImagePullSecretName cfg) (Inr s) # t) (ImagePullSecretName cfg) r"

inductive deletion_run ::
  "string \<Rightarrow> string \<Rightarrow> 'q api_call list \<Rightarrow> go_error option + unit \<Rightarrow> bool" for ns name where
  deployment_gone: "IsNotFound err \<Longrightarrow> deletion_run ns name [GetDeployment ns name (Inl err)] (Inr ())"
| deletion_unknown: "\<not> IsNotFound err \<Longrightarrow> deletion_run ns name [GetDeployment ns name (Inl err)]
    (Inl (Some (WrapError (''wait for deployment '' @ name @ '' deletion: '') err)))"
| deletion_given_up: "err \<in> {ContextCanceled, ContextDeadlineExceeded,
      ErrorString (''timed out waiting for deployment '' @ name @ '' deletion'')} \<Longrightarrow>
    deletion_run ns name [GetDeployment ns name (Inr d)] (Inl (Some err))"
| deletion_pending: "deletion_run ns name t r \<Longrightarrow> deletion_run ns name (GetDeployment ns name (Inr d) # t) r"

definition delete_accepted :: "go_error option \<Rightarrow> bool" where
  "delete_accepted r \<longleftrightarrow> (case r of None \<Rightarrow> True | Some err \<Rightarrow> IsNotFound err)"

inductive recreate_run ::
  "string \<Rightarrow> string \<Rightarrow> 'q k8s_deployment \<Rightarrow> 'q api_call list \<Rightarrow> go_error option \<Rightarrow> bool" for ns name desired where
  not_deleted: "\<not> IsNotFound err \<Longrightarrow> recreate_run ns name desired [DeleteDeployment ns name ''Foreground'' (Some err)]
    (Some (WrapError (''delete deployment '' @ name @ '' for selector change: '') err))"
| not_gone: "\<lbrakk>delete_accepted d; deletion_run ns name t (Inl r)\<rbrakk> \<Longrightarrow>
    recreate_run ns name desired (DeleteDeployment ns name ''Foreground'' d # t) r"
| recreated: "\<lbrakk>delete_accepted d; deletion_run ns name t (Inr ())\<rbrakk> \<Longrightarrow>
    recreate_run ns name desired (DeleteDeployment ns name ''Foreground'' d # t @ [CreateDeployment ns desired r]) r"

definition selector_rejected :: "go_error \<Rightarrow> bool" where
  "selector_rejected err \<longleftrightarrow> IsInvalid err \<and> Contains (ToLower (error_text err)) ''selector''"

definition versioned_deployment :: "'q k8s_deployment \<Rightarrow> string \<Rightarrow> 'q k8s_deployment" where
  "versioned_deployment d v = d\<lparr>dp_ResourceVersion := v\<rparr>"

inductive update_deployment_run ::
  "string \<Rightarrow> string \<Rightarrow> 'q k8s_deployment \<Rightarrow> 'q api_call list \<Rightarrow> go_error option \<Rightarrow> bool" for ns name desired where
  deployment_unread: "update_deployment_run ns name desired [GetDeployment ns name (Inl err)] (Some err)"
| deployment_updated: "update_deployment_run ns name desired
    [GetDeployment ns name (Inr latest), UpdateDeployment ns (versioned_deployment desired (dp_ResourceVersion latest)) None] None"
| deployment_not_updated: "\<not> selector_rejected err \<Longrightarrow> update_deployment_run ns name desired
    [GetDeployment ns name (Inr latest),
     UpdateDeployment ns (versioned_deployment desired (dp_ResourceVersion latest)) (Some err)] (Some err)"
| deployment_rejected: "\<lbrakk>selector_rejected err;
    recreate_run ns name (versioned_deployment desired (dp_ResourceVersion latest)) t r\<rbrakk> \<Longrightarrow>
    update_deployment_run ns name desired
    (GetDeployment ns name (Inr latest) #
     UpdateDeployment ns (versioned_deployment desired (dp_ResourceVersion latest)) (Some err) # t) r"

inductive deployment_run ::
  "string \<Rightarrow> string \<Rightarrow> 'q k8s_deployment \<Rightarrow> 'q api_call list \<Rightarrow> go_error option \<Rightarrow> bool" for ns name desired where
  deployment_failed: "\<not> IsNotFound err \<Longrightarrow>
    deployment_run ns name desired [GetDeployment ns name (Inl err)] (Some err)"
| deployment_created: "IsNotFound err \<Longrightarrow>
    deployment_run ns name desired [GetDeployment ns name (Inl err), CreateDeployment ns desired r] r"
| selector_changed: "\<lbrakk>map_of (match_labels existing) \<noteq> map_of (match_labels desired); recreate_run ns name desired t r\<rbrakk> \<Longrightarrow>
    deployment_run ns name desired (GetDeployment ns name (Inr existing) # t) r"
| selector_kept: "\<lbrakk>map_of (match_labels existing) = map_of (match_labels desired);
    conflict_runs (update_deployment_run ns name desired) 5 t r\<rbrakk> \<Longrightarrow>
    deployment_run ns name desired (GetDeployment ns name (Inr existing) # t) r"

definition adopted_service :: "k8s_service \<Rightarrow> k8s_service \<Rightarrow> k8s_service" where
  "adopted_service desired latest =
     desired\<lparr>sv_ResourceVersion := sv_ResourceVersion latest, sv_ClusterIP := sv_ClusterIP latest,
       sv_ClusterIPs := sv_ClusterIPs latest, sv_IPFamilies := sv_IPFamilies latest,
       sv_IPFamilyPolicy := sv_IPFamilyPolicy latest, sv_InternalTrafficPolicy := sv_InternalTrafficPolicy latest\<rparr>"

inductive update_service_run ::
  "string \<Rightarrow> string \<Rightarrow> k8s_service \<Rightarrow> 'q api_call list \<Rightarrow> go_error option \<Rightarrow> bool" for ns name desired where
  service_unread: "update_service_run ns name desired [GetService ns name (Inl err)] (Some err)"
| service_written: "update_service_run ns name desired
    [GetService ns name (Inr latest), UpdateService ns (adopted_service desired latest) r] r"

inductive service_run ::
  "string \<Rightarrow> string \<Rightarrow> k8s_service \<Rightarrow> 'q api_call list \<Rightarrow> go_error option \<Rightarrow> bool" for ns name desired where
  service_failed: "\<not> IsNotFound err \<Longrightarrow> service_run ns name desired [GetService ns name (Inl err)] (Some err)"
| service_created: "IsNotFound err \<Longrightarrow>
    service_run ns name desired [GetService ns name (Inl err), CreateService ns desired r] r"
| service_updated: "conflict_runs (update_service_run ns name desired) 5 t r \<Longrightarrow>
    service_run ns name desired (GetService ns name (Inr s) # t) r"

definition versioned_ingress :: "k8s_ingress \<Rightarrow> string \<Rightarrow> k8s_ingress" where
  "versioned_ingress i v = i\<lparr>ig_ResourceVersion := v\<rparr>"

inductive update_ingress_run ::
  "string \<Rightarrow> string \<Rightarrow> k8s_ingress \<Rightarrow> 'q api_call list \<Rightarrow> go_error option \<Rightarrow> bool" for ns name desired where
  ingress_unread: "update_ingress_run ns name desired [GetIngress ns name (Inl err)] (Some err)"
| ingress_written: "update_ingress_run ns name desired
    [GetIngress ns name (Inr latest), UpdateIngress ns (versioned_ingress desired (ig_ResourceVersion latest)) r] r"

inductive ingress_run ::
  "string \<Rightarrow> string \<Rightarrow> k8s_ingress \<Rightarrow> 'q api_call list \<Rightarrow> go_error option \<Rightarrow> bool" for ns name desired where
  ingress_failed: "\<not> IsNotFound err \<Longrightarrow> ingress_run ns name desired [GetIngress ns name (Inl err)] (Some err)"
| ingress_created: "IsNotFound err \<Longrightarrow>
    ingress_run ns name desired [GetIngress ns name (Inl err), CreateIngress ns desired r] r"
| ingress_updated: "conflict_runs (update_ingress_run ns name desired) 5 t r \<Longrightarrow>
    ingress_run ns name desired (GetIngress ns name (Inr i) # t) r"

text \<open>The steps of \<open>Deploy\<close> after the secret: deployment, service and ingress, in this order.\<close>

inductive objects_run ::
  "('q, 'e) kubernetes_client \<Rightarrow> deploy_request \<Rightarrow> deployment_target \<Rightarrow> string \<Rightarrow> 'q api_call list \<Rightarrow>
   go_error option \<Rightarrow> bool" for k request target secret where
  no_resources: "buildResourceRequirements (kc_ParseQuantity k) (cfg_ResourceDefaults (kc_cfg k)) = Inl err \<Longrightarrow>
    objects_run k request target secret [] (Some (WrapError ''ensure deployment: '' err))"
| no_deployment: "\<lbrakk>
    buildResourceRequirements (kc_ParseQuantity k) (cfg_ResourceDefaults (kc_cfg k)) = Inr resources;
    deployment_run (dt_Namespace target) (dt_DeploymentName target)
      (wanted_deployment (kc_cfg k) request target (labelsForRequest request) secret resources) t (Some err)\<rbrakk> \<Longrightarrow>
    objects_run k request target secret t (Some (WrapError ''ensure deployment: '' err))"
| no_service: "\<lbrakk>
    buildResourceRequirements (kc_ParseQuantity k) (cfg_ResourceDefaults (kc_cfg k)) = Inr resources;
    deployment_run (dt_Namespace target) (dt_DeploymentName target)
      (wanted_deployment (kc_cfg k) request target (labelsForRequest request) secret resources) t None;
    service_run (dt_Namespace target) (dt_ServiceName target)
      (wanted_service target (labelsForRequest request)) u (Some err)\<rbrakk> \<Longrightarrow>
    objects_run k request target secret (t @ u) (Some (WrapError ''ensure service: '' err))"
| ingress_last: "\<lbrakk>
    buildResourceRequirements (kc_ParseQuantity k) (cfg_ResourceDefaults (kc_cfg k)) = Inr resources;
    deployment_run (dt_Namespace target) (dt_DeploymentName target)
      (wanted_deployment (kc_cfg k) request target (labelsForRequest request) secret resources) t None;
    service_run (dt_Namespace target) (dt_ServiceName target)
      (wanted_service target (labelsForRequest request)) u None;
    ingress_run (dt_Namespace target) (dt_IngressName target)
      (wanted_ingress (kc_cfg k) target (labelsForRequest request)) v r\<rbrakk> \<Longrightarrow>
    objects_run k request target secret (t @ u @ v) (map_option (WrapError ''ensure ingress: '') r)"

inductive deploy_run ::
  "('q, 'e) kubernetes_client \<Rightarrow> deploy_request \<Rightarrow> 'q api_call list \<Rightarrow> deployment_target \<Rightarrow> go_error option \<Rightarrow> bool"
  for k request where
  no_target: "targetForRequest (kc_cfg k) request = Inl err \<Longrightarrow> deploy_run k request [] zero_target (Some err)"
| no_namespace: "\<lbrakk>targetForRequest (kc_cfg k) request = Inr target;
    namespace_run (dt_Namespace target) (labelsForRequest request) t (Some err)\<rbrakk> \<Longrightarrow>
    deploy_run k request t target (Some (WrapError ''ensure namespace: '' err))"
| no_secret: "\<lbrakk>targetForRequest (kc_cfg k) request = Inr target;
    namespace_run (dt_Namespace target) (labelsForRequest request) t None;
    secret_run (kc_cfg k) (dt_Namespace target) u name (Some err)\<rbrakk> \<Longrightarrow>
    deploy_run k request (t @ u) target (Some (WrapError ''ensure registry pull secret: '' err))"
| objects_last: "\<lbrakk>targetForRequest (kc_cfg k) request = Inr target;
    namespace_run (dt_Namespace target) (labelsForRequest request) t None;
    secret_run (kc_cfg k) (dt_Namespace target) u name None;
    objects_run k request target name v r\<rbrakk> \<Longrightarrow>
    deploy_run k request (t @ u @ v) target r"

section \<open>The reconciler keeps to the protocol\<close>

lemma ensureNamespace_run:
  assumes "ensureNamespace k c ns ls w = (r, w')"
  shows "\<exists>t. ran w t w' \<and> namespace_run ns ls t r"
proof -
  let ?api = "cs_Namespaces (kc_clientset k)"
  obtain g w1 where g: "api (GetNamespace ns) (oa_Get ?api c [] ns) w = (g, w1)" by fastforce
  obtain d w2 where d: "api (CreateNamespace (wanted_namespace ns ls)) (oa_Create ?api c [] (wanted_namespace ns ls)) w1 = (d, w2)"
    by fastforce
  obtain h w3 where h: "api (GetNamespace ns) (oa_Get ?api c [] ns) w2 = (h, w3)" by fastforce
  note R = ran_api [OF g] ran_Cons [OF ran_api [OF g] ran_api [OF d]]
    ran_Cons [OF ran_api [OF g] ran_Cons [OF ran_api [OF d] ran_api [OF h]]]
  show ?thesis
    using assms R unfolding ensureNamespace_def Let_def g
    by (auto simp: d h simp del: append_Cons split: sum.splits option.splits if_splits intro: namespace_run.intros)
qed

lemma update_secret_once:
  assumes "update_secret k c ns payload w = Some (r, w')"
  shows "\<exists>t. ran w t w' \<and> update_secret_run ns (ImagePullSecretName (kc_cfg k)) payload t r"
proof -
  let ?api = "cs_Secrets (kc_clientset k)" let ?n = "ImagePullSecretName (kc_cfg k)"
  obtain g w1 where g: "api (GetSecret ns ?n) (oa_Get ?api c ns ?n) w = (g, w1)" by fastforce
  show ?thesis
  proof (cases g)
    case (Inl err)
    then show ?thesis using assms ran_api [OF g]
      by (auto simp: update_secret_def Let_def g intro: secret_unread)
  next
    case (Inr latest)
    then have "api (UpdateSecret ns (filled_secret latest payload))
        (oa_Update ?api c ns (filled_secret latest payload)) w1 = (r, w')"
      using assms by (simp add: update_secret_def Let_def g filled_secret_def)
    from ran_Cons [OF ran_api [OF g] ran_api [OF this]] Inr show ?thesis
      using secret_written by blast
  qed
qed

lemma ctx_err_cases: "ctx_err t c \<in> {None, Some ContextCanceled, Some ContextDeadlineExceeded}"
  by (simp add: ctx_err_def split: option.split)

lemma select_ready_cases:
  assumes "select_ready now events n = (t, ev)" "events \<noteq> []"
  shows "\<exists>t0. (t0, ev) \<in> set events \<and> t = max now t0" "(t0, ev') \<in> set events \<Longrightarrow> t \<le> max now t0"
proof -
  define r where "r = map (\<lambda>(t, ev). (max now t, ev)) events"
  define m where "m = Min (set (map fst r))"
  let ?c = "filter (\<lambda>p. fst p = m) r"
  have "m \<in> set (map fst r)" unfolding m_def using assms(2) by (intro Min_in) (auto simp: r_def)
  then have "?c \<noteq> []" by (auto simp: filter_empty_conv)
  then have "?c ! (n mod length ?c) \<in> set ?c" by (intro nth_mem) simp
  then have c: "(t, ev) \<in> set ?c"
    using assms(1) unfolding select_ready_def Let_def r_def [symmetric] m_def [symmetric] by metis
  then show "\<exists>t0. (t0, ev) \<in> set events \<and> t = max now t0" by (auto simp: r_def)
  assume "(t0, ev') \<in> set events"
  then have "max now t0 \<in> set (map fst r)" by (force simp: r_def)
  then have "m \<le> max now t0" unfolding m_def by (intro Min_le) auto
  then show "t \<le> max now t0" using c by auto
qed

text \<open>When the context's channel is the one that is ready, the context is done.\<close>

lemma select_ctx_done:
  assumes "select_ready now (ctx_wake now c @ [(d, DeadlineTimer), (tick, TickerTick)]) n = (t, CtxDone)"
  shows "ctx_err t c \<noteq> None"
proof -
  obtain t0 where "(t0, CtxDone) \<in> set (ctx_wake now c)" "t = max now t0"
    using select_ready_cases(1) [OF assms] by auto
  then show ?thesis
    using ctx_err_mono [of now c t] by (auto simp: ctx_wake_def ctx_err_def split: if_splits option.splits)
qed

lemma deletion_loop_run:
  "deletion_loop k c ns name deadline fuel tick w = Some (r, w') \<Longrightarrow> \<exists>t. ran w t w' \<and> deletion_run ns name t r"
proof (induction k c ns name deadline fuel tick w rule: deletion_loop.induct)
  case (2 k c ns name deadline fuel tick w)
  let ?api = "cs_Deployments (kc_clientset k)"
  obtain g w1 where g: "api (GetDeployment ns name) (oa_Get ?api c ns name) w = (g, w1)" by fastforce
  note R = ran_api [OF g]
  show ?case
  proof (cases g)
    case (Inl err)
    then show ?thesis
      using 2(2) R by (auto simp: g simp del: append_Cons split: if_splits intro: deployment_gone deletion_unknown)
  next
    case (Inr d)
    let ?now = "kc_Now k (cl_ext w1)"
    obtain t ev where ev: "select_ready ?now (ctx_wake ?now c @ [(deadline, DeadlineTimer), (tick, TickerTick)])
        (kc_Select k (cl_ext w1)) = (t, ev)" by fastforce
    show ?thesis
    proof (cases ev)
      case TickerTick
      then obtain u where "ran w1 u w'" "deletion_run ns name u r"
        using 2 Inr g ev by (fastforce simp: Let_def)
      then show ?thesis using ran_Cons [OF R] deletion_pending Inr by blast
    next
      case CtxDone
      then obtain err where "ctx_err t c = Some err" using select_ctx_done ev by blast
      then show ?thesis
        using 2(2) Inr g ev R CtxDone ctx_err_cases [of t c]
        by (auto simp: Let_def intro!: exI [of _ "[GetDeployment ns name (Inr d)]"] deletion_given_up)
    next
      case DeadlineTimer
      then show ?thesis
        using 2(2) Inr g ev R
        by (auto simp: Let_def simp del: append_Cons
            intro!: exI [of _ "[GetDeployment ns name (Inr d)]"] deletion_given_up)
    qed
  qed
qed simp

lemma recreateDeployment_run:
  assumes "recreateDeployment k fuel c ns desired name w = Some (r, w')"
  shows "\<exists>t. ran w t w' \<and> recreate_run ns name desired t r"
proof -
  let ?api = "cs_Deployments (kc_clientset k)"
  obtain d w1 where d: "api (DeleteDeployment ns name ''Foreground'') (oa_Delete ?api c ns name ''Foreground'') w = (d, w1)"
    by fastforce
  let ?start = "kc_Now k (cl_ext w1)"
  let ?loop = "deletion_loop k c ns name (?start + deletion_timeout) fuel (?start + deletion_period) w1"
  note R = ran_api [OF d]
  show ?thesis
  proof (cases "delete_accepted d")
    case True
    then have rest: "(case ?loop of None \<Rightarrow> None | Some (Inl err, w2) \<Rightarrow> Some (err, w2)
        | Some (Inr u, w2) \<Rightarrow> Some (api (CreateDeployment ns desired) (oa_Create ?api c ns desired) w2)) = Some (r, w')"
      using assms by (auto simp: recreateDeployment_def Let_def d delete_accepted_def split: option.splits if_splits)
    then obtain l w2 where l: "?loop = Some (l, w2)" by (auto split: option.splits)
    then obtain t where t: "ran w1 t w2" "deletion_run ns name t l" using deletion_loop_run by blast
    show ?thesis
    proof (cases l)
      case (Inl err)
      then show ?thesis using rest l t ran_Cons [OF R t(1)] True not_gone by fastforce
    next
      case (Inr u)
      then have "api (CreateDeployment ns desired) (oa_Create ?api c ns desired) w2 = (r, w')" using rest l by simp
      then have "ran w (DeleteDeployment ns name ''Foreground'' d # t @ [CreateDeployment ns desired r]) w'"
        using ran_Cons [OF R ran_trans [OF t(1)]] ran_api by metis
      then show ?thesis using recreated [OF True] t(2) Inr by (metis old.unit.exhaust)
    qed
  next
    case False
    then show ?thesis
      using assms R by (auto simp: recreateDeployment_def Let_def d delete_accepted_def simp del: append_Cons
          split: option.splits if_splits intro!: exI [of _ "[DeleteDeployment ns name ''Foreground'' d]"] not_deleted)
  qed
qed

lemma update_deployment_once:
  assumes "update_deployment k fuel c target desired w = Some (r, w')"
  shows "\<exists>t. ran w t w' \<and> update_deployment_run (dt_Namespace target) (dt_DeploymentName target) desired t r"
proof -
  let ?api = "cs_Deployments (kc_clientset k)" let ?ns = "dt_Namespace target" let ?n = "dt_DeploymentName target"
  obtain g w1 where g: "api (GetDeployment ?ns ?n) (oa_Get ?api c ?ns ?n) w = (g, w1)" by fastforce
  show ?thesis
  proof (cases g)
    case (Inl err)
    then show ?thesis using assms ran_api [OF g]
      by (auto simp: update_deployment_def Let_def g intro: deployment_unread)
  next
    case (Inr latest)
    let ?d = "versioned_deployment desired (dp_ResourceVersion latest)"
    obtain u w2 where u: "api (UpdateDeployment ?ns ?d) (oa_Update ?api c ?ns ?d) w1 = (u, w2)" by fastforce
    note R = ran_Cons [OF ran_api [OF g] ran_api [OF u]]
    have a: "(case u of None \<Rightarrow> Some (None, w2)
        | Some err \<Rightarrow> if selector_rejected err then recreateDeployment k fuel c ?ns ?d ?n w2
            else Some (Some err, w2)) = Some (r, w')"
      using assms u by (cases u) (auto simp: update_deployment_def Let_def g Inr versioned_deployment_def selector_rejected_def split: if_splits)
    show ?thesis
    proof (cases u)
      case None
      then show ?thesis using a R Inr deployment_updated by fastforce
    next
      case (Some err)
      show ?thesis
      proof (cases "selector_rejected err")
        case True
        then obtain t where t: "ran w2 t w'" "recreate_run ?ns ?n ?d t r"
          using a Some recreateDeployment_run by fastforce
        then show ?thesis
          using ran_trans [OF R t(1)] deployment_rejected [OF True t(2)] Inr Some by auto
      next
        case False
        then show ?thesis using a R Inr Some deployment_not_updated by fastforce
      qed
    qed
  qed
qed

lemma update_service_once:
  assumes "update_service k c target desired w = Some (r, w')"
  shows "\<exists>t. ran w t w' \<and> update_service_run (dt_Namespace target) (dt_ServiceName target) desired t r"
proof -
  let ?api = "cs_Services (kc_clientset k)" let ?ns = "dt_Namespace target" let ?n = "dt_ServiceName target"
  obtain g w1 where g: "api (GetService ?ns ?n) (oa_Get ?api c ?ns ?n) w = (g, w1)" by fastforce
  show ?thesis
  proof (cases g)
    case (Inl err)
    then show ?thesis using assms ran_api [OF g]
      by (auto simp: update_service_def Let_def g intro: service_unread)
  next
    case (Inr latest)
    then have "api (UpdateService ?ns (adopted_service desired latest))
        (oa_Update ?api c ?ns (adopted_service desired latest)) w1 = (r, w')"
      using assms by (simp add: update_service_def Let_def g adopted_service_def)
    from ran_Cons [OF ran_api [OF g] ran_api [OF this]] Inr show ?thesis
      using service_written by blast
  qed
qed

lemma update_ingress_once:
  assumes "update_ingress k c target desired w = Some (r, w')"
  shows "\<exists>t. ran w t w' \<and> update_ingress_run (dt_Namespace target) (dt_IngressName target) desired t r"
proof -
  let ?api = "cs_Ingresses (kc_clientset k)" let ?ns = "dt_Namespace target" let ?n = "dt_IngressName target"
  obtain g w1 where g: "api (GetIngress ?ns ?n) (oa_Get ?api c ?ns ?n) w = (g, w1)" by fastforce
  show ?thesis
  proof (cases g)
    case (Inl err)
    then show ?thesis using assms ran_api [OF g]
      by (auto simp: update_ingress_def Let_def g intro: ingress_unread)
  next
    case (Inr latest)
    let ?i = "versioned_ingress desired (ig_ResourceVersion latest)"
    have "api (UpdateIngress ?ns ?i) (oa_Update ?api c ?ns ?i) w1 = (r, w')"
      using assms Inr by (simp add: update_ingress_def Let_def g versioned_ingress_def)
    from ran_Cons [OF ran_api [OF g] ran_api [OF this]] Inr show ?thesis
      using ingress_written by blast
  qed
qed

lemma ensureRegistryPullSecret_run:
  assumes "conflict_retry (kc_RetryOnConflict k)" "ensureRegistryPullSecret k c ns w = Some ((name, r), w')"
  shows "\<exists>t. ran w t w' \<and> secret_run (kc_cfg k) ns t name r"
proof -
  let ?cfg = "kc_cfg k" let ?api = "cs_Secrets (kc_clientset k)" let ?n = "ImagePullSecretName ?cfg"
  consider "?n = [] \<or> registryCredentialsConfigured (cfg_Registry ?cfg) = Inr False"
    | err where "?n \<noteq> []" "registryCredentialsConfigured (cfg_Registry ?cfg) = Inl err"
    | payload where "secret_payload ?cfg payload"
    by (cases "registryCredentialsConfigured (cfg_Registry ?cfg)") (auto simp: secret_payload_def dockerConfigJSON_def)
  then show ?thesis
  proof cases
    case 1
    then have "name = []" "r = None" "w' = w"
      using assms(2) by (auto simp: ensureRegistryPullSecret_def Let_def split: if_splits)
    then show ?thesis using secret_not_wanted [OF 1] by (intro exI [of _ "[]"]) simp
  next
    case (2 err)
    then have "name = []" "r = Some err" "w' = w"
      using assms(2) by (auto simp: ensureRegistryPullSecret_def Let_def split: if_splits)
    then show ?thesis using secret_misconfigured [OF 2] by (intro exI [of _ "[]"]) simp
  next
    case (3 payload)
    obtain g w1 where g: "api (GetSecret ns ?n) (oa_Get ?api c ns ?n) w = (g, w1)" by fastforce
    note R = ran_api [OF g]
    show ?thesis
    proof (cases g)
      case (Inl err)
      let ?s = "wanted_secret ?cfg ns payload"
      obtain d w2 where d: "api (CreateSecret ns ?s) (oa_Create ?api c ns ?s) w1 = (d, w2)" by fastforce
      show ?thesis
        using assms(2) 3 Inl R ran_Cons [OF R ran_api [OF d]]
        by (auto simp: ensureRegistryPullSecret_def Let_def secret_payload_def g d split: if_splits
            intro!: secret_failed [of _ payload] secret_created [of _ payload])
    next
      case (Inr s)
      then have "kc_RetryOnConflict k (update_secret k c ns payload) w1 = Some (r, w')" "name = ?n"
        using assms(2) 3 by (auto simp: ensureRegistryPullSecret_def Let_def secret_payload_def g)
      moreover obtain t where "ran w1 t w'" "conflict_runs (update_secret_run ns ?n payload) 5 t r"
        using conflict_retry.retry_runs [OF assms(1), of "update_secret k c ns payload"
          "update_secret_run ns ?n payload"] update_secret_once calculation(1) by blast
      ultimately show ?thesis using ran_Cons [OF R] secret_updated [OF 3] Inr by blast
    qed
  qed
qed

lemma ensureDeployment_run:
  assumes "conflict_retry (kc_RetryOnConflict k)"
    "ensureDeployment k fuel c request target ls name w = Some (r, w')"
    "buildResourceRequirements (kc_ParseQuantity k) (cfg_ResourceDefaults (kc_cfg k)) = Inr resources"
  shows "\<exists>t. ran w t w' \<and> deployment_run (dt_Namespace target) (dt_DeploymentName target)
     (wanted_deployment (kc_cfg k) request target ls name resources) t r"
proof -
  let ?api = "cs_Deployments (kc_clientset k)" let ?ns = "dt_Namespace target" let ?n = "dt_DeploymentName target"
  let ?d = "wanted_deployment (kc_cfg k) request target ls name resources"
  obtain g w1 where g: "api (GetDeployment ?ns ?n) (oa_Get ?api c ?ns ?n) w = (g, w1)" by fastforce
  obtain u w2 where u: "api (CreateDeployment ?ns ?d) (oa_Create ?api c ?ns ?d) w1 = (u, w2)" by fastforce
  note R = ran_api [OF g]
  show ?thesis
  proof (cases g)
    case (Inl err)
    then show ?thesis
      using assms(2,3) R ran_Cons [OF R ran_api [OF u]]
      by (auto simp: ensureDeployment_def Let_def g u split: if_splits
          intro!: deployment_failed deployment_created)
  next
    case (Inr existing)
    show ?thesis
    proof (cases "maps_Equal (match_labels existing) (match_labels ?d)")
      case True
      then have "kc_RetryOnConflict k (update_deployment k fuel c target ?d) w1 = Some (r, w')"
        using assms(2,3) Inr by (simp add: ensureDeployment_def Let_def g)
      then obtain t where "ran w1 t w'" "conflict_runs (update_deployment_run ?ns ?n ?d) 5 t r"
        using conflict_retry.retry_runs [OF assms(1), of "update_deployment k fuel c target ?d"
        "update_deployment_run ?ns ?n ?d"] update_deployment_once by blast
      then show ?thesis using ran_Cons [OF R] selector_kept True Inr unfolding maps_Equal_iff by blast
    next
      case False
      then have "recreateDeployment k fuel c ?ns ?d ?n w1 = Some (r, w')"
        using assms(2,3) Inr by (simp add: ensureDeployment_def Let_def g)
      then obtain t where "ran w1 t w'" "recreate_run ?ns ?n ?d t r"
        using recreateDeployment_run by blast
      then show ?thesis using ran_Cons [OF R] selector_changed False Inr unfolding maps_Equal_iff by blast
    qed
  qed
qed

lemma ensureService_run:
  assumes "conflict_retry (kc_RetryOnConflict k)" "ensureService k c target ls w = Some (r, w')"
  shows "\<exists>t. ran w t w' \<and> service_run (dt_Namespace target) (dt_ServiceName target) (wanted_service target ls) t r"
proof -
  let ?api = "cs_Services (kc_clientset k)" let ?ns = "dt_Namespace target" let ?n = "dt_ServiceName target"
  let ?d = "wanted_service target ls"
  obtain g w1 where g: "api (GetService ?ns ?n) (oa_Get ?api c ?ns ?n) w = (g, w1)" by fastforce
  obtain u w2 where u: "api (CreateService ?ns ?d) (oa_Create ?api c ?ns ?d) w1 = (u, w2)" by fastforce
  note R = ran_api [OF g]
  show ?thesis
  proof (cases g)
    case (Inl err)
    then show ?thesis
      using assms(2) R ran_Cons [OF R ran_api [OF u]]
      by (auto simp: ensureService_def Let_def g u split: if_splits intro!: service_failed service_created)
  next
    case (Inr s)
    then have "kc_RetryOnConflict k (update_service k c target ?d) w1 = Some (r, w')"
      using assms(2) by (simp add: ensureService_def Let_def g)
    then obtain t where "ran w1 t w'" "conflict_runs (update_service_run ?ns ?n ?d) 5 t r"
      using conflict_retry.retry_runs [OF assms(1), of "update_service k c target ?d"
        "update_service_run ?ns ?n ?d"] update_service_once by blast
    then show ?thesis using ran_Cons [OF R] service_updated Inr by blast
  qed
qed

lemma ensureIngress_run:
  assumes "conflict_retry (kc_RetryOnConflict k)" "ensureIngress k c target ls w = Some (r, w')"
  shows "\<exists>t. ran w t w' \<and>
     ingress_run (dt_Namespace target) (dt_IngressName target) (wanted_ingress (kc_cfg k) target ls) t r"
proof -
  let ?api = "cs_Ingresses (kc_clientset k)" let ?ns = "dt_Namespace target" let ?n = "dt_IngressName target"
  let ?d = "wanted_ingress (kc_cfg k) target ls"
  obtain g w1 where g: "api (GetIngress ?ns ?n) (oa_Get ?api c ?ns ?n) w = (g, w1)" by fastforce
  obtain u w2 where u: "api (CreateIngress ?ns ?d) (oa_Create ?api c ?ns ?d) w1 = (u, w2)" by fastforce
  note R = ran_api [OF g]
  show ?thesis
  proof (cases g)
    case (Inl err)
    then show ?thesis
      using assms(2) R ran_Cons [OF R ran_api [OF u]]
      by (auto simp: ensureIngress_def Let_def g u split: if_splits intro!: ingress_failed ingress_created)
  next
    case (Inr s)
    then have "kc_RetryOnConflict k (update_ingress k c target ?d) w1 = Some (r, w')"
      using assms(2) by (simp add: ensureIngress_def Let_def g)
    then obtain t where "ran w1 t w'" "conflict_runs (update_ingress_run ?ns ?n ?d) 5 t r"
      using conflict_retry.retry_runs [OF assms(1), of "update_ingress k c target ?d"
        "update_ingress_run ?ns ?n ?d"] update_ingress_once by blast
    then show ?thesis using ran_Cons [OF R] ingress_updated Inr by blast
  qed
qed

text \<open>A step of \<open>Deploy\<close> either ends it or hands its world on.\<close>

lemma step_cases:
  assumes "step what target r rest = Some ((tg, res), w')"
  obtains (failed) err where "r = Some (Some err, w')" "tg = target" "res = Some (WrapError what err)"
  | (passed) w1 where "r = Some (None, w1)" "rest w1 = Some ((tg, res), w')"
  using assms by (auto simp: step_def split: option.splits)

lemma objects_steps_run:
  assumes retry: "conflict_retry (kc_RetryOnConflict k)"
    and D: "step ''ensure deployment: '' target (ensureDeployment k fuel c request target (labelsForRequest request) name w) (\<lambda>w3.
          step ''ensure service: '' target (ensureService k c target (labelsForRequest request) w3) (\<lambda>w4.
          step ''ensure ingress: '' target (ensureIngress k c target (labelsForRequest request) w4) (\<lambda>w5.
          Some ((target, None), w5)))) = Some ((tg, r), w')"
  shows "\<exists>t. ran w t w' \<and> objects_run k request target name t r \<and> tg = target"
proof (cases "buildResourceRequirements (kc_ParseQuantity k) (cfg_ResourceDefaults (kc_cfg k))")
  case (Inl err)
  then have "w' = w" "tg = target" "r = Some (WrapError ''ensure deployment: '' err)"
    using D by (auto simp: ensureDeployment_def step_def)
  then show ?thesis using no_resources [OF Inl] by (intro exI [of _ "[]"]) simp
next
  case (Inr res)
  note dep = ensureDeployment_run [OF retry _ Inr] and no_dep = no_deployment [OF Inr]
    and svc = ensureService_run [OF retry] and ing = ensureIngress_run [OF retry]
  from D show ?thesis
  proof (cases rule: step_cases)
    case (failed err)
    then show ?thesis using dep no_dep by blast
  next
    case (passed w3)
    obtain t where R3: "ran w t w3" and t: "deployment_run (dt_Namespace target) (dt_DeploymentName target)
        (wanted_deployment (kc_cfg k) request target (labelsForRequest request) name res) t None"
      using dep [OF passed(1)] by blast
    from passed(2) show ?thesis
    proof (cases rule: step_cases)
      case (failed err)
      then show ?thesis using svc no_service [OF Inr t] ran_trans [OF R3] by blast
    next
      case (passed w4)
      obtain u where R4: "ran w (t @ u) w4"
        and u: "service_run (dt_Namespace target) (dt_ServiceName target) (wanted_service target (labelsForRequest request)) u None"
        using svc [OF passed(1)] ran_trans [OF R3] by blast
      note last = ingress_last [OF Inr t u]
      from passed(2) obtain r5 where r5: "ensureIngress k c target (labelsForRequest request) w4 = Some (r5, w')"
        "r = map_option (WrapError ''ensure ingress: '') r5" "tg = target"
        by (cases rule: step_cases) auto
      then obtain v where "ran w4 v w'" "ingress_run (dt_Namespace target) (dt_IngressName target)
          (wanted_ingress (kc_cfg k) target (labelsForRequest request)) v r5"
        using ing by blast
      then show ?thesis using last r5(2,3) ran_trans [OF R4] by fastforce
    qed
  qed
qed

theorem Deploy_run:
  assumes retry: "conflict_retry (kc_RetryOnConflict k)" and D: "Deploy k fuel c request w = Some ((tg, r), w')"
  shows "\<exists>t. ran w t w' \<and> deploy_run k request t tg r"
proof (cases "targetForRequest (kc_cfg k) request")
  case (Inl err)
  then have "w' = w" "tg = zero_target" "r = Some err" using D by (simp_all add: Deploy_def)
  then show ?thesis using no_target [of k, OF Inl] by (intro exI [of _ "[]"]) simp
next
  case (Inr target)
  note ns = ensureNamespace_run [of k c "dt_Namespace target" "labelsForRequest request" w]
  from D [unfolded Deploy_def Inr Let_def sum.case] show ?thesis
  proof (cases rule: step_cases)
    case (failed err)
    then show ?thesis using ns no_namespace [OF Inr] by (metis option.inject)
  next
    case (passed w1)
    then obtain t where R1: "ran w t w1" and t: "namespace_run (dt_Namespace target) (labelsForRequest request) t None"
      using ns by (metis option.inject)
    obtain name r2 w2 where d2: "ensureRegistryPullSecret k c (dt_Namespace target) w1 = Some ((name, r2), w2)"
      using passed(2) by (auto split: option.splits)
    obtain u where R2: "ran w (t @ u) w2" and u: "secret_run (kc_cfg k) (dt_Namespace target) u name r2"
      using ensureRegistryPullSecret_run [OF retry d2] ran_trans [OF R1] by blast
    show ?thesis
    proof (cases r2)
      case (Some err)
      then have "w' = w2" "tg = target" "r = Some (WrapError ''ensure registry pull secret: '' err)"
        using passed(2) d2 by auto
      then show ?thesis using R2 no_secret [OF Inr t] u Some by blast
    next
      case None
      then obtain v where "ran w2 v w'" "objects_run k request target name v r" "tg = target"
        using objects_steps_run [OF retry] passed(2) d2 by fastforce
      then show ?thesis using ran_trans [OF R2] objects_last [OF Inr t] u None by fastforce
    qed
  qed
qed

end
