(* ===== verification/Reconciler_Props.thy ===== *)
theory Reconciler_Props
  imports Reconciler_Protocol
begin

text \<open>
  What the protocol of the reconciler gives: nothing is written into a namespace before the service knows
  that it owns it, every update carries the version that was just read, and a deploy that
  succeeds has had its deployment, service and ingress accepted, in this order.
\<close>

definition deploy_calls :: "('q, 'e) cluster \<Rightarrow> ('q, 'e) cluster \<Rightarrow> 'q api_call list" where
  "deploy_calls w w' = drop (length (cl_calls w)) (cl_calls w')"

lemma deploy_calls_ran: "ran w t w' \<Longrightarrow> deploy_calls w w' = t"
  by (simp add: deploy_calls_def ran_def)

lemma Deploy_deploy_run:
  assumes "conflict_retry (kc_RetryOnConflict k)" "Deploy k fuel c request w = Some ((tg, r), w')"
  shows "cl_calls w' = cl_calls w @ deploy_calls w w'" "deploy_run k request (deploy_calls w w') tg r"
  using Deploy_run [OF assms] by (auto simp: deploy_calls_ran) (auto simp: ran_def deploy_calls_ran)

lemma conflict_runs_all:
  assumes "conflict_runs once n t r" "\<And>t r. once t r \<Longrightarrow> list_all P t"
  shows "list_all P t"
  using assms(1) by induction (auto intro: assms(2))

section \<open>Ownership of the namespace\<close>

text \<open>The calls that change something in a namespace.\<close>

fun is_write :: "'q api_call \<Rightarrow> bool" where
  "is_write (GetNamespace ns r) = False"
| "is_write (CreateNamespace n r) = False"
| "is_write (GetSecret ns n r) = False"
| "is_write (GetDeployment ns n r) = False"
| "is_write (GetService ns n r) = False"
| "is_write (GetIngress ns n r) = False"
| "is_write _ = True"

text \<open>A call only concerns a namespace and the objects in it that are named so.\<close>

fun stays_in :: "deployment_target \<Rightarrow> 'q api_call \<Rightarrow> bool" where
  "stays_in tg (GetNamespace ns r) = (ns = dt_Namespace tg)"
| "stays_in tg (CreateNamespace n r) = (nm_Name n = dt_Namespace tg)"
| "stays_in tg (GetSecret ns n r) = (ns = dt_Namespace tg)"
| "stays_in tg (CreateSecret ns s r) = (ns = dt_Namespace tg \<and> sc_Namespace s = ns)"
| "stays_in tg (UpdateSecret ns s r) = (ns = dt_Namespace tg)"
| "stays_in tg (GetDeployment ns n r) = (ns = dt_Namespace tg \<and> n = dt_DeploymentName tg)"
| "stays_in tg (CreateDeployment ns d r) =
     (ns = dt_Namespace tg \<and> dp_Namespace d = ns \<and> dp_Name d = dt_DeploymentName tg)"
| "stays_in tg (UpdateDeployment ns d r) =
     (ns = dt_Namespace tg \<and> dp_Namespace d = ns \<and> dp_Name d = dt_DeploymentName tg)"
| "stays_in tg (DeleteDeployment ns n p r) = (ns = dt_Namespace tg \<and> n = dt_DeploymentName tg)"
| "stays_in tg (GetService ns n r) = (ns = dt_Namespace tg \<and> n = dt_ServiceName tg)"
| "stays_in tg (CreateService ns s r) =
     (ns = dt_Namespace tg \<and> sv_Namespace s = ns \<and> sv_Name s = dt_ServiceName tg)"
| "stays_in tg (UpdateService ns s r) =
     (ns = dt_Namespace tg \<and> sv_Namespace s = ns \<and> sv_Name s = dt_ServiceName tg)"
| "stays_in tg (GetIngress ns n r) = (ns = dt_Namespace tg \<and> n = dt_IngressName tg)"
| "stays_in tg (CreateIngress ns i r) =
     (ns = dt_Namespace tg \<and> ig_Namespace i = ns \<and> ig_Name i = dt_IngressName tg)"
| "stays_in tg (UpdateIngress ns i r) =
     (ns = dt_Namespace tg \<and> ig_Namespace i = ns \<and> ig_Name i = dt_IngressName tg)"

lemma stays_in_secret:
  assumes "secret_run cfg (dt_Namespace tg) t name r"
  shows "list_all (stays_in tg) t"
proof -
  have "conflict_runs (update_secret_run (dt_Namespace tg) n p) 5 u q \<Longrightarrow> list_all (stays_in tg) u" for n p u q
    by (erule conflict_runs_all) (erule update_secret_run.cases; simp)
  then show ?thesis using assms by - (erule secret_run.cases; auto simp: wanted_secret_def)
qed

lemma stays_in_deletion:
  "deletion_run (dt_Namespace tg) (dt_DeploymentName tg) t r \<Longrightarrow> list_all (stays_in tg) t"
  by (induction t r rule: deletion_run.induct) simp_all

lemma stays_in_recreate:
  assumes "recreate_run (dt_Namespace tg) (dt_DeploymentName tg) d t r"
    "dp_Namespace d = dt_Namespace tg" "dp_Name d = dt_DeploymentName tg"
  shows "list_all (stays_in tg) t"
  using assms by (cases rule: recreate_run.cases) (auto simp: stays_in_deletion)

lemma stays_in_update_deployment:
  assumes "update_deployment_run (dt_Namespace tg) (dt_DeploymentName tg) d t r"
    "dp_Namespace d = dt_Namespace tg" "dp_Name d = dt_DeploymentName tg"
  shows "list_all (stays_in tg) t"
  using assms by (cases rule: update_deployment_run.cases) (auto simp: versioned_deployment_def intro: stays_in_recreate)

lemma stays_in_deployment:
  assumes "deployment_run (dt_Namespace tg) (dt_DeploymentName tg) d t r"
    "dp_Namespace d = dt_Namespace tg" "dp_Name d = dt_DeploymentName tg"
  shows "list_all (stays_in tg) t"
proof -
  have "conflict_runs (update_deployment_run (dt_Namespace tg) (dt_DeploymentName tg) d) 5 u q \<Longrightarrow>
      list_all (stays_in tg) u" for u q
    by (erule conflict_runs_all) (rule stays_in_update_deployment; use assms in simp)
  then show ?thesis using assms by - (erule deployment_run.cases; auto simp: stays_in_recreate)
qed

lemma stays_in_service:
  assumes "service_run (dt_Namespace tg) (dt_ServiceName tg) s t r"
    "sv_Namespace s = dt_Namespace tg" "sv_Name s = dt_ServiceName tg"
  shows "list_all (stays_in tg) t"
proof -
  have "conflict_runs (update_service_run (dt_Namespace tg) (dt_ServiceName tg) s) 5 u q \<Longrightarrow>
      list_all (stays_in tg) u" for u q
    by (erule conflict_runs_all) (erule update_service_run.cases; use assms in \<open>simp add: adopted_service_def\<close>)
  then show ?thesis using assms by - (erule service_run.cases; auto)
qed

lemma stays_in_ingress:
  assumes "ingress_run (dt_Namespace tg) (dt_IngressName tg) i t r"
    "ig_Namespace i = dt_Namespace tg" "ig_Name i = dt_IngressName tg"
  shows "list_all (stays_in tg) t"
proof -
  have "conflict_runs (update_ingress_run (dt_Namespace tg) (dt_IngressName tg) i) 5 u q \<Longrightarrow>
      list_all (stays_in tg) u" for u q
    by (erule conflict_runs_all) (erule update_ingress_run.cases; use assms in \<open>simp add: versioned_ingress_def\<close>)
  then show ?thesis using assms by - (erule ingress_run.cases; auto)
qed

lemma stays_in_objects:
  assumes "objects_run k request tg name t r"
  shows "list_all (stays_in tg) t"
  using assms stays_in_deployment stays_in_service stays_in_ingress
  by (cases rule: objects_run.cases)
    (fastforce simp: wanted_deployment_def wanted_service_def wanted_ingress_def)+

lemma stays_in_namespace: "namespace_run (dt_Namespace tg) ls t r \<Longrightarrow> list_all (stays_in tg) t"
  by (cases rule: namespace_run.cases) (auto simp: wanted_namespace_def)

lemma stays_in_deploy: "deploy_run k request t tg r \<Longrightarrow> list_all (stays_in tg) t"
  by (cases rule: deploy_run.cases) (auto simp: stays_in_namespace stays_in_secret stays_in_objects)

text \<open>A call after which the service knows that the namespace is its own, for the request's project.\<close>

definition ownership_known :: "string \<Rightarrow> labels \<Rightarrow> 'q api_call \<Rightarrow> bool" where
  "ownership_known ns ls x \<longleftrightarrow>
     (\<exists>current. x = GetNamespace ns (Inr current) \<and> checkNamespaceOwnership current ns ls = None) \<or>
     x = CreateNamespace (wanted_namespace ns ls) None"

lemma namespace_run_reads: "namespace_run ns ls t r \<Longrightarrow> filter is_write t = []"
  by (cases rule: namespace_run.cases) auto

lemma namespace_run_owned:
  assumes "namespace_run ns ls t None"
  shows "\<exists>p x. t = p @ [x] \<and> ownership_known ns ls x \<and> filter is_write p = []"
  using assms
proof (cases rule: namespace_run.cases)
  case (namespace_found current)
  then show ?thesis by (intro exI [of _ "[]"]) (auto simp: ownership_known_def)
next
  case (namespace_created err)
  then show ?thesis by (intro exI [of _ "[GetNamespace ns (Inl err)]"]) (simp add: ownership_known_def)
next
  case (namespace_raced err err' current)
  then show ?thesis
    by (intro exI [of _ "[GetNamespace ns (Inl err), CreateNamespace (wanted_namespace ns ls) (Some err')]"])
      (auto simp: ownership_known_def)
qed

text \<open>C7. A deploy touches only the namespace of its target and, in it, the objects with the target's names;
  and it writes nothing there before it knows that the namespace is managed by this service for
  the request's project.\<close>

theorem namespace_guarded:
  assumes "conflict_retry (kc_RetryOnConflict k)" "Deploy k fuel c request w = Some ((tg, r), w')"
  shows "list_all (stays_in tg) (deploy_calls w w') \<and>
    (filter is_write (deploy_calls w w') = [] \<or>
     (\<exists>p x q. deploy_calls w w' = p @ x # q \<and> filter is_write p = [] \<and>
        ownership_known (dt_Namespace tg) (labelsForRequest request) x))"
proof -
  note run = Deploy_deploy_run(2) [OF assms]
  have "\<exists>p x q. t @ u = p @ x # q \<and> filter is_write p = [] \<and> ownership_known ns ls x"
    if "namespace_run ns ls t None" for ns ls and t u :: "'a api_call list"
    using namespace_run_owned [OF that] by fastforce
  then have "filter is_write (deploy_calls w w') = [] \<or>
     (\<exists>p x q. deploy_calls w w' = p @ x # q \<and> filter is_write p = [] \<and>
        ownership_known (dt_Namespace tg) (labelsForRequest request) x)"
    using run by - (erule deploy_run.cases; auto dest: namespace_run_reads)
  then show ?thesis using stays_in_deploy [OF run] by blast
qed

section \<open>A namespace of someone else\<close>

text \<open>When the namespace exists and its labels are not those of this service and project, the deploy
  stops at once: one read, no write, and an error that is never retried.\<close>

theorem foreign_namespace_refused:
  assumes "targetForRequest (kc_cfg k) request = Inr target"
    "oa_Get (cs_Namespaces (kc_clientset k)) c [] (dt_Namespace target) (cl_ext w) = (Inr current, e)"
    "label_at (nm_Labels current) ''shiply.io/managed-by'' \<noteq> ''orchestration-service'' \<or>
     label_at (nm_Labels current) ''shiply.io/project-id'' \<noteq> dr_ProjectID request"
  shows "\<exists>msg. Deploy k fuel c request w =
     Some ((target, Some (WrapError ''ensure namespace: '' (OwnershipError msg))),
       \<lparr>cl_ext = e, cl_calls = cl_calls w @ [GetNamespace (dt_Namespace target) (Inr current)]\<rparr>) \<and>
     \<not> isRetriableDeployError (WrapError ''ensure namespace: '' (OwnershipError msg))"
proof -
  let ?m = "''refusing to update namespace '' @ dt_Namespace target @ '': ownership labels do not match request''"
  have "checkNamespaceOwnership current (dt_Namespace target) (labelsForRequest request) = Some (OwnershipError ?m)"
    using assms(3) by (simp add: checkNamespaceOwnership_def label_at_request)
  then have "Deploy k fuel c request w =
     Some ((target, Some (WrapError ''ensure namespace: '' (OwnershipError ?m))),
       \<lparr>cl_ext = e, cl_calls = cl_calls w @ [GetNamespace (dt_Namespace target) (Inr current)]\<rparr>)"
    using assms(1,2) by (simp add: Deploy_def step_def ensureNamespace_def api_def Let_def)
  then show ?thesis by (intro exI [of _ ?m]) (simp add: isRetriableDeployError_def)
qed

section \<open>Updates carry the version that was read\<close>

text \<open>
  Does a call, made just after another, respect it? An update must follow the read of the object it
  replaces, carry its resource version and, for a service, its cluster addresses.
\<close>

definition follows_read :: "'q api_call option \<Rightarrow> 'q api_call \<Rightarrow> bool" where
  "follows_read before x =
     (case x of
        UpdateSecret ns' s r \<Rightarrow>
          (case before of Some (GetSecret ns n (Inr latest)) \<Rightarrow>
             ns' = ns \<and> sc_ResourceVersion s = sc_ResourceVersion latest | _ \<Rightarrow> False)
      | UpdateDeployment ns' d r \<Rightarrow>
          (case before of Some (GetDeployment ns n (Inr latest)) \<Rightarrow>
             ns' = ns \<and> dp_ResourceVersion d = dp_ResourceVersion latest | _ \<Rightarrow> False)
      | UpdateService ns' s r \<Rightarrow>
          (case before of Some (GetService ns n (Inr latest)) \<Rightarrow>
             ns' = ns \<and> sv_ResourceVersion s = sv_ResourceVersion latest \<and> sv_ClusterIP s = sv_ClusterIP latest \<and>
             sv_ClusterIPs s = sv_ClusterIPs latest \<and> sv_IPFamilies s = sv_IPFamilies latest \<and>
             sv_IPFamilyPolicy s = sv_IPFamilyPolicy latest | _ \<Rightarrow> False)
      | UpdateIngress ns' i r \<Rightarrow>
          (case before of Some (GetIngress ns n (Inr latest)) \<Rightarrow>
             ns' = ns \<and> ig_ResourceVersion i = ig_ResourceVersion latest | _ \<Rightarrow> False)
      | _ \<Rightarrow> True)"

lemma follows_read_simps [simp]:
  "follows_read before (GetNamespace ns gn)" "follows_read before (CreateNamespace nso r)"
  "follows_read before (GetSecret ns n gs)" "follows_read before (CreateSecret ns s r)"
  "follows_read before (GetDeployment ns n gd)" "follows_read before (CreateDeployment ns d r)"
  "follows_read before (DeleteDeployment ns n p r)" "follows_read before (GetService ns n gv)"
  "follows_read before (CreateService ns v r)" "follows_read before (GetIngress ns n gi)"
  "follows_read before (CreateIngress ns i r)"
  "follows_read (Some (GetSecret ns n (Inr s'))) (UpdateSecret ns' s r) \<longleftrightarrow>
     ns' = ns \<and> sc_ResourceVersion s = sc_ResourceVersion s'"
  "follows_read (Some (GetDeployment ns n (Inr d'))) (UpdateDeployment ns' d r) \<longleftrightarrow>
     ns' = ns \<and> dp_ResourceVersion d = dp_ResourceVersion d'"
  "follows_read (Some (GetService ns n (Inr v'))) (UpdateService ns' v r) \<longleftrightarrow>
     ns' = ns \<and> sv_ResourceVersion v = sv_ResourceVersion v' \<and> sv_ClusterIP v = sv_ClusterIP v' \<and>
     sv_ClusterIPs v = sv_ClusterIPs v' \<and> sv_IPFamilies v = sv_IPFamilies v' \<and>
     sv_IPFamilyPolicy v = sv_IPFamilyPolicy v'"
  "follows_read (Some (GetIngress ns n (Inr i'))) (UpdateIngress ns' i r) \<longleftrightarrow>
     ns' = ns \<and> ig_ResourceVersion i = ig_ResourceVersion i'"
  by (simp_all add: follows_read_def)

fun fresh_updates :: "'q api_call option \<Rightarrow> 'q api_call list \<Rightarrow> bool" where
  "fresh_updates before [] = True"
| "fresh_updates before (x # xs) \<longleftrightarrow> follows_read before x \<and> fresh_updates (Some x) xs"

lemma fresh_updates_append:
  "fresh_updates before (t @ u) \<longleftrightarrow> fresh_updates before t \<and> fresh_updates (if t = [] then before else Some (last t)) u"
  by (induction t arbitrary: before) simp_all

text \<open>Sequences that are fresh wherever they stand can be put together.\<close>

definition fresh :: "'q api_call list \<Rightarrow> bool" where
  "fresh t \<longleftrightarrow> (\<forall>before. fresh_updates before t)"

lemma fresh_append [intro]: "fresh t \<Longrightarrow> fresh u \<Longrightarrow> fresh (t @ u)"
  by (simp add: fresh_def fresh_updates_append)

lemma fresh_Nil [simp]: "fresh []"
  by (simp add: fresh_def)

lemma fresh_reads [simp]:
  "fresh (GetSecret ns n r # t) = fresh_updates (Some (GetSecret ns n r)) t"
  "fresh (GetDeployment ns n g # t) = fresh_updates (Some (GetDeployment ns n g)) t"
  "fresh (GetService ns n h # t) = fresh_updates (Some (GetService ns n h)) t"
  "fresh (GetIngress ns n i # t) = fresh_updates (Some (GetIngress ns n i)) t"
  by (simp_all add: fresh_def)

lemma fresh_updates_fresh: "fresh t \<Longrightarrow> fresh_updates before t"
  by (simp add: fresh_def)

lemma conflict_runs_fresh:
  assumes "conflict_runs once n t r" "\<And>t r. once t r \<Longrightarrow> fresh t"
  shows "fresh t"
  using assms(1) by induction (auto intro: assms(2))

lemma fresh_namespace: "namespace_run ns ls t r \<Longrightarrow> fresh t"
  by (cases rule: namespace_run.cases) (auto simp: fresh_def)

lemma fresh_secret:
  assumes "secret_run cfg ns t name r"
  shows "fresh t"
proof -
  have "conflict_runs (update_secret_run ns n p) 5 u q \<Longrightarrow> fresh u"
    for n p q and u :: "'a api_call list"
    by (erule conflict_runs_fresh) (erule update_secret_run.cases; simp add: filled_secret_def)
  then show ?thesis using assms by - (erule secret_run.cases; auto intro: fresh_updates_fresh)
qed

lemma fresh_deletion: "deletion_run ns n t r \<Longrightarrow> fresh t"
  by (induction t r rule: deletion_run.induct) (auto intro: fresh_updates_fresh)

lemma fresh_recreate:
  assumes "recreate_run ns n d t r"
  shows "fresh t"
proof -
  have "fresh [DeleteDeployment ns n p e]" "fresh [CreateDeployment ns d e]" for p e
    by (simp_all add: fresh_def)
  then have "fresh ([DeleteDeployment ns n p e] @ t @ [CreateDeployment ns d e'])"
    "fresh ([DeleteDeployment ns n p e] @ t)" "fresh [DeleteDeployment ns n p e]"
    if "fresh t" for p e e' and t :: "'a api_call list"
    using that by blast+
  then show ?thesis using assms by - (erule recreate_run.cases; auto dest: fresh_deletion)
qed

lemma fresh_deployment:
  assumes "deployment_run ns n d t r"
  shows "fresh t"
proof -
  have "update_deployment_run ns n d u q \<Longrightarrow> fresh u" for u q
    by (erule update_deployment_run.cases) (auto simp: versioned_deployment_def dest: fresh_recreate intro: fresh_updates_fresh)
  then have "conflict_runs (update_deployment_run ns n d) 5 u q \<Longrightarrow> fresh u" for u q
    using conflict_runs_fresh by blast
  then show ?thesis
    using assms by - (erule deployment_run.cases; auto dest: fresh_recreate intro: fresh_updates_fresh)
qed

lemma fresh_service:
  assumes "service_run ns n s t r"
  shows "fresh t"
proof -
  have "conflict_runs (update_service_run ns n s) 5 u q \<Longrightarrow> fresh u" for u q
    by (erule conflict_runs_fresh) (erule update_service_run.cases; simp add: adopted_service_def)
  then show ?thesis using assms by - (erule service_run.cases; auto intro: fresh_updates_fresh)
qed

lemma fresh_ingress:
  assumes "ingress_run ns n i t r"
  shows "fresh t"
proof -
  have "conflict_runs (update_ingress_run ns n i) 5 u q \<Longrightarrow> fresh u" for u q
    by (erule conflict_runs_fresh) (erule update_ingress_run.cases; simp add: versioned_ingress_def)
  then show ?thesis using assms by - (erule ingress_run.cases; auto intro: fresh_updates_fresh)
qed

lemma fresh_objects: "objects_run k request tg name t r \<Longrightarrow> fresh t"
  by (erule objects_run.cases) (auto dest: fresh_deployment fresh_service fresh_ingress)

text \<open>C12. A deploy never overwrites a change it has not seen: each update is made right after the object was
  read, with the resource version read, and a service keeps the cluster addresses it had.\<close>

theorem updates_carry_version_read:
  assumes "conflict_retry (kc_RetryOnConflict k)" "Deploy k fuel c request w = Some ((tg, r), w')"
  shows "fresh_updates None (deploy_calls w w')"
proof -
  have "fresh (deploy_calls w w')"
    using Deploy_deploy_run(2) [OF assms]
    by - (erule deploy_run.cases; auto dest: fresh_namespace fresh_secret fresh_objects)
  then show ?thesis by (rule fresh_updates_fresh)
qed

section \<open>What a successful deploy has written\<close>

definition wrote_secret :: "config \<Rightarrow> string \<Rightarrow> 'q api_call \<Rightarrow> bool" where
  "wrote_secret cfg ns x \<longleftrightarrow> (\<exists>payload. secret_payload cfg payload \<and>
     (x = CreateSecret ns (wanted_secret cfg ns payload) None \<or>
      (\<exists>latest. x = UpdateSecret ns (filled_secret latest payload) None)))"

definition wrote_deployment :: "string \<Rightarrow> 'q k8s_deployment \<Rightarrow> 'q api_call \<Rightarrow> bool" where
  "wrote_deployment ns d x \<longleftrightarrow> (\<exists>v. x = CreateDeployment ns (versioned_deployment d v) None \<or>
     x = UpdateDeployment ns (versioned_deployment d v) None)"

definition wrote_service :: "string \<Rightarrow> k8s_service \<Rightarrow> 'q api_call \<Rightarrow> bool" where
  "wrote_service ns s x \<longleftrightarrow> x = CreateService ns s None \<or>
     (\<exists>latest. x = UpdateService ns (adopted_service s latest) None)"

definition wrote_ingress :: "string \<Rightarrow> k8s_ingress \<Rightarrow> 'q api_call \<Rightarrow> bool" where
  "wrote_ingress ns i x \<longleftrightarrow> x = CreateIngress ns i None \<or>
     (\<exists>v. x = UpdateIngress ns (versioned_ingress i v) None)"

lemma conflict_runs_last:
  assumes "conflict_runs once n t r" "r = None" "\<And>t. once t None \<Longrightarrow> t \<noteq> [] \<and> P (last t)"
  shows "t \<noteq> [] \<and> P (last t)"
  using assms(1,2) by induction (auto dest: assms(3))

lemma secret_run_wrote:
  assumes "secret_run cfg ns t name None"
  shows "name = [] \<or> name = ImagePullSecretName cfg \<and> t \<noteq> [] \<and> wrote_secret cfg ns (last t)"
proof -
  have "u \<noteq> [] \<and> wrote_secret cfg ns (last u)"
    if p: "secret_payload cfg p" and "update_secret_run ns n p u None" for n p and u :: "'a api_call list"
    using that(2) by (rule update_secret_run.cases) (use p in \<open>auto simp: wrote_secret_def\<close>)
  then have "u \<noteq> [] \<and> wrote_secret cfg ns (last u)"
    if "conflict_runs (update_secret_run ns n p) 5 u None" "secret_payload cfg p" for n p and u :: "'a api_call list"
    using conflict_runs_last that by blast
  then show ?thesis using assms by - (erule secret_run.cases; auto simp: wrote_secret_def)
qed

lemma wrote_deployment_versioned: "wrote_deployment ns (versioned_deployment d v) x = wrote_deployment ns d x"
  by (simp add: wrote_deployment_def versioned_deployment_def)

lemma recreate_run_wrote:
  assumes "recreate_run ns n d t None"
  shows "t \<noteq> [] \<and> wrote_deployment ns d (last t)"
proof -
  have "deletion_run ns n u q \<Longrightarrow> q \<noteq> Inl None" for u :: "'a api_call list" and q
    by (induction u q rule: deletion_run.induct) auto
  moreover have "d = versioned_deployment d (dp_ResourceVersion d)" by (simp add: versioned_deployment_def)
  ultimately show ?thesis
    using assms by - (erule recreate_run.cases; simp add: wrote_deployment_def; metis)
qed

lemma deployment_run_wrote:
  assumes "deployment_run ns n d t None"
  shows "t \<noteq> [] \<and> wrote_deployment ns d (last t)"
proof -
  have "u \<noteq> [] \<and> wrote_deployment ns d (last u)" if "update_deployment_run ns n d u None" for u
    using that
  proof (cases rule: update_deployment_run.cases)
    case (deployment_updated latest)
    then show ?thesis by (auto simp: wrote_deployment_def)
  next
    case (deployment_rejected err latest v)
    then show ?thesis using recreate_run_wrote by (fastforce simp: wrote_deployment_versioned)
  qed
  then have "u \<noteq> [] \<and> wrote_deployment ns d (last u)" if "conflict_runs (update_deployment_run ns n d) 5 u None" for u
    using conflict_runs_last that by blast
  moreover have "d = versioned_deployment d (dp_ResourceVersion d)" by (simp add: versioned_deployment_def)
  then have "wrote_deployment ns d (CreateDeployment ns d None)" unfolding wrote_deployment_def by blast
  ultimately show ?thesis
    using assms by - (erule deployment_run.cases; auto dest: recreate_run_wrote)
qed

lemma service_run_wrote:
  assumes "service_run ns n s t None"
  shows "t \<noteq> [] \<and> wrote_service ns s (last t)"
proof -
  have "u \<noteq> [] \<and> wrote_service ns s (last u)"
    if "conflict_runs (update_service_run ns n s) 5 u None" for u :: "'a api_call list"
    using that by (rule conflict_runs_last) (auto elim!: update_service_run.cases simp: wrote_service_def)
  then show ?thesis using assms by - (erule service_run.cases; auto simp: wrote_service_def)
qed

lemma ingress_run_wrote:
  assumes "ingress_run ns n i t None"
  shows "t \<noteq> [] \<and> wrote_ingress ns i (last t)"
proof -
  have "u \<noteq> [] \<and> wrote_ingress ns i (last u)"
    if "conflict_runs (update_ingress_run ns n i) 5 u None" for u :: "'a api_call list"
    using that by (rule conflict_runs_last) (auto elim!: update_ingress_run.cases simp: wrote_ingress_def)
  then show ?thesis using assms by - (erule ingress_run.cases; auto simp: wrote_ingress_def)
qed

lemma success_written:
  assumes "conflict_retry (kc_RetryOnConflict k)" "Deploy k fuel c request w = Some ((tg, None), w')"
  shows "\<exists>secret resources p x q y s z. deploy_calls w w' = p @ [x] @ q @ [y] @ s @ [z] \<and>
     targetForRequest (kc_cfg k) request = Inr tg \<and>
     buildResourceRequirements (kc_ParseQuantity k) (cfg_ResourceDefaults (kc_cfg k)) = Inr resources \<and>
     wrote_deployment (dt_Namespace tg)
       (wanted_deployment (kc_cfg k) request tg (labelsForRequest request) secret resources) x \<and>
     wrote_service (dt_Namespace tg) (wanted_service tg (labelsForRequest request)) y \<and>
     wrote_ingress (dt_Namespace tg) (wanted_ingress (kc_cfg k) tg (labelsForRequest request)) z \<and>
     (secret = [] \<or> secret = ImagePullSecretName (kc_cfg k) \<and> (\<exists>v. v \<in> set p \<and> wrote_secret (kc_cfg k) (dt_Namespace tg) v))"
  using Deploy_deploy_run(2) [OF assms]
proof (cases rule: deploy_run.cases)
  case (objects_last t u name v)
  note run = this
  from run(5) show ?thesis
  proof (cases rule: objects_run.cases)
    case (ingress_last resources d s i r)
    let ?d = "wanted_deployment (kc_cfg k) request tg (labelsForRequest request) name resources"
    have "r = None" using ingress_last(2) by (cases r) simp_all
    then have i: "i = butlast i @ [last i]"
      "wrote_ingress (dt_Namespace tg) (wanted_ingress (kc_cfg k) tg (labelsForRequest request)) (last i)"
      using ingress_run_wrote ingress_last(6) by fastforce+
    have d: "d = butlast d @ [last d]" "wrote_deployment (dt_Namespace tg) ?d (last d)"
      using deployment_run_wrote [OF ingress_last(4)] by simp_all
    have s: "s = butlast s @ [last s]" "wrote_service (dt_Namespace tg) (wanted_service tg (labelsForRequest request)) (last s)"
      using service_run_wrote [OF ingress_last(5)] by simp_all
    have u: "name = [] \<or> name = ImagePullSecretName (kc_cfg k) \<and> (\<exists>v. v \<in> set u \<and> wrote_secret (kc_cfg k) (dt_Namespace tg) v)"
      using secret_run_wrote [OF run(4)] last_in_set by blast
    have "deploy_calls w w' = (t @ u @ butlast d) @ [last d] @ butlast s @ [last s] @ butlast i @ [last i]"
      using run(1) ingress_last(1) d(1) s(1) i(1) by (metis append.assoc)
    then show ?thesis using run(2) ingress_last(3) d(2) s(2) i(2) u
      by (metis (no_types, lifting) Un_iff set_append)
  qed
qed

lemma success_written_target:
  assumes "conflict_retry (kc_RetryOnConflict k)" "Deploy k fuel c request w = Some ((tg, None), w')"
  shows "targetForRequest (kc_cfg k) request = Inr tg"
  using success_written [OF assms] by blast

text \<open>When a deploy succeeds, the API server has accepted the wanted deployment, the wanted service and the
  wanted ingress of the request, in this order and the ingress last; and if the pods pull with
  a secret, the registry secret was accepted before them.\<close>

theorem success_has_written:
  assumes "conflict_retry (kc_RetryOnConflict k)" "Deploy k fuel c request w = Some ((tg, None), w')"
  shows "\<exists>secret resources p x q y s z. deploy_calls w w' = p @ [x] @ q @ [y] @ s @ [z] \<and>
     targetForRequest (kc_cfg k) request = Inr tg \<and>
     buildResourceRequirements (kc_ParseQuantity k) (cfg_ResourceDefaults (kc_cfg k)) = Inr resources \<and>
     wrote_deployment (dt_Namespace tg)
       (wanted_deployment (kc_cfg k) request tg (labelsForRequest request) secret resources) x \<and>
     wrote_service (dt_Namespace tg) (wanted_service tg (labelsForRequest request)) y \<and>
     wrote_ingress (dt_Namespace tg) (wanted_ingress (kc_cfg k) tg (labelsForRequest request)) z \<and>
     (secret = [] \<or> secret = ImagePullSecretName (kc_cfg k) \<and> (\<exists>v. v \<in> set p \<and> wrote_secret (kc_cfg k) (dt_Namespace tg) v))"
  using assms by (rule success_written)

end
