(* ===== verification/Cluster.thy ===== *)
theory Cluster
  imports Reconciler_Live
begin

text \<open>
  The reconciler against an API server that behaves as documented while nobody else writes to the objects
  of the request: \<open>quiet_api\<close> is that contract, over the objects the server holds. \<open>mem_client\<close> is a
  server in memory that meets it, with resource versions and conflicts.
\<close>

section \<open>The objects an API server holds\<close>

type_synonym 'o objects = "string \<times> string \<Rightarrow> 'o option"

record 'q store =
  st_Namespaces :: "k8s_namespace objects"
  st_Secrets :: "k8s_secret objects"
  st_Deployments :: "'q k8s_deployment objects"
  st_Services :: "k8s_service objects"
  st_Ingresses :: "k8s_ingress objects"

text \<open>
  One kind of object, under a context: reads report what is held; an absent object can be created, and a
  held one updated under its version. \<open>keeps\<close> is what the server may change in an object it takes.
\<close>

definition reads ::
  "ctx \<Rightarrow> ('o, 'e) object_api \<Rightarrow> ('e \<Rightarrow> 's) \<Rightarrow> ('s \<Rightarrow> 'o objects) \<Rightarrow> bool" where
  "reads c a view sel \<longleftrightarrow> (\<forall>ns n e. view (snd (oa_Get a c ns n e)) = view e \<and>
     (case fst (oa_Get a c ns n e) of
        Inr ob \<Rightarrow> sel (view e) (ns, n) = Some ob
      | Inl err \<Rightarrow> sel (view e) (ns, n) = None \<and> IsNotFound err))"

text \<open>A write of \<open>ob\<close> went through.\<close>

definition written ::
  "('e \<Rightarrow> 's) \<Rightarrow> (('o objects \<Rightarrow> 'o objects) \<Rightarrow> 's \<Rightarrow> 's) \<Rightarrow> ('o \<Rightarrow> 'o \<Rightarrow> bool) \<Rightarrow> string \<times> string \<Rightarrow> 'o \<Rightarrow> 'e \<Rightarrow>
   go_error option \<times> 'e \<Rightarrow> bool" where
  "written view upd keeps key ob e r \<longleftrightarrow>
     fst r = None \<and> (\<exists>ob'. keeps ob ob' \<and> view (snd r) = upd (\<lambda>m. m(key \<mapsto> ob')) (view e))"

definition serves ::
  "ctx \<Rightarrow> ('o, 'e) object_api \<Rightarrow> ('e \<Rightarrow> 's) \<Rightarrow> ('s \<Rightarrow> 'o objects) \<Rightarrow> (('o objects \<Rightarrow> 'o objects) \<Rightarrow> 's \<Rightarrow> 's) \<Rightarrow>
   ('o \<Rightarrow> string) \<Rightarrow> ('o \<Rightarrow> string) \<Rightarrow> ('o \<Rightarrow> 'o \<Rightarrow> bool) \<Rightarrow> bool" where
  "serves c a view sel upd name version keeps \<longleftrightarrow>
     reads c a view sel \<and>
     (\<forall>ns ob e. sel (view e) (ns, name ob) = None \<longrightarrow> version ob = [] \<longrightarrow>
        written view upd keeps (ns, name ob) ob e (oa_Create a c ns ob e)) \<and>
     (\<forall>ns ob old e. sel (view e) (ns, name ob) = Some old \<longrightarrow> version ob = version old \<longrightarrow>
        written view upd keeps (ns, name ob) ob e (oa_Update a c ns ob e))"

lemma serves_Get:
  assumes "serves c a view sel upd name version keeps" "oa_Get a c ns n e = (r, e')"
  shows "view e' = view e" "sel (view e) (ns, n) = Some ob \<Longrightarrow> r = Inr ob"
    "sel (view e) (ns, n) = None \<Longrightarrow> \<exists>err. r = Inl err \<and> IsNotFound err"
proof -
  have "reads c a view sel" using assms(1) by (simp add: serves_def)
  from this [unfolded reads_def, rule_format, of ns n e]
  have g: "view e' = view e" "case r of Inr ob \<Rightarrow> sel (view e) (ns, n) = Some ob
      | Inl err \<Rightarrow> sel (view e) (ns, n) = None \<and> IsNotFound err" by (simp_all add: assms(2))
  show "view e' = view e" by (rule g)
  show "sel (view e) (ns, n) = Some ob \<Longrightarrow> r = Inr ob" using g(2) by (cases r) simp_all
  show "sel (view e) (ns, n) = None \<Longrightarrow> \<exists>err. r = Inl err \<and> IsNotFound err" using g(2) by (cases r) simp_all
qed

lemma writtenE:
  assumes "written view upd keeps key ob e r"
  obtains e' ob' where "r = (None, e')" "keeps ob ob'" "view e' = upd (\<lambda>m. m(key \<mapsto> ob')) (view e)"
  using assms unfolding written_def by (metis prod.collapse)

lemma serves_Create:
  assumes "serves c a view sel upd name version keeps" "sel (view e) (ns, name ob) = None" "version ob = []"
  obtains e' ob' where "oa_Create a c ns ob e = (None, e')" "keeps ob ob'"
    "view e' = upd (\<lambda>m. m((ns, name ob) \<mapsto> ob')) (view e)"
proof -
  have "written view upd keeps (ns, name ob) ob e (oa_Create a c ns ob e)"
    using assms by (simp add: serves_def)
  then show ?thesis by (rule writtenE) (rule that)
qed

lemma serves_Update:
  assumes "serves c a view sel upd name version keeps" "sel (view e) (ns, name ob) = Some old"
    "version ob = version old"
  obtains e' ob' where "oa_Update a c ns ob e = (None, e')" "keeps ob ob'"
    "view e' = upd (\<lambda>m. m((ns, name ob) \<mapsto> ob')) (view e)"
proof -
  have "written view upd keeps (ns, name ob) ob e (oa_Update a c ns ob e)"
    using assms by (simp add: serves_def)
  then show ?thesis by (rule writtenE) (rule that)
qed

text \<open>What the server may do to each kind: add labels to a namespace, set versions, assign addresses.\<close>

definition keeps_namespace :: "k8s_namespace \<Rightarrow> k8s_namespace \<Rightarrow> bool" where
  "keeps_namespace a b \<longleftrightarrow> (\<forall>k v. map_of (nm_Labels a) k = Some v \<longrightarrow> map_of (nm_Labels b) k = Some v)"

definition keeps_secret :: "k8s_secret \<Rightarrow> k8s_secret \<Rightarrow> bool" where
  "keeps_secret a b \<longleftrightarrow> (\<exists>v. b = a\<lparr>sc_ResourceVersion := v\<rparr>)"

definition keeps_deployment :: "'q k8s_deployment \<Rightarrow> 'q k8s_deployment \<Rightarrow> bool" where
  "keeps_deployment a b \<longleftrightarrow> (\<exists>v. b = versioned_deployment a v)"

definition keeps_service :: "k8s_service \<Rightarrow> k8s_service \<Rightarrow> bool" where
  "keeps_service a b \<longleftrightarrow> (\<exists>latest. b = adopted_service a latest)"

definition keeps_ingress :: "k8s_ingress \<Rightarrow> k8s_ingress \<Rightarrow> bool" where
  "keeps_ingress a b \<longleftrightarrow> (\<exists>v. b = versioned_ingress a v)"

section \<open>The contract and its client\<close>

locale quiet_api =
  fixes k :: "('q, 'e) kubernetes_client" and c :: ctx and view :: "'e \<Rightarrow> 'q store"
  assumes namespaces: "serves c (cs_Namespaces (kc_clientset k)) view st_Namespaces st_Namespaces_update
      nm_Name (\<lambda>n. []) keeps_namespace"
    and secrets: "serves c (cs_Secrets (kc_clientset k)) view st_Secrets st_Secrets_update
      sc_Name sc_ResourceVersion keeps_secret"
    and deployments: "serves c (cs_Deployments (kc_clientset k)) view st_Deployments st_Deployments_update
      dp_Name dp_ResourceVersion keeps_deployment"
    and services: "serves c (cs_Services (kc_clientset k)) view st_Services st_Services_update
      sv_Name sv_ResourceVersion keeps_service"
    and ingresses: "serves c (cs_Ingresses (kc_clientset k)) view st_Ingresses st_Ingresses_update
      ig_Name ig_ResourceVersion keeps_ingress"
    and conflicts: "conflict_retry (kc_RetryOnConflict k)"
    and held_names: "st_Secrets (view e) (ns, n) = Some s \<Longrightarrow> sc_Name s = n"

context conflict_retry
begin

lemma retry_success:
  assumes "f w = Some (None, w')"
  shows "retry f w = Some (None, w')"
proof -
  obtain pauses where "retry f w = conflict_loop pauses f w" using retries by blast
  then show ?thesis using assms by (cases pauses) simp_all
qed

end

lemma api_eq: "f (cl_ext w) = (r, e) \<Longrightarrow> api note f w = (r, \<lparr>cl_ext = e, cl_calls = cl_calls w @ [note r]\<rparr>)"
  by (simp add: api_def)

lemma versioned_deployment_simps [simp]:
  "versioned_deployment (versioned_deployment d u) v = versioned_deployment d v"
  "dp_Name (versioned_deployment d v) = dp_Name d" "dp_ResourceVersion (versioned_deployment d v) = v"
  "match_labels (versioned_deployment d v) = match_labels d"
  by (simp_all add: versioned_deployment_def match_labels_def)

lemma adopted_service_simps [simp]:
  "adopted_service (adopted_service s u) v = adopted_service s v" "sv_Name (adopted_service s v) = sv_Name s"
  "sv_ResourceVersion (adopted_service s v) = sv_ResourceVersion v"
  by (simp_all add: adopted_service_def)

lemma versioned_ingress_simps [simp]:
  "versioned_ingress (versioned_ingress i u) v = versioned_ingress i v"
  "ig_Name (versioned_ingress i v) = ig_Name i" "ig_ResourceVersion (versioned_ingress i v) = v"
  by (simp_all add: versioned_ingress_def)

lemma wanted_simps [simp]:
  "dp_Name (wanted_deployment cfg request target ls secret res) = dt_DeploymentName target"
  "dp_ResourceVersion (wanted_deployment cfg request target ls secret res) = []"
  "match_labels (wanted_deployment cfg request target ls secret res) = [(''shiply.io/service-id'', dr_ServiceID request)]"
  "sv_Name (wanted_service target ls) = dt_ServiceName target" "sv_ResourceVersion (wanted_service target ls) = []"
  "ig_Name (wanted_ingress cfg target ls) = dt_IngressName target" "ig_ResourceVersion (wanted_ingress cfg target ls) = []"
  "nm_Name (wanted_namespace ns ls) = ns"
  "sc_Name (wanted_secret cfg ns p) = ImagePullSecretName cfg" "sc_ResourceVersion (wanted_secret cfg ns p) = []"
  by (simp_all add: wanted_deployment_def wanted_service_def wanted_ingress_def wanted_namespace_def
      wanted_secret_def match_labels_def)

lemma kept_namespace_owned:
  assumes "keeps_namespace (wanted_namespace ns ls) ob"
  shows "checkNamespaceOwnership ob ns ls = None"
proof -
  have "map_of (nm_Labels (wanted_namespace ns ls)) ''shiply.io/managed-by'' = Some (label_at ls ''shiply.io/managed-by'')"
    "map_of (nm_Labels (wanted_namespace ns ls)) ''shiply.io/project-id'' = Some (label_at ls ''shiply.io/project-id'')"
    by (simp_all add: wanted_namespace_def)
  then have "map_of (nm_Labels ob) ''shiply.io/managed-by'' = Some (label_at ls ''shiply.io/managed-by'')"
    "map_of (nm_Labels ob) ''shiply.io/project-id'' = Some (label_at ls ''shiply.io/project-id'')"
    using assms unfolding keeps_namespace_def by blast+
  then show ?thesis by (simp add: checkNamespaceOwnership_def label_at_def [of "nm_Labels ob"])
qed

context quiet_api
begin

abbreviation held :: "('q, 'e) cluster \<Rightarrow> 'q store" where "held w \<equiv> view (cl_ext w)"

lemma namespace_ensured:
  assumes "st_Namespaces (held w) ([], ns) = None \<or>
    (\<exists>ob. st_Namespaces (held w) ([], ns) = Some ob \<and> checkNamespaceOwnership ob ns ls = None)"
  obtains w' ob where "ensureNamespace k c ns ls w = (None, w')" "checkNamespaceOwnership ob ns ls = None"
    "held w' = st_Namespaces_update (\<lambda>m. m(([], ns) \<mapsto> ob)) (held w)"
proof -
  let ?a = "cs_Namespaces (kc_clientset k)"
  obtain g e1 where g: "oa_Get ?a c [] ns (cl_ext w) = (g, e1)" by fastforce
  note G = serves_Get [OF namespaces g]
  show ?thesis
  proof (cases "st_Namespaces (held w) ([], ns)")
    case None
    then obtain err where err: "g = Inl err" "IsNotFound err" using G(3) by blast
    have "st_Namespaces (view e1) ([], nm_Name (wanted_namespace ns ls)) = None" using None G(1) by simp
    then obtain e2 ob where e2: "oa_Create ?a c [] (wanted_namespace ns ls) e1 = (None, e2)"
      "keeps_namespace (wanted_namespace ns ls) ob"
      "view e2 = st_Namespaces_update (\<lambda>m. m(([], nm_Name (wanted_namespace ns ls)) \<mapsto> ob)) (view e1)"
      by (rule serves_Create [OF namespaces]) simp_all
    then show ?thesis
      by (intro that [of "\<lparr>cl_ext = e2, cl_calls = cl_calls w @ [GetNamespace ns g,
          CreateNamespace (wanted_namespace ns ls) None]\<rparr>" ob])
        (use g err G(1) in \<open>simp_all add: ensureNamespace_def api_def kept_namespace_owned Let_def\<close>)
  next
    case (Some ob)
    moreover have "g = Inr ob" using G(2) Some by blast
    moreover have "held w = st_Namespaces_update (\<lambda>m. m(([], ns) \<mapsto> ob)) (held w)"
      using Some by (cases "held w") (simp add: fun_upd_idem)
    ultimately show ?thesis
      using assms g G(1)
      by (intro that [of "\<lparr>cl_ext = e1, cl_calls = cl_calls w @ [GetNamespace ns g]\<rparr>" ob])
        (simp_all add: ensureNamespace_def api_def Let_def)
  qed
qed

lemma deployment_ensured:
  assumes res: "buildResourceRequirements (kc_ParseQuantity k) (cfg_ResourceDefaults (kc_cfg k)) = Inr res"
    and sel: "\<And>d. st_Deployments (held w) (dt_Namespace target, dt_DeploymentName target) = Some d \<Longrightarrow>
      map_of (match_labels d) = [''shiply.io/service-id'' \<mapsto> dr_ServiceID request]"
  obtains w' v where "ensureDeployment k fuel c request target ls secret w = Some (None, w')"
    "held w' = st_Deployments_update (\<lambda>m. m((dt_Namespace target, dt_DeploymentName target) \<mapsto>
       versioned_deployment (wanted_deployment (kc_cfg k) request target ls secret res) v)) (held w)"
proof -
  let ?a = "cs_Deployments (kc_clientset k)" let ?ns = "dt_Namespace target" let ?n = "dt_DeploymentName target"
  let ?d = "wanted_deployment (kc_cfg k) request target ls secret res"
  obtain g e1 where g: "oa_Get ?a c ?ns ?n (cl_ext w) = (g, e1)" by fastforce
  note G = serves_Get [OF deployments g]
  show ?thesis
  proof (cases "st_Deployments (held w) (?ns, ?n)")
    case None
    then obtain err where err: "g = Inl err" "IsNotFound err" using G(3) by blast
    have "st_Deployments (view e1) (?ns, dp_Name ?d) = None" using None G(1) by simp
    then obtain e2 ob where e2: "oa_Create ?a c ?ns ?d e1 = (None, e2)" "keeps_deployment ?d ob"
      "view e2 = st_Deployments_update (\<lambda>m. m((?ns, dp_Name ?d) \<mapsto> ob)) (view e1)"
      by (rule serves_Create [OF deployments]) simp_all
    then obtain v where "ob = versioned_deployment ?d v" by (auto simp: keeps_deployment_def)
    then show ?thesis
      by (intro that [of "\<lparr>cl_ext = e2, cl_calls = cl_calls w @ [GetDeployment ?ns ?n g, CreateDeployment ?ns ?d None]\<rparr>" v])
        (use res g err e2 G(1) in \<open>simp_all add: ensureDeployment_def api_def Let_def\<close>)
  next
    case (Some ob)
    then have ob: "g = Inr ob" using G(2) by blast
    define w1 where "w1 = \<lparr>cl_ext = e1, cl_calls = cl_calls w @ [GetDeployment ?ns ?n (Inr ob)]\<rparr>"
    obtain h e2 where h: "oa_Get ?a c ?ns ?n e1 = (h, e2)" by fastforce
    note H = serves_Get [OF deployments h]
    have h_ob: "h = Inr ob" using H(2) Some G(1) by simp
    let ?u = "versioned_deployment ?d (dp_ResourceVersion ob)"
    have "st_Deployments (view e2) (?ns, dp_Name ?u) = Some ob" using Some G(1) H(1) by simp
    then obtain e3 ob' where e3: "oa_Update ?a c ?ns ?u e2 = (None, e3)" "keeps_deployment ?u ob'"
      "view e3 = st_Deployments_update (\<lambda>m. m((?ns, dp_Name ?u) \<mapsto> ob')) (view e2)"
      by (rule serves_Update [OF deployments]) simp
    then obtain v where v: "ob' = versioned_deployment ?d v" by (auto simp: keeps_deployment_def)
    obtain w3 where w3: "update_deployment k fuel c target ?d w1 = Some (None, w3)" "cl_ext w3 = e3"
      using h h_ob e3(1) by (simp add: update_deployment_def api_def w1_def versioned_deployment_def Let_def)
    have "maps_Equal (match_labels ob) (match_labels ?d)" using sel [OF Some] by (simp add: maps_Equal_iff)
    then have "ensureDeployment k fuel c request target ls secret w = Some (None, w3)"
      using conflict_retry.retry_success [OF conflicts, of "update_deployment k fuel c target ?d", OF w3(1)] g ob res
      by (simp add: ensureDeployment_def api_def w1_def Let_def)
    then show ?thesis by (rule that [of _ v]) (use e3 v w3(2) G(1) H(1) in simp)
  qed
qed

lemma service_ensured:
  obtains w' v where "ensureService k c target ls w = Some (None, w')"
    "held w' = st_Services_update (\<lambda>m. m((dt_Namespace target, dt_ServiceName target) \<mapsto>
       adopted_service (wanted_service target ls) v)) (held w)"
proof -
  let ?a = "cs_Services (kc_clientset k)" let ?ns = "dt_Namespace target" let ?n = "dt_ServiceName target"
  let ?d = "wanted_service target ls"
  obtain g e1 where g: "oa_Get ?a c ?ns ?n (cl_ext w) = (g, e1)" by fastforce
  note G = serves_Get [OF services g]
  show ?thesis
  proof (cases "st_Services (held w) (?ns, ?n)")
    case None
    then obtain err where err: "g = Inl err" "IsNotFound err" using G(3) by blast
    have "st_Services (view e1) (?ns, sv_Name ?d) = None" using None G(1) by simp
    then obtain e2 ob where e2: "oa_Create ?a c ?ns ?d e1 = (None, e2)" "keeps_service ?d ob"
      "view e2 = st_Services_update (\<lambda>m. m((?ns, sv_Name ?d) \<mapsto> ob)) (view e1)"
      by (rule serves_Create [OF services]) simp_all
    then obtain v where "ob = adopted_service ?d v" by (auto simp: keeps_service_def)
    then show ?thesis
      by (intro that [of "\<lparr>cl_ext = e2, cl_calls = cl_calls w @ [GetService ?ns ?n g, CreateService ?ns ?d None]\<rparr>" v])
        (use g err e2 G(1) in \<open>simp_all add: ensureService_def api_def Let_def\<close>)
  next
    case (Some ob)
    then have ob: "g = Inr ob" using G(2) by blast
    define w1 where "w1 = \<lparr>cl_ext = e1, cl_calls = cl_calls w @ [GetService ?ns ?n (Inr ob)]\<rparr>"
    obtain h e2 where h: "oa_Get ?a c ?ns ?n e1 = (h, e2)" by fastforce
    note H = serves_Get [OF services h]
    have h_ob: "h = Inr ob" using H(2) Some G(1) by simp
    let ?u = "adopted_service ?d ob"
    have "st_Services (view e2) (?ns, sv_Name ?u) = Some ob" using Some G(1) H(1) by simp
    then obtain e3 ob' where e3: "oa_Update ?a c ?ns ?u e2 = (None, e3)" "keeps_service ?u ob'"
      "view e3 = st_Services_update (\<lambda>m. m((?ns, sv_Name ?u) \<mapsto> ob')) (view e2)"
      by (rule serves_Update [OF services]) simp
    then obtain v where v: "ob' = adopted_service ?d v" by (auto simp: keeps_service_def)
    obtain w3 where w3: "update_service k c target ?d w1 = Some (None, w3)" "cl_ext w3 = e3"
      using h h_ob e3(1) by (simp add: update_service_def api_def w1_def adopted_service_def Let_def)
    then have "ensureService k c target ls w = Some (None, w3)"
      using conflict_retry.retry_success [OF conflicts, of "update_service k c target ?d", OF w3(1)] g ob
      by (simp add: ensureService_def api_def w1_def Let_def)
    then show ?thesis by (rule that [of _ v]) (use e3 v w3(2) G(1) H(1) in simp)
  qed
qed

lemma ingress_ensured:
  obtains w' v where "ensureIngress k c target ls w = Some (None, w')"
    "held w' = st_Ingresses_update (\<lambda>m. m((dt_Namespace target, dt_IngressName target) \<mapsto>
       versioned_ingress (wanted_ingress (kc_cfg k) target ls) v)) (held w)"
proof -
  let ?a = "cs_Ingresses (kc_clientset k)" let ?ns = "dt_Namespace target" let ?n = "dt_IngressName target"
  let ?d = "wanted_ingress (kc_cfg k) target ls"
  obtain g e1 where g: "oa_Get ?a c ?ns ?n (cl_ext w) = (g, e1)" by fastforce
  note G = serves_Get [OF ingresses g]
  show ?thesis
  proof (cases "st_Ingresses (held w) (?ns, ?n)")
    case None
    then obtain err where err: "g = Inl err" "IsNotFound err" using G(3) by blast
    have "st_Ingresses (view e1) (?ns, ig_Name ?d) = None" using None G(1) by simp
    then obtain e2 ob where e2: "oa_Create ?a c ?ns ?d e1 = (None, e2)" "keeps_ingress ?d ob"
      "view e2 = st_Ingresses_update (\<lambda>m. m((?ns, ig_Name ?d) \<mapsto> ob)) (view e1)"
      by (rule serves_Create [OF ingresses]) simp_all
    then obtain v where "ob = versioned_ingress ?d v" by (auto simp: keeps_ingress_def)
    then show ?thesis
      by (intro that [of "\<lparr>cl_ext = e2, cl_calls = cl_calls w @ [GetIngress ?ns ?n g, CreateIngress ?ns ?d None]\<rparr>" v])
        (use g err e2 G(1) in \<open>simp_all add: ensureIngress_def api_def Let_def\<close>)
  next
    case (Some ob)
    then have ob: "g = Inr ob" using G(2) by blast
    define w1 where "w1 = \<lparr>cl_ext = e1, cl_calls = cl_calls w @ [GetIngress ?ns ?n (Inr ob)]\<rparr>"
    obtain h e2 where h: "oa_Get ?a c ?ns ?n e1 = (h, e2)" by fastforce
    note H = serves_Get [OF ingresses h]
    have h_ob: "h = Inr ob" using H(2) Some G(1) by simp
    let ?u = "versioned_ingress ?d (ig_ResourceVersion ob)"
    have "st_Ingresses (view e2) (?ns, ig_Name ?u) = Some ob" using Some G(1) H(1) by simp
    then obtain e3 ob' where e3: "oa_Update ?a c ?ns ?u e2 = (None, e3)" "keeps_ingress ?u ob'"
      "view e3 = st_Ingresses_update (\<lambda>m. m((?ns, ig_Name ?u) \<mapsto> ob')) (view e2)"
      by (rule serves_Update [OF ingresses]) simp
    then obtain v where v: "ob' = versioned_ingress ?d v" by (auto simp: keeps_ingress_def)
    obtain w3 where w3: "update_ingress k c target ?d w1 = Some (None, w3)" "cl_ext w3 = e3"
      using h h_ob e3(1) by (simp add: update_ingress_def api_def w1_def versioned_ingress_def Let_def)
    then have "ensureIngress k c target ls w = Some (None, w3)"
      using conflict_retry.retry_success [OF conflicts, of "update_ingress k c target ?d", OF w3(1)] g ob
      by (simp add: ensureIngress_def api_def w1_def Let_def)
    then show ?thesis by (rule that [of _ v]) (use e3 v w3(2) G(1) H(1) in simp)
  qed
qed

lemma secret_ensured:
  assumes payload: "secret_payload (kc_cfg k) payload"
  obtains w' s where "ensureRegistryPullSecret k c ns w = Some ((ImagePullSecretName (kc_cfg k), None), w')"
    "held w' = st_Secrets_update (\<lambda>m. m((ns, ImagePullSecretName (kc_cfg k)) \<mapsto> filled_secret s payload)) (held w)"
proof -
  let ?a = "cs_Secrets (kc_clientset k)" let ?n = "ImagePullSecretName (kc_cfg k)"
  let ?d = "wanted_secret (kc_cfg k) ns payload"
  note P = payload [unfolded secret_payload_def]
  obtain g e1 where g: "oa_Get ?a c ns ?n (cl_ext w) = (g, e1)" by fastforce
  note G = serves_Get [OF secrets g]
  have kept: "\<exists>s'. ob = filled_secret s' payload" if "keeps_secret (filled_secret s payload) ob" for s ob
    using that by (auto simp: keeps_secret_def filled_secret_def intro: exI [of _ ob])
  show ?thesis
  proof (cases "st_Secrets (held w) (ns, ?n)")
    case None
    then obtain err where err: "g = Inl err" "IsNotFound err" using G(3) by blast
    have "st_Secrets (view e1) (ns, sc_Name ?d) = None" using None G(1) by simp
    then obtain e2 ob where e2: "oa_Create ?a c ns ?d e1 = (None, e2)" "keeps_secret ?d ob"
      "view e2 = st_Secrets_update (\<lambda>m. m((ns, sc_Name ?d) \<mapsto> ob)) (view e1)"
      by (rule serves_Create [OF secrets]) simp_all
    have "?d = filled_secret ?d payload" by (simp add: wanted_secret_def filled_secret_def)
    then obtain s where "ob = filled_secret s payload" using kept e2(2) by metis
    then show ?thesis
      by (intro that [of "\<lparr>cl_ext = e2, cl_calls = cl_calls w @ [GetSecret ns ?n g, CreateSecret ns ?d None]\<rparr>" s])
        (use g err e2 G(1) P in \<open>simp_all add: ensureRegistryPullSecret_def api_def Let_def\<close>)
  next
    case (Some ob)
    then have ob: "g = Inr ob" using G(2) by blast
    define w1 where "w1 = \<lparr>cl_ext = e1, cl_calls = cl_calls w @ [GetSecret ns ?n (Inr ob)]\<rparr>"
    obtain h e2 where h: "oa_Get ?a c ns ?n e1 = (h, e2)" by fastforce
    note H = serves_Get [OF secrets h]
    have h_ob: "h = Inr ob" using H(2) Some G(1) by simp
    let ?u = "filled_secret ob payload"
    have name: "sc_Name ?u = ?n" using held_names [OF Some] by (simp add: filled_secret_def)
    have "st_Secrets (view e2) (ns, sc_Name ?u) = Some ob" using Some G(1) H(1) name by simp
    then obtain e3 ob' where e3: "oa_Update ?a c ns ?u e2 = (None, e3)" "keeps_secret ?u ob'"
      "view e3 = st_Secrets_update (\<lambda>m. m((ns, sc_Name ?u) \<mapsto> ob')) (view e2)"
      by (rule serves_Update [OF secrets]) (simp add: filled_secret_def)
    then obtain s where v: "ob' = filled_secret s payload" using kept by blast
    obtain w3 where w3: "update_secret k c ns payload w1 = Some (None, w3)" "cl_ext w3 = e3"
      using h h_ob e3(1) by (simp add: update_secret_def api_def w1_def filled_secret_def Let_def)
    then have "ensureRegistryPullSecret k c ns w = Some ((?n, None), w3)"
      using conflict_retry.retry_success [OF conflicts, of "update_secret k c ns payload", OF w3(1)] g ob P
      by (simp add: ensureRegistryPullSecret_def api_def w1_def Let_def)
    then show ?thesis by (rule that [of _ s]) (use e3 v w3(2) G(1) H(1) name in simp)
  qed
qed

end

section \<open>Deploying converges\<close>

definition pull_secret :: "config \<Rightarrow> string" where
  "pull_secret cfg = (if ImagePullSecretName cfg \<noteq> [] \<and> registryCredentialsConfigured (cfg_Registry cfg) = Inr True
     then ImagePullSecretName cfg else [])"

text \<open>The namespace is free or the project's own; and a deployment of that name selects the same service.\<close>

definition namespace_free :: "deploy_request \<Rightarrow> deployment_target \<Rightarrow> 'q store \<Rightarrow> bool" where
  "namespace_free request target s \<longleftrightarrow>
     (case st_Namespaces s ([], dt_Namespace target) of
        None \<Rightarrow> True
      | Some ob \<Rightarrow> checkNamespaceOwnership ob (dt_Namespace target) (labelsForRequest request) = None)"

definition same_selector :: "deploy_request \<Rightarrow> deployment_target \<Rightarrow> 'q store \<Rightarrow> bool" where
  "same_selector request target s \<longleftrightarrow>
     (case st_Deployments s (dt_Namespace target, dt_DeploymentName target) of
        None \<Rightarrow> True
      | Some d \<Rightarrow> map_of (match_labels d) = [''shiply.io/service-id'' \<mapsto> dr_ServiceID request])"

text \<open>The cluster is as the request wants it, but for versions and the addresses of the service.\<close>

definition in_place ::
  "config \<Rightarrow> deploy_request \<Rightarrow> deployment_target \<Rightarrow> 'q resource_requirements \<Rightarrow> 'q store \<Rightarrow> bool" where
  "in_place cfg request target res s \<longleftrightarrow>
     (let ns = dt_Namespace target; ls = labelsForRequest request in
      (\<exists>ob. st_Namespaces s ([], ns) = Some ob \<and> checkNamespaceOwnership ob ns ls = None) \<and>
      (pull_secret cfg = [] \<or> (\<exists>ob payload. secret_payload cfg payload \<and>
         st_Secrets s (ns, pull_secret cfg) = Some (filled_secret ob payload))) \<and>
      (\<exists>v. st_Deployments s (ns, dt_DeploymentName target) =
         Some (versioned_deployment (wanted_deployment cfg request target ls (pull_secret cfg) res) v)) \<and>
      (\<exists>v. st_Services s (ns, dt_ServiceName target) = Some (adopted_service (wanted_service target ls) v)) \<and>
      (\<exists>v. st_Ingresses s (ns, dt_IngressName target) = Some (versioned_ingress (wanted_ingress cfg target ls) v)))"

context quiet_api
begin

lemma pull_secret_ensured:
  assumes "ImagePullSecretName (kc_cfg k) = [] \<or> registryCredentialsConfigured (cfg_Registry (kc_cfg k)) = Inr b"
  shows "\<exists>w' f. ensureRegistryPullSecret k c ns w = Some ((pull_secret (kc_cfg k), None), w') \<and>
    held w' = st_Secrets_update f (held w) \<and> (pull_secret (kc_cfg k) = [] \<or> (\<exists>ob payload.
      secret_payload (kc_cfg k) payload \<and> f (st_Secrets (held w)) (ns, pull_secret (kc_cfg k)) = Some (filled_secret ob payload)))"
proof (cases "pull_secret (kc_cfg k) = []")
  case True
  then have "ensureRegistryPullSecret k c ns w = Some (([], None), w)"
    using assms by (cases b) (auto simp: ensureRegistryPullSecret_def pull_secret_def Let_def split: if_splits)
  then show ?thesis using True by (intro exI [of _ w] exI [of _ "\<lambda>m. m"]) simp
next
  case False
  then obtain payload where p: "secret_payload (kc_cfg k) payload" "pull_secret (kc_cfg k) = ImagePullSecretName (kc_cfg k)"
    by (auto simp: pull_secret_def secret_payload_def dockerConfigJSON_def split: if_splits)
  obtain w' s where "ensureRegistryPullSecret k c ns w = Some ((ImagePullSecretName (kc_cfg k), None), w')"
    "held w' = st_Secrets_update (\<lambda>m. m((ns, ImagePullSecretName (kc_cfg k)) \<mapsto> filled_secret s payload)) (held w)"
    by (rule secret_ensured [OF p(1)])
  then show ?thesis using p
    by (intro exI [of _ w'] exI [of _ "\<lambda>m. m((ns, ImagePullSecretName (kc_cfg k)) \<mapsto> filled_secret s payload)"]) auto
qed

text \<open>The step of the deployment brings the wanted one into place.\<close>

definition places_deployment ::
  "nat \<Rightarrow> deploy_request \<Rightarrow> deployment_target \<Rightarrow> 'q resource_requirements \<Rightarrow> ('q, 'e) cluster \<Rightarrow> bool" where
  "places_deployment fuel request target res w \<longleftrightarrow>
     (let ls = labelsForRequest request; secret = pull_secret (kc_cfg k) in
      \<exists>w' v. ensureDeployment k fuel c request target ls secret w = Some (None, w') \<and>
        held w' = st_Deployments_update (\<lambda>m. m((dt_Namespace target, dt_DeploymentName target) \<mapsto>
          versioned_deployment (wanted_deployment (kc_cfg k) request target ls secret res) v)) (held w))"

lemma same_selector_places:
  assumes "buildResourceRequirements (kc_ParseQuantity k) (cfg_ResourceDefaults (kc_cfg k)) = Inr res"
    "same_selector request target (held w)"
  shows "places_deployment fuel request target res w"
proof -
  have "map_of (match_labels d) = [''shiply.io/service-id'' \<mapsto> dr_ServiceID request]"
    if "st_Deployments (held w) (dt_Namespace target, dt_DeploymentName target) = Some d" for d
    using assms(2) that by (simp add: same_selector_def)
  from deployment_ensured [OF assms(1) this] show ?thesis unfolding places_deployment_def Let_def by metis
qed

lemma converges:
  assumes target: "targetForRequest (kc_cfg k) request = Inr target"
    and creds: "ImagePullSecretName (kc_cfg k) = [] \<or> registryCredentialsConfigured (cfg_Registry (kc_cfg k)) = Inr b"
    and free: "namespace_free request target (held w)"
    and placed: "\<And>v. st_Deployments (held v) = st_Deployments (held w) \<Longrightarrow> places_deployment fuel request target res v"
  shows "\<exists>w'. Deploy k fuel c request w = Some ((target, None), w') \<and>
     in_place (kc_cfg k) request target res (held w') \<and>
     namespace_free request target (held w') \<and> same_selector request target (held w')"
proof -
  let ?ns = "dt_Namespace target" let ?ls = "labelsForRequest request"
  have "st_Namespaces (held w) ([], ?ns) = None \<or>
    (\<exists>ob. st_Namespaces (held w) ([], ?ns) = Some ob \<and> checkNamespaceOwnership ob ?ns ?ls = None)"
    using free by (auto simp: namespace_free_def split: option.splits)
  then obtain w1 ob where 1: "ensureNamespace k c ?ns ?ls w = (None, w1)" "checkNamespaceOwnership ob ?ns ?ls = None"
    "held w1 = st_Namespaces_update (\<lambda>m. m(([], ?ns) \<mapsto> ob)) (held w)"
    by (rule namespace_ensured)
  obtain w2 f where 2: "ensureRegistryPullSecret k c ?ns w1 = Some ((pull_secret (kc_cfg k), None), w2)"
    "held w2 = st_Secrets_update f (held w1)"
    "pull_secret (kc_cfg k) = [] \<or> (\<exists>ob payload. secret_payload (kc_cfg k) payload \<and>
       f (st_Secrets (held w1)) (?ns, pull_secret (kc_cfg k)) = Some (filled_secret ob payload))"
    using pull_secret_ensured [OF creds, of ?ns w1] by blast
  obtain w3 v where 3: "ensureDeployment k fuel c request target ?ls (pull_secret (kc_cfg k)) w2 = Some (None, w3)"
    "held w3 = st_Deployments_update (\<lambda>m. m((?ns, dt_DeploymentName target) \<mapsto>
       versioned_deployment (wanted_deployment (kc_cfg k) request target ?ls (pull_secret (kc_cfg k)) res) v)) (held w2)"
    using placed [of w2] unfolding places_deployment_def Let_def by (auto simp: 2(2) 1(3))
  obtain w4 v4 where 4: "ensureService k c target ?ls w3 = Some (None, w4)"
    "held w4 = st_Services_update (\<lambda>m. m((?ns, dt_ServiceName target) \<mapsto> adopted_service (wanted_service target ?ls) v4)) (held w3)"
    by (rule service_ensured)
  obtain w5 v5 where 5: "ensureIngress k c target ?ls w4 = Some (None, w5)"
    "held w5 = st_Ingresses_update (\<lambda>m. m((?ns, dt_IngressName target) \<mapsto> versioned_ingress (wanted_ingress (kc_cfg k) target ?ls) v5)) (held w4)"
    by (rule ingress_ensured)
  have "Deploy k fuel c request w = Some ((target, None), w5)"
    by (simp add: Deploy_def target step_def 1(1) 2(1) 3(1) 4(1) 5(1) Let_def)
  moreover have "in_place (kc_cfg k) request target res (held w5)"
    using 1(2) 2(3) by (auto simp: in_place_def Let_def 5(2) 4(2) 3(2) 2(2) 1(3))
  moreover have "namespace_free request target (held w5)" "same_selector request target (held w5)"
    using 1(2) by (simp_all add: namespace_free_def same_selector_def 5(2) 4(2) 3(2) 2(2) 1(3) fun_upd_def)
  ultimately show ?thesis by blast
qed

end

section \<open>Servers that delete at once\<close>

definition deletes_at_once :: "('q, 'e) kubernetes_client \<Rightarrow> ctx \<Rightarrow> ('e \<Rightarrow> 'q store) \<Rightarrow> bool" where
  "deletes_at_once k c view \<longleftrightarrow> (\<forall>ns n p e old. st_Deployments (view e) (ns, n) = Some old \<longrightarrow>
     (let (r, e') = oa_Delete (cs_Deployments (kc_clientset k)) c ns n p e
      in r = None \<and> view e' = st_Deployments_update (\<lambda>m. m((ns, n) := None)) (view e)))"

lemma deletes_at_onceD:
  assumes "deletes_at_once k c view" "st_Deployments (view e) (ns, n) = Some old"
    "oa_Delete (cs_Deployments (kc_clientset k)) c ns n p e = (r, e')"
  shows "r = None" "view e' = st_Deployments_update (\<lambda>m. m((ns, n) := None)) (view e)"
proof -
  have "let (r, e') = oa_Delete (cs_Deployments (kc_clientset k)) c ns n p e
      in r = None \<and> view e' = st_Deployments_update (\<lambda>m. m((ns, n) := None)) (view e)"
    using assms(1,2) unfolding deletes_at_once_def by blast
  then show "r = None" "view e' = st_Deployments_update (\<lambda>m. m((ns, n) := None)) (view e)" by (simp_all add: assms(3))
qed

locale deleting_api = quiet_api +
  assumes deletions: "deletes_at_once k c view"
begin

text \<open>A deployment of another service under the same name is deleted and created anew.\<close>

lemma recreated_places:
  assumes "buildResourceRequirements (kc_ParseQuantity k) (cfg_ResourceDefaults (kc_cfg k)) = Inr res" "0 < fuel"
    "\<not> same_selector request target (held w)"
  shows "places_deployment fuel request target res w"
proof -
  let ?a = "cs_Deployments (kc_clientset k)" let ?ns = "dt_Namespace target" let ?n = "dt_DeploymentName target"
  let ?d = "wanted_deployment (kc_cfg k) request target (labelsForRequest request) (pull_secret (kc_cfg k)) res"
  obtain m where m: "fuel = Suc m" using assms(2) by (cases fuel) auto
  obtain ob where ob: "st_Deployments (held w) (?ns, ?n) = Some ob" "\<not> maps_Equal (match_labels ob) (match_labels ?d)"
    using assms(3) by (auto simp: same_selector_def maps_Equal_iff split: option.splits)
  obtain g e1 where g: "oa_Get ?a c ?ns ?n (cl_ext w) = (g, e1)" by fastforce
  note G = serves_Get [OF deployments g]
  have g_ob: "g = Inr ob" using G(2) ob(1) by blast
  obtain r e2 where r: "oa_Delete ?a c ?ns ?n ''Foreground'' e1 = (r, e2)" by fastforce
  have "st_Deployments (view e1) (?ns, ?n) = Some ob" using ob(1) G(1) by simp
  note r_ok = deletes_at_onceD [OF deletions this r]
  obtain h e3 where h: "oa_Get ?a c ?ns ?n e2 = (h, e3)" by fastforce
  note H = serves_Get [OF deployments h]
  obtain err where err: "h = Inl err" "IsNotFound err" using H(3) r_ok(2) by auto
  have "st_Deployments (view e3) (?ns, dp_Name ?d) = None" using H(1) r_ok(2) by simp
  then obtain e4 ob' where e4: "oa_Create ?a c ?ns ?d e3 = (None, e4)" "keeps_deployment ?d ob'"
    "view e4 = st_Deployments_update (\<lambda>m. m((?ns, dp_Name ?d) \<mapsto> ob')) (view e3)"
    by (rule serves_Create [OF deployments]) simp_all
  obtain v where "ob' = versioned_deployment ?d v" using e4(2) by (auto simp: keeps_deployment_def)
  then have held: "view e4 = st_Deployments_update (\<lambda>m. m((?ns, ?n) \<mapsto> versioned_deployment ?d v)) (held w)"
    using e4(3) H(1) r_ok(2) G(1) by (simp add: comp_def)
  obtain w' where "ensureDeployment k fuel c request target (labelsForRequest request) (pull_secret (kc_cfg k)) w = Some (None, w')"
    "cl_ext w' = e4"
    using assms(1) g g_ob ob(2) r r_ok(1) h err e4(1)
    by (simp add: ensureDeployment_def recreateDeployment_def api_def m Let_def)
  then show ?thesis unfolding places_deployment_def Let_def using held by auto
qed

end

lemma quiet_Deploy:
  assumes "quiet_api k c view" "targetForRequest (kc_cfg k) request = Inr target"
    "buildResourceRequirements (kc_ParseQuantity k) (cfg_ResourceDefaults (kc_cfg k)) = Inr res"
    "ImagePullSecretName (kc_cfg k) = [] \<or> registryCredentialsConfigured (cfg_Registry (kc_cfg k)) = Inr b"
    "namespace_free request target (view (cl_ext w))"
    "same_selector request target (view (cl_ext w)) \<or> deletes_at_once k c view \<and> 0 < fuel"
  shows "\<exists>w'. Deploy k fuel c request w = Some ((target, None), w') \<and>
     in_place (kc_cfg k) request target res (view (cl_ext w')) \<and>
     namespace_free request target (view (cl_ext w')) \<and> same_selector request target (view (cl_ext w'))"
proof (rule quiet_api.converges [OF assms(1,2,4,5)])
  fix v :: "('a, 'b) cluster"
  assume v: "st_Deployments (view (cl_ext v)) = st_Deployments (view (cl_ext w))"
  show "quiet_api.places_deployment k c view fuel request target res v"
  proof (cases "same_selector request target (view (cl_ext v))")
    case False
    then have "deletes_at_once k c view" "0 < fuel" using assms(6) v by (auto simp: same_selector_def)
    then show ?thesis
      using deleting_api.recreated_places [of k c view res fuel request target v] assms(1,3) False
      by (simp add: deleting_api_def deleting_api_axioms_def)
  qed (rule quiet_api.same_selector_places [OF assms(1,3)])
qed


end
