(* ===== verification/Memory_Server.thy ===== *)
theory Memory_Server
  imports Cluster Sample
begin

text \<open>
  An API server in memory: objects with versions from one counter, creation of what exists and updates
  under another version refused, as the API documents it. It meets the contracts \<open>quiet_api\<close> and \<open>deleting_api\<close>, and the
  theorems on the reconciler are applied to it at the sample request.
\<close>

section \<open>The server\<close>

record 'q mem =
  mm_Namespaces :: "(string \<times> k8s_namespace) list"
  mm_Secrets :: "(string \<times> k8s_secret) list"
  mm_Deployments :: "(string \<times> 'q k8s_deployment) list"
  mm_Services :: "(string \<times> k8s_service) list"
  mm_Ingresses :: "(string \<times> k8s_ingress) list"
  mm_version :: nat
  mm_now :: int

definition mem_find :: "('o \<Rightarrow> string) \<Rightarrow> (string \<times> 'o) list \<Rightarrow> string \<times> string \<Rightarrow> 'o option" where
  "mem_find name obs key = map_option snd (List.find (\<lambda>(ns, ob). (ns, name ob) = key) obs)"

definition mem_put :: "('o \<Rightarrow> string) \<Rightarrow> string \<Rightarrow> 'o \<Rightarrow> (string \<times> 'o) list \<Rightarrow> (string \<times> 'o) list" where
  "mem_put name ns ob obs = (ns, ob) # obs"

definition status_error :: ext_error where
  "status_error = \<lparr>x_Error = ''status'', x_IsNotFound = False, x_IsAlreadyExists = False, x_IsConflict = False,
     x_IsInvalid = False, x_IsTimeout = False, x_IsServerTimeout = False, x_IsServiceUnavailable = False,
     x_IsTooManyRequests = False, x_IsInternalError = False, x_AsNetError = False, x_AsURLError = False,
     x_IsDeadlineExceeded = False\<rparr>"

definition version_on_create :: go_error where
  "version_on_create = ExtError (status_error\<lparr>x_Error := ''resourceVersion should not be set on objects to be created'',
     x_IsInternalError := True\<rparr>)"

abbreviation mem_not_found :: go_error where "mem_not_found \<equiv> ExtError (status_error\<lparr>x_IsNotFound := True\<rparr>)"
abbreviation mem_exists :: go_error where "mem_exists \<equiv> ExtError (status_error\<lparr>x_IsAlreadyExists := True\<rparr>)"
abbreviation mem_conflict :: go_error where "mem_conflict \<equiv> ExtError (status_error\<lparr>x_IsConflict := True\<rparr>)"

text \<open>One kind of object: where the server holds it, its name and version, and what is stored of it.\<close>

definition mem_api ::
  "('q mem \<Rightarrow> (string \<times> 'o) list) \<Rightarrow> (((string \<times> 'o) list \<Rightarrow> (string \<times> 'o) list) \<Rightarrow> 'q mem \<Rightarrow> 'q mem) \<Rightarrow>
   ('o \<Rightarrow> string) \<Rightarrow> ('o \<Rightarrow> string) \<Rightarrow> (string \<Rightarrow> 'o \<Rightarrow> 'o) \<Rightarrow> ('o, 'q mem) object_api" where
  "mem_api sel upd name version stored =
     (let put = (\<lambda>ns ob e. (None, (upd (mem_put name ns (stored (show_nat (mm_version e)) ob)) e)
            \<lparr>mm_version := Suc (mm_version e)\<rparr>))
      in \<lparr>oa_Get = (\<lambda>c ns n e. (case mem_find name (sel e) (ns, n) of None \<Rightarrow> Inl mem_not_found | Some ob \<Rightarrow> Inr ob, e)),
          oa_Create = (\<lambda>c ns ob e.
            if mem_find name (sel e) (ns, name ob) \<noteq> None then (Some mem_exists, e)
            else if version ob \<noteq> [] then (Some version_on_create, e)
            else put ns ob e),
          oa_Update = (\<lambda>c ns ob e.
            case mem_find name (sel e) (ns, name ob) of
              None \<Rightarrow> (Some mem_not_found, e)
            | Some old \<Rightarrow> if version ob \<noteq> version old then (Some mem_conflict, e) else put ns ob e),
          oa_Delete = (\<lambda>c ns n p e.
            if mem_find name (sel e) (ns, n) = None then (Some mem_not_found, e)
            else (None, upd (filter (\<lambda>(ns', ob). (ns', name ob) \<noteq> (ns, n))) e))\<rparr>)"

definition mem_clientset :: "('q, 'q mem) clientset" where
  "mem_clientset =
     \<lparr>cs_Namespaces = mem_api mm_Namespaces mm_Namespaces_update nm_Name (\<lambda>n. []) (\<lambda>v n. n),
      cs_Secrets = mem_api mm_Secrets mm_Secrets_update sc_Name sc_ResourceVersion (\<lambda>v s. s\<lparr>sc_ResourceVersion := v\<rparr>),
      cs_Deployments = mem_api mm_Deployments mm_Deployments_update dp_Name dp_ResourceVersion (\<lambda>v d. versioned_deployment d v),
      cs_Services = mem_api mm_Services mm_Services_update sv_Name sv_ResourceVersion
        (\<lambda>v s. adopted_service s (s\<lparr>sv_ResourceVersion := v, sv_ClusterIP := ''10.0.0.1''\<rparr>)),
      cs_Ingresses = mem_api mm_Ingresses mm_Ingresses_update ig_Name ig_ResourceVersion (\<lambda>v i. versioned_ingress i v)\<rparr>"

definition mem_view :: "'q mem \<Rightarrow> 'q store" where
  "mem_view e = \<lparr>st_Namespaces = mem_find nm_Name (mm_Namespaces e), st_Secrets = mem_find sc_Name (mm_Secrets e),
     st_Deployments = mem_find dp_Name (mm_Deployments e), st_Services = mem_find sv_Name (mm_Services e),
     st_Ingresses = mem_find ig_Name (mm_Ingresses e)\<rparr>"

text \<open>A client of this server; quantities are their texts.\<close>

definition mem_kubernetes :: "config \<Rightarrow> (string, string mem) kubernetes_client" where
  "mem_kubernetes cfg = \<lparr>kc_cfg = cfg, kc_clientset = mem_clientset, kc_ParseQuantity = Inr,
     kc_RetryOnConflict = conflict_loop (replicate 4 (\<lambda>e. e)), kc_Now = mm_now,
     kc_Sleep = (\<lambda>t e. e\<lparr>mm_now := max t (mm_now e)\<rparr>), kc_Select = (\<lambda>e. 0)\<rparr>"

definition empty_mem :: "string mem" where
  "empty_mem = \<lparr>mm_Namespaces = [], mm_Secrets = [], mm_Deployments = [], mm_Services = [], mm_Ingresses = [],
     mm_version = 1, mm_now = 0\<rparr>"

definition cluster_of :: "string mem \<Rightarrow> (string, string mem) cluster" where
  "cluster_of e = \<lparr>cl_ext = e, cl_calls = []\<rparr>"

section \<open>It meets the contract\<close>

lemma mem_find_put: "mem_find name (mem_put name ns ob obs) = (mem_find name obs)((ns, name ob) \<mapsto> ob)"
  by (rule ext) (simp add: mem_find_def mem_put_def)

lemma mem_find_name: "mem_find name obs (ns, n) = Some ob \<Longrightarrow> name ob = n"
  by (auto simp: mem_find_def find_Some_iff case_prod_beta) (metis snd_conv)

lemma mem_serves:
  assumes "\<And>e. sel' (view e) = mem_find name (sel e)"
    and "\<And>f g e v. (\<And>obs. mem_find name (f obs) = g (mem_find name obs)) \<Longrightarrow>
        view ((upd f e)\<lparr>mm_version := v\<rparr>) = upd' g (view e)"
    and "\<And>v ob. name (stored v ob) = name ob" "\<And>v ob. keeps ob (stored v ob)"
  shows "serves c (mem_api sel upd name version stored) view sel' upd' name version keeps"
proof -
  have put: "view ((upd (mem_put name ns (stored v ob)) e)\<lparr>mm_version := w\<rparr>) =
      upd' (\<lambda>m. m((ns, name ob) \<mapsto> stored v ob)) (view e)" for ns v ob e w
    using assms(2) [of "mem_put name ns (stored v ob)" "\<lambda>m. m((ns, name ob) \<mapsto> stored v ob)" w e]
    by (simp add: mem_find_put assms(3))
  show ?thesis
    unfolding serves_def reads_def written_def
    using assms(4) by (auto simp: mem_api_def Let_def assms(1) put status_error_def split: option.splits)
qed

lemma keeps_self:
  "keeps_namespace n n" "keeps_secret s (s\<lparr>sc_ResourceVersion := v\<rparr>)" "keeps_deployment d (versioned_deployment d v)"
  "keeps_service sv (adopted_service sv l)" "keeps_ingress i (versioned_ingress i v)"
  by (auto simp: keeps_namespace_def keeps_secret_def keeps_deployment_def keeps_service_def keeps_ingress_def)

lemma mem_kubernetes_simps [simp]:
  "kc_cfg (mem_kubernetes cfg) = cfg" "kc_clientset (mem_kubernetes cfg) = mem_clientset"
  "kc_ParseQuantity (mem_kubernetes cfg) = Inr" "kc_Now (mem_kubernetes cfg) = mm_now"
  "kc_RetryOnConflict (mem_kubernetes cfg) = conflict_loop (replicate 4 (\<lambda>e. e))"
  "kc_Sleep (mem_kubernetes cfg) = (\<lambda>t e. e\<lparr>mm_now := max t (mm_now e)\<rparr>)"
  by (simp_all add: mem_kubernetes_def)

interpretation mem: conflict_retry "conflict_loop (replicate 4 (\<lambda>e. e))"
  by (rule conflict_retry_loop) simp

interpretation mem: quiet_api "mem_kubernetes cfg" c mem_view for cfg c
proof (rule quiet_api.intro)
  show "serves c (cs_Namespaces (kc_clientset (mem_kubernetes cfg))) mem_view st_Namespaces st_Namespaces_update
      nm_Name (\<lambda>n. []) keeps_namespace"
    by (simp add: mem_clientset_def) (rule mem_serves; simp add: mem_view_def keeps_self)
  show "serves c (cs_Secrets (kc_clientset (mem_kubernetes cfg))) mem_view st_Secrets st_Secrets_update
      sc_Name sc_ResourceVersion keeps_secret"
    by (simp add: mem_clientset_def) (rule mem_serves; simp add: mem_view_def keeps_self)
  show "serves c (cs_Deployments (kc_clientset (mem_kubernetes cfg))) mem_view st_Deployments st_Deployments_update
      dp_Name dp_ResourceVersion keeps_deployment"
    by (simp add: mem_clientset_def) (rule mem_serves; simp add: mem_view_def keeps_self)
  show "serves c (cs_Services (kc_clientset (mem_kubernetes cfg))) mem_view st_Services st_Services_update
      sv_Name sv_ResourceVersion keeps_service"
    by (simp add: mem_clientset_def) (rule mem_serves; simp add: mem_view_def keeps_self)
  show "serves c (cs_Ingresses (kc_clientset (mem_kubernetes cfg))) mem_view st_Ingresses st_Ingresses_update
      ig_Name ig_ResourceVersion keeps_ingress"
    by (simp add: mem_clientset_def) (rule mem_serves; simp add: mem_view_def keeps_self)
  show "conflict_retry (kc_RetryOnConflict (mem_kubernetes cfg))"
    by (simp del: replicate.simps) (rule mem.conflict_retry_axioms)
  show "st_Secrets (mem_view e) (ns, n) = Some s \<Longrightarrow> sc_Name s = n" for e ns n s
    by (simp add: mem_view_def mem_find_name)
qed

lemma mem_find_delete:
  "mem_find name (filter (\<lambda>(ns', ob). ns' = ns \<longrightarrow> name ob \<noteq> n) obs) = (mem_find name obs)((ns, n) := None)"
proof
  fix q
  show "mem_find name (filter (\<lambda>(ns', ob). ns' = ns \<longrightarrow> name ob \<noteq> n) obs) q = ((mem_find name obs)((ns, n) := None)) q"
    by (induction obs) (auto simp: mem_find_def)
qed

lemma mem_deletes: "deletes_at_once (mem_kubernetes cfg) c mem_view"
  by (auto simp: deletes_at_once_def mem_clientset_def mem_api_def mem_view_def mem_find_delete Let_def)

interpretation mem: deleting_api "mem_kubernetes cfg" c mem_view for cfg c
  by unfold_locales (rule mem_deletes)

section \<open>The theorems at the sample request\<close>

lemma sample_resources: "buildResourceRequirements Inr (cfg_ResourceDefaults sample_config) =
    Inr \<lparr>rq_Requests = [(''cpu'', ''100m''), (''memory'', ''128Mi'')], rq_Limits = [(''cpu'', ''500m''), (''memory'', ''512Mi'')]\<rparr>"
  by (simp add: buildResourceRequirements_def sample_config_def)

lemma sample_resources_client:
  "buildResourceRequirements (kc_ParseQuantity (mem_kubernetes sample_config))
     (cfg_ResourceDefaults (kc_cfg (mem_kubernetes sample_config))) =
   Inr \<lparr>rq_Requests = [(''cpu'', ''100m''), (''memory'', ''128Mi'')], rq_Limits = [(''cpu'', ''500m''), (''memory'', ''512Mi'')]\<rparr>"
  by (simp add: sample_resources)

lemma sample_no_secret: "ImagePullSecretName sample_config = [] \<or>
    registryCredentialsConfigured (cfg_Registry sample_config) = Inr False"
  by (simp add: sample_config_def)

text \<open>A server that holds a deployment of another service under the name the sample request uses.\<close>

definition taken_mem :: "string mem" where
  "taken_mem = empty_mem\<lparr>mm_Deployments := [(''shiply-prj-shop'',
     versioned_deployment (wanted_deployment sample_config (sample_request\<lparr>dr_ServiceID := ''other''\<rparr>) sample_target [] []
       \<lparr>rq_Requests = [], rq_Limits = []\<rparr>) ''1'')]\<rparr>"

lemma sample_free:
  "namespace_free sample_request sample_target (mem_view (cl_ext (cluster_of empty_mem)))"
  "same_selector sample_request sample_target (mem_view (cl_ext (cluster_of empty_mem)))"
  "namespace_free sample_request sample_target (mem_view (cl_ext (cluster_of taken_mem)))"
  by (simp_all add: namespace_free_def same_selector_def cluster_of_def mem_view_def taken_mem_def empty_mem_def mem_find_def)

abbreviation sample_kubernetes :: "(string, string mem) kubernetes_client" where
  "sample_kubernetes \<equiv> mem_kubernetes sample_config"

lemma sample_retry: "conflict_retry (kc_RetryOnConflict sample_kubernetes)"
  by (rule mem.conflicts)

lemma sample_deploy:
  obtains w where "Deploy sample_kubernetes fuel c sample_request (cluster_of empty_mem) = Some ((sample_target, None), w)"
proof -
  have "same_selector sample_request sample_target (mem_view (cl_ext v))"
    if "st_Deployments (mem_view (cl_ext v)) = st_Deployments (mem_view (cl_ext (cluster_of empty_mem)))" for v :: "(string, string mem) cluster"
    using sample_free(2) that by (simp add: same_selector_def)
  note places = mem.same_selector_places [OF sample_resources_client this]
  have "targetForRequest (kc_cfg sample_kubernetes) sample_request = Inr sample_target"
    by (simp add: sample_targetForRequest)
  from mem.converges [OF this _ sample_free(1) places, of False] show ?thesis
    using that sample_no_secret by auto
qed


theorem namespace_guarded_witness:
  "\<exists>w'. Deploy sample_kubernetes 0 background sample_request (cluster_of empty_mem) = Some ((sample_target, None), w') \<and>
     list_all (stays_in sample_target) (deploy_calls (cluster_of empty_mem) w')"
proof -
  obtain w where w: "Deploy sample_kubernetes 0 background sample_request (cluster_of empty_mem) = Some ((sample_target, None), w)"
    by (rule sample_deploy)
  then show ?thesis using namespace_guarded [OF sample_retry w] by blast
qed

theorem updates_carry_version_read_witness:
  "\<exists>w'. Deploy sample_kubernetes 0 background sample_request (cluster_of empty_mem) = Some ((sample_target, None), w') \<and>
     fresh_updates None (deploy_calls (cluster_of empty_mem) w')"
proof -
  obtain w where w: "Deploy sample_kubernetes 0 background sample_request (cluster_of empty_mem) = Some ((sample_target, None), w)"
    by (rule sample_deploy)
  then show ?thesis using updates_carry_version_read [OF sample_retry w] by blast
qed

theorem success_has_written_witness:
  "\<exists>w' p z. Deploy sample_kubernetes 0 background sample_request (cluster_of empty_mem) = Some ((sample_target, None), w') \<and>
     deploy_calls (cluster_of empty_mem) w' = p @ [z] \<and>
     wrote_ingress ''shiply-prj-shop'' (wanted_ingress sample_config sample_target (labelsForRequest sample_request)) z"
proof -
  obtain w where w: "Deploy sample_kubernetes 0 background sample_request (cluster_of empty_mem) = Some ((sample_target, None), w)"
    by (rule sample_deploy)
  have "dt_Namespace sample_target = ''shiply-prj-shop''" by (simp add: sample_target_def)
  then show ?thesis using w success_has_written [OF sample_retry w]
    by (metis (no_types, lifting) append.assoc mem_kubernetes_simps(1))
qed

lemma mem_prompt: "prompt_clock (mem_kubernetes cfg)"
  by (simp add: prompt_clock_def mem_clientset_def mem_api_def deletion_period_def Let_def)

lemmas sample_prompt = mem_prompt [of sample_config]


text \<open>A namespace that belongs to nobody the service knows.\<close>

definition foreign_mem :: "string mem" where
  "foreign_mem = empty_mem\<lparr>mm_Namespaces := [([], \<lparr>nm_Name = ''shiply-prj-shop'', nm_Labels = []\<rparr>)]\<rparr>"

theorem foreign_namespace_refused_witness:
  "\<exists>msg w'. Deploy sample_kubernetes 0 background sample_request (cluster_of foreign_mem) =
     Some ((sample_target, Some (WrapError ''ensure namespace: '' (OwnershipError msg))), w')"
proof -
  have "dt_Namespace sample_target = ''shiply-prj-shop''" by (simp add: sample_target_def)
  then have get: "oa_Get (cs_Namespaces (kc_clientset sample_kubernetes)) background [] (dt_Namespace sample_target)
      (cl_ext (cluster_of foreign_mem)) = (Inr \<lparr>nm_Name = ''shiply-prj-shop'', nm_Labels = []\<rparr>, foreign_mem)"
    by (simp add: cluster_of_def foreign_mem_def empty_mem_def mem_clientset_def mem_api_def mem_find_def Let_def)
  show ?thesis
    using foreign_namespace_refused [OF _ get, of sample_request 0]
    by (simp add: sample_targetForRequest label_at_def) blast
qed

end
