(* ===== verification/Orchestrator.thy ===== *)
theory Orchestrator
  imports Delivery Memory_Server
begin

text \<open>
  The consumer and the reconciler together: \<open>KubernetesClient\<close> as the deployment manager of the consumer
  (\<open>k8s_client.go\<close>). \<open>deployment_manager_laws\<close> is what the consumer may rely on, \<open>kubernetes_manager\<close>
  provides it, and what the consumer announces is traced back to calls of the API server.
\<close>

section \<open>The Kubernetes client as a deployment manager\<close>

text \<open>
  The world of \<open>WaitForRollout\<close>: \<open>status\<close> is the read of a deployment's status, which the model keeps apart
  from the objects the reconciler writes. The waits have enough fuel, by \<open>Deploy_ends\<close> and
  \<open>poll_ends\<close>; a call that does not return has no result, and the model leaves it open (\<open>the\<close>).
\<close>

definition kubernetes_rollout ::
  "('q, 'e) kubernetes_client \<Rightarrow> (ctx \<Rightarrow> string \<Rightarrow> string \<Rightarrow> 'e \<Rightarrow> (go_error + deployment_status) \<times> 'e) \<Rightarrow>
   ('e \<Rightarrow> bool) \<Rightarrow> ('q, 'e) cluster rollout_env" where
  "kubernetes_rollout k status choice =
     \<lparr>re_Get = (\<lambda>c ns n w. (fst (status c ns n (cl_ext w)), w\<lparr>cl_ext := snd (status c ns n (cl_ext w))\<rparr>)),
      re_Now = (\<lambda>w. kc_Now k (cl_ext w)), re_Sleep = (\<lambda>t w. w\<lparr>cl_ext := kc_Sleep k t (cl_ext w)\<rparr>),
      re_Prefer = (\<lambda>w. choice (cl_ext w))\<rparr>"

definition rollout_fuel :: "('q, 'e) kubernetes_client \<Rightarrow> ctx \<Rightarrow> ('q, 'e) cluster \<Rightarrow> nat" where
  "rollout_fuel k c w =
     (case ctx_deadline c of
        None \<Rightarrow> 0
      | Some dl \<Rightarrow> nat ((dl - kc_Now k (cl_ext w)) div poll_interval (kc_cfg k)) + 2)"

definition kubernetes_manager ::
  "('q, 'e) kubernetes_client \<Rightarrow> (ctx \<Rightarrow> string \<Rightarrow> string \<Rightarrow> 'e \<Rightarrow> (go_error + deployment_status) \<times> 'e) \<Rightarrow>
   ('e \<Rightarrow> bool) \<Rightarrow> ('q, 'e) cluster deployment_manager" where
  "kubernetes_manager k status choice =
     \<lparr>dm_Deploy = (\<lambda>c request w. the (Deploy k deletion_polls c request w)),
      dm_WaitForRollout = (\<lambda>c target w.
        the (WaitForRollout (kubernetes_rollout k status choice) (kc_cfg k) (rollout_fuel k c w) c target w)),
      dm_isKubernetesClient = True\<rparr>"

lemma kubernetes_Deploy:
  assumes "conflict_retry (kc_RetryOnConflict k)" "prompt_clock k"
  shows "dm_Deploy (kubernetes_manager k status choice) c request w = (r, w') \<longleftrightarrow>
     Deploy k deletion_polls c request w = Some (r, w')"
  using Deploy_ends [OF assms order_refl, of c request w] by (auto simp: kubernetes_manager_def)

lemma kubernetes_WaitForRollout:
  assumes "ctx_deadline c = Some dl"
  shows "dm_WaitForRollout (kubernetes_manager k status choice) c target w = (r, w') \<longleftrightarrow>
     WaitForRollout (kubernetes_rollout k status choice) (kc_cfg k) (rollout_fuel k c w) c target w = Some (r, w')"
proof -
  have "\<exists>x. WaitForRollout (kubernetes_rollout k status choice) (kc_cfg k) (rollout_fuel k c w) c target w = Some x"
    by (rule poll_ends [OF assms]) (simp add: rollout_fuel_def kubernetes_rollout_def assms)
  then show ?thesis by (auto simp: kubernetes_manager_def)
qed

section \<open>What the consumer relies on\<close>

lemma stage_run_deployed:
  assumes "stage_run c event request target t act" "Deployed r res \<in> set t"
  shows "r = request \<and> deploy_answer c request res"
  using assms
proof (cases rule: stage_run.cases)
  case (not_started x now)
  then show ?thesis using assms(2) by (auto simp: started_note_def follows_Cons_iff)
next
  case (retry err tg x now)
  then show ?thesis using assms(2) by (auto simp: started_note_def)
next
  case (failed err y now' u tg x now)
  then have "Deployed r res \<notin> set u" using finish_failure_no_deploy by (fastforce simp: filter_empty_conv)
  then show ?thesis using assms(2) failed by (auto simp: started_note_def)
next
  case (not_announced y now' tg u x now)
  then have "Deployed r res \<notin> set u" by (auto simp: deployed_note_def follows_Cons_iff)
  then show ?thesis using assms(2) not_announced by (auto simp: started_note_def)
next
  case (awaited tg u x now y now')
  then have "Deployed r res \<notin> set u" using await_run_no_deploy by (fastforce simp: filter_empty_conv)
  then show ?thesis using assms(2) awaited by (auto simp: started_note_def deployed_note_def)
qed

lemma message_run_deployed:
  assumes "message_run c body t act" "Deployed r res \<in> set t"
  shows "\<exists>event target. accepted c body = Some (event, r, target) \<and> deploy_answer c r res"
  using assms
proof (cases rule: message_run.cases)
  case (replay event request target d s u)
  then have "Deployed r res \<notin> set u" by (auto simp: replay_script_def follows_Cons_iff elim!: replay_run.cases)
  then show ?thesis using replay assms(2) by simp
next
  case (claimed event request target u s)
  then show ?thesis using stage_run_deployed assms(2) by fastforce
next
  case (no_ledger event request target)
  then show ?thesis using stage_run_deployed assms(2) by fastforce
qed (use assms(2) in auto)

text \<open>The contract of \<open>Deploy\<close> towards the consumer: no error means the objects of the request's target.\<close>

locale deployment_manager_laws =
  fixes cfg :: config and dm :: "'e deployment_manager"
  assumes deployed_target: "dm_Deploy dm x r e = ((tg, None), e') \<Longrightarrow> targetForRequest cfg r = Inr tg"
begin

lemma announced_target:
  assumes "dc_deployer c = dm" "dc_cfg c = cfg" "Deployed r (tg, None) \<in> set (handled c body w)"
  shows "\<exists>event. accepted c body = Some (event, r, tg)"
proof -
  obtain event target where a: "accepted c body = Some (event, r, target)" "deploy_answer c r (tg, None)"
    using message_run_deployed [OF handled_run assms(3)] by blast
  then have "targetForRequest cfg r = Inr tg" using deployed_target assms(1) by (auto simp: deploy_answer_def)
  then show ?thesis using a(1) assms(2) by (auto simp: accepted_def split: sum.splits if_splits)
qed

end

lemma kubernetes_manager_laws:
  assumes "conflict_retry (kc_RetryOnConflict k)" "prompt_clock k"
  shows "deployment_manager_laws (kc_cfg k) (kubernetes_manager k status choice)"
proof
  fix x r e tg e'
  assume "dm_Deploy (kubernetes_manager k status choice) x r e = ((tg, None), e')"
  then have "Deploy k deletion_polls x r e = Some ((tg, None), e')" by (simp add: kubernetes_Deploy [OF assms])
  then show "targetForRequest (kc_cfg k) r = Inr tg" using success_written_target [OF assms(1)] by blast
qed

interpretation kubernetes: deployment_manager_laws "kc_cfg (mem_kubernetes cfg)" "kubernetes_manager (mem_kubernetes cfg) status choice"
  for cfg status choice
  by (rule kubernetes_manager_laws [OF mem.conflicts mem_prompt])


text \<open>A consumer without a ledger on the server in memory, whose rollouts are complete at once.\<close>

definition complete_status :: deployment_status where
  "complete_status = \<lparr>ds_SpecReplicas = None, ds_Generation = 1, ds_ObservedGeneration = 1, ds_UpdatedReplicas = 1,
     ds_Replicas = 1, ds_AvailableReplicas = 1,
     ds_Conditions = [\<lparr>dcond_Type = ''Available'', dcond_Status = ''True'', dcond_Reason = [], dcond_Message = []\<rparr>]\<rparr>"

definition kube_consumer :: "(string, string mem) cluster deploy_consumer" where
  "kube_consumer = \<lparr>dc_cfg = sample_config, dc_ch = True, dc_pub = Some sample_publisher, dc_ledger = None,
     dc_deployer = kubernetes_manager sample_kubernetes (\<lambda>x ns n e. (Inr complete_status, e)) (\<lambda>e. True),
     dc_publish = Some (\<lambda>x ex rk ev e. (None, e)), dc_now = (\<lambda>w. mm_now (cl_ext w)), dc_ticks = (\<lambda>d e. 0)\<rparr>"

lemma kube_consumer_simps [simp]:
  "dc_cfg kube_consumer = sample_config" "dc_ledger kube_consumer = None"
  "dc_deployer kube_consumer = kubernetes_manager sample_kubernetes (\<lambda>x ns n e. (Inr complete_status, e)) (\<lambda>e. True)"
  "dc_publish kube_consumer = Some (\<lambda>x ex rk ev e. (None, e))" "renewals kube_consumer rn w = w"
  by (simp_all add: kube_consumer_def renewals_def split: option.split)

lemma kube_publish [simp]:
  "publishProgressEvent kube_consumer rn x ex rk ev w =
     (None, w\<lparr>w_trace := w_trace w @ [PublishedProgress x ex rk ev None]\<rparr>)"
  by (simp add: publishProgressEvent_def call_def)

lemma kube_accepted: "accepted kube_consumer sample_body = Some (sample_event, sample_request, sample_target)"
proof -
  have "dr_ImageTag sample_request = ''img''" by (simp add: sample_request_def)
  then show ?thesis
    by (simp add: accepted_def sample_unmarshal sample_deploy_request sample_targetForRequest sample_strings)
qed

lemma kube_deployed:
  "Deployed sample_request (sample_target, None) \<in> set (handled kube_consumer sample_body (world_at (cluster_of empty_mem)))"
proof -
  let ?w = "world_at (cluster_of empty_mem)" let ?dep = "''d1''"
  obtain x ex rk ev w1 where 1: "w1 = ?w\<lparr>w_trace := [PublishedProgress x ex rk ev None]\<rparr>"
    "run_stage kube_consumer sample_event sample_request sample_target ?w =
      (case call kube_consumer (Some ?dep) (Deployed sample_request)
          (dm_Deploy (dc_deployer kube_consumer) (timeout_ctx kube_consumer w1 (60 * second)) sample_request) w1 of
         ((_, Some err), w2) \<Rightarrow>
           if isRetriableDeployError err
           then ((actionNackRequeue, Some (WrapError ''deploy resources: '' err)), w2)
           else completeFailure kube_consumer (Some ?dep) sample_event sample_target err w2
       | ((tg, None), w2) \<Rightarrow>
           await_rollout kube_consumer (Some ?dep) sample_event tg
             (w2\<lparr>w_trace := w_trace w2 @ [PublishedProgress (timeout_ctx kube_consumer w1 (60 * second))
               (DeploymentExchange sample_config) (OrchestrationDeployedRoutingKey sample_config)
               (ProgressEvent (newOrchestrationDeployedEvent (dc_now kube_consumer (w_ext w2)) sample_event tg)) None]\<rparr>))"
    by (simp add: run_stage_def Let_def)
  obtain cw where d: "Deploy sample_kubernetes deletion_polls (timeout_ctx kube_consumer w1 (60 * second)) sample_request
      (cluster_of empty_mem) = Some ((sample_target, None), cw)"
    by (rule sample_deploy)
  then have "dm_Deploy (dc_deployer kube_consumer) (timeout_ctx kube_consumer w1 (60 * second)) sample_request (w_ext w1) =
      ((sample_target, None), cw)"
    by (simp add: kubernetes_manager_def 1(1))
  then obtain w3 where r: "run_stage kube_consumer sample_event sample_request sample_target ?w =
      await_rollout kube_consumer (Some ?dep) sample_event sample_target w3"
    "Deployed sample_request (sample_target, None) \<in> set (log w3)"
    using 1 by (simp add: call_def log_def)
  obtain act err w' where a: "await_rollout kube_consumer (Some ?dep) sample_event sample_target w3 = ((act, err), w')"
    by (metis surj_pair)
  then have "set (log w3) \<subseteq> set (log w')" using await_rollout_run [OF a] by auto
  moreover have "handleMessage kube_consumer sample_body ?w = ((act, err), w')"
    using r(1) a handleMessage_accepted [OF kube_accepted] by (simp add: claim_stage_def)
  ultimately show ?thesis using r(2) by (auto simp: handled_def)
qed


section \<open>A rollout that never becomes ready\<close>


text \<open>A deployment of which no pod ever starts, read through the Kubernetes client.\<close>

definition stuck_status :: deployment_status where
  "stuck_status = complete_status\<lparr>ds_UpdatedReplicas := 0, ds_AvailableReplicas := 0, ds_Conditions := []\<rparr>"

definition stuck_consumer :: "(string, string mem) cluster deploy_consumer" where
  "stuck_consumer = kube_consumer\<lparr>dc_deployer :=
     kubernetes_manager sample_kubernetes (\<lambda>x ns n e. (Inr stuck_status, e)) (\<lambda>e. True)\<rparr>"

lemma stuck_wait:
  "\<exists>w'. dm_WaitForRollout (dc_deployer stuck_consumer) (with_timeout t (15 * second)) target w =
     (Some (RolloutTimeoutError (dt_Namespace target) (dt_DeploymentName target)), w')"
proof -
  have dl: "ctx_deadline (with_timeout t (15 * second)) = Some (t + 15 * second)" by (simp add: with_timeout_def)
  obtain r w' where r: "dm_WaitForRollout (dc_deployer stuck_consumer) (with_timeout t (15 * second)) target w = (r, w')"
    by fastforce
  then have "WaitForRollout (kubernetes_rollout sample_kubernetes (\<lambda>x ns n e. (Inr stuck_status, e)) (\<lambda>e. True)) sample_config
      (rollout_fuel sample_kubernetes (with_timeout t (15 * second)) w) (with_timeout t (15 * second)) target w = Some (r, w')"
    by (simp add: stuck_consumer_def kubernetes_WaitForRollout [OF dl])
  from poll_answers [OF this]
  have "r = Some (RolloutTimeoutError (dt_Namespace target) (dt_DeploymentName target))"
    by (auto simp: kubernetes_rollout_def stuck_status_def complete_status_def deploymentRolloutComplete_def
        rolloutConditionError_def with_timeout_def split: option.splits)
  then show ?thesis using r by blast
qed


end
