(* ===== verification/Config_Props.thy ===== *)
theory Config_Props
  imports Config_Loading
begin

text \<open>
  What \<open>loadConfig\<close> guarantees for every environment, and that durations and retry schedules are read as
  they are written.
\<close>

section \<open>Retry schedules\<close>

fun comma_list :: "string list \<Rightarrow> string" where
  "comma_list [] = []"
| "comma_list [x] = x"
| "comma_list (x # y # zs) = x @ '','' @ comma_list (y # zs)"

lemma Split1_part: "sep \<notin> set x \<Longrightarrow> Split1 sep (x @ sep # s) = x # Split1 sep s"
  by (induction x) auto

lemma Split1_last: "sep \<notin> set x \<Longrightarrow> Split1 sep x = [x]"
  by (induction x) auto

lemma Split1_comma_list:
  "xs \<noteq> [] \<Longrightarrow> \<forall>x \<in> set xs. CHR '','' \<notin> set x \<Longrightarrow> Split1 (CHR '','') (comma_list xs) = xs"
  by (induction xs rule: comma_list.induct) (simp_all add: Split1_part Split1_last)

lemma set_comma_list: "c \<in> set (comma_list xs) \<Longrightarrow> c = CHR '','' \<or> (\<exists>x \<in> set xs. c \<in> set x)"
  by (induction xs rule: comma_list.induct) auto

lemma durations_loop_text:
  "\<forall>d \<in> set ds. written_duration d \<Longrightarrow>
   durations_loop fallback (map duration_text ds) out = out @ map (\<lambda>d. word_of_nat (duration_ns d)) ds"
  by (induction ds arbitrary: out) (auto simp: TrimSpace_duration ParseDuration_text dest!: ParseDuration_text(2))

text \<open>C23. A retry schedule written as durations with a comma between them is read as these durations, in order.\<close>

theorem schedule_reads_back:
  assumes "env ''RETRY_BACKOFF_SCHEDULE'' = comma_list (map duration_text ds)" "ds \<noteq> []"
    "\<forall>d \<in> set ds. written_duration d"
  shows "map sint (RetryBackoffs (loadConfig env)) = map (\<lambda>d. int (duration_ns d)) ds"
proof -
  let ?s = "comma_list (map duration_text ds)"
  have solid: "solid c \<and> c \<noteq> CHR '',''" if "d \<in> set ds" "c \<in> set (duration_text d)" for c d
    using duration_text_solid that assms(3) by blast
  moreover have "solid (CHR '','')" by (simp add: solid_def ascii_def byte_of_def is_space_def in_range_def)
  ultimately have trim: "TrimSpace ?s = ?s"
    by (intro TrimSpace_solid) (auto dest!: set_comma_list)
  have "duration_text d \<noteq> []" for d by (simp add: duration_text_def)
  then have ne: "?s \<noteq> []" using assms(2) by (cases "map duration_text ds" rule: comma_list.cases) auto
  have "Split1 (CHR '','') ?s = map duration_text ds"
    by (rule Split1_comma_list) (use assms(2) solid in auto)
  then have "RetryBackoffs (loadConfig env) = map (\<lambda>d. word_of_nat (duration_ns d)) ds"
    using assms(1,3) ne by (simp add: loadConfig_def envDurationsOrDefault_def trim durations_loop_text Let_def)
  moreover have "sint (word_of_nat (duration_ns d) :: int64) = int (duration_ns d)" if "d \<in> set ds" for d
    using sint_int64_of_int [of "int (duration_ns d)"] assms(3) that by (simp add: written_duration_def)
  ultimately show ?thesis by simp
qed

definition sample_schedule :: "(nat \<times> string) list" where
  "sample_schedule = [(9, ''s''), (2, ''m''), (1, ''h'')]"

lemma sample_schedule_props:
  "comma_list (map duration_text sample_schedule) = ''9s,2m,1h''" "sample_schedule \<noteq> []"
  "\<forall>d \<in> set sample_schedule. written_duration d"
  "map (\<lambda>d. int (duration_ns d)) sample_schedule = [9000000000, 120000000000, 3600000000000]"
  by (simp_all add: sample_schedule_def duration_text_def show_nat.simps written_duration_def units_def
      duration_ns_def unit_ns_def unitMap_def char_of_def bit_0)

theorem schedule_reads_back_witness:
  "map sint (RetryBackoffs (loadConfig (\<lambda>k. if k = ''RETRY_BACKOFF_SCHEDULE'' then ''9s,2m,1h'' else []))) =
     [9000000000, 120000000000, 3600000000000]"
  using schedule_reads_back [of "\<lambda>k. if k = ''RETRY_BACKOFF_SCHEDULE'' then ''9s,2m,1h'' else []" sample_schedule]
  by (simp add: sample_schedule_props)

section \<open>Every configuration that is loaded\<close>

definition good_backoffs :: "int64 list \<Rightarrow> bool" where
  "good_backoffs ds \<longleftrightarrow> ds \<noteq> [] \<and> (\<forall>d \<in> set ds. 0 < sint d)"

lemma durations_loop_good:
  assumes "good_backoffs fallback" "\<forall>d \<in> set out. 0 < sint d" "parts \<noteq> [] \<or> out \<noteq> []"
  shows "good_backoffs (durations_loop fallback parts out) \<and>
     length (durations_loop fallback parts out) \<le> max (length fallback) (length parts + length out)"
  using assms(2,3)
proof (induction parts arbitrary: out)
  case Nil
  then show ?case by (simp add: good_backoffs_def)
next
  case (Cons part parts)
  show ?case
  proof (cases "\<exists>d. ParseDuration (TrimSpace part) = Some d \<and> 0 < sint d")
    case True
    then obtain d where d: "ParseDuration (TrimSpace part) = Some d" "0 < sint d" by blast
    then have "durations_loop fallback (part # parts) out = durations_loop fallback parts (out @ [d])" by simp
    then show ?thesis using Cons.IH [of "out @ [d]"] Cons.prems(1) d(2) by (simp del: durations_loop.simps)
  next
    case False
    then have "durations_loop fallback (part # parts) out = fallback" by (auto simp: not_le split: option.split)
    then show ?thesis using assms(1) by (simp del: durations_loop.simps)
  qed
qed

lemma length_Split1: "length (Split1 sep s) \<le> Suc (length s)" "Split1 sep s \<noteq> []"
  by (induction s) (auto split: list.splits)

lemma length_TrimSpace: "length (TrimSpace s) \<le> length s"
proof -
  obtain us vs where "chunks s = us @ trim_by (is_space \<circ> fst) (chunks s) @ vs" by (rule trim_by_infix)
  then have "concat (map snd (chunks s)) = concat (map snd us) @ TrimSpace s @ concat (map snd vs)"
    by (metis TrimSpace_def concat_append map_append)
  then have "length s = length (concat (map snd us)) + (length (TrimSpace s) + length (concat (map snd vs)))"
    by (metis chunks_concat length_append)
  then show ?thesis by simp
qed

lemma envDurationsOrDefault_good:
  assumes "good_backoffs fallback"
  shows "good_backoffs (envDurationsOrDefault env key fallback)"
    "length (envDurationsOrDefault env key fallback) \<le> max (length fallback) (Suc (length (env key)))"
proof -
  let ?v = "TrimSpace (env key)"
  have "length (Split1 (CHR '','') ?v) \<le> Suc (length (env key))"
    using length_Split1(1) [of "CHR '',''" ?v] length_TrimSpace [of "env key"] by simp
  then show "good_backoffs (envDurationsOrDefault env key fallback)"
    "length (envDurationsOrDefault env key fallback) \<le> max (length fallback) (Suc (length (env key)))"
    using durations_loop_good [OF assms, of "[]" "Split1 (CHR '','') ?v"] length_Split1(2) [of "CHR '',''" ?v] assms
    by (auto simp: envDurationsOrDefault_def Let_def)
qed

lemma envDurationOrDefault_pos: "0 < sint fallback \<Longrightarrow> 0 < sint (envDurationOrDefault env key fallback)"
  by (simp add: envDurationOrDefault_def Let_def split: option.split)

lemma envOrDefault_nonempty: "fallback \<noteq> [] \<Longrightarrow> envOrDefault env key fallback \<noteq> []"
  by (simp add: envOrDefault_def Let_def)

text \<open>What the parts of the worker rely on in their configuration.\<close>

definition config_ok :: "config \<Rightarrow> bool" where
  "config_ok cfg \<longleftrightarrow>
     (\<forall>name \<in> {AppDeployQueue cfg, DLQ cfg, RetryQueuePrefix cfg, RabbitMQExchange cfg, DeploymentExchange cfg,
        BuildSucceededRoutingKey cfg, DeploySucceededRoutingKey cfg, DeployFailedRoutingKey cfg, LedgerSchema cfg,
        NamespacePrefix cfg, ImagePullSecretName cfg, IngressClassName cfg}. name \<noteq> []) \<and>
     good_backoffs (RetryBackoffs cfg) \<and>
     0 < sint (RolloutTimeout cfg) \<and> 0 < sint (RolloutPollInterval cfg) \<and>
     - 2147483648 \<le> sint (MaxAttempts cfg) \<and> sint (MaxAttempts cfg) < 2147483648"

lemma sint_int64_of_int32: "sint (int64_of_int32 x) = sint x"
  unfolding int64_of_int32_def by (simp add: sint_up_scast is_up)

lemma loaded_backoffs:
  "good_backoffs (RetryBackoffs (loadConfig env))"
  "length (RetryBackoffs (loadConfig env)) \<le> max 4 (Suc (length (env ''RETRY_BACKOFF_SCHEDULE'')))"
proof -
  have d: "good_backoffs default_backoffs" "length default_backoffs = 4"
    by (simp_all add: default_backoffs_def good_backoffs_def)
  have "RetryBackoffs (loadConfig env) = envDurationsOrDefault env ''RETRY_BACKOFF_SCHEDULE'' default_backoffs"
    by (simp add: loadConfig_def Let_def)
  then show "good_backoffs (RetryBackoffs (loadConfig env))"
    "length (RetryBackoffs (loadConfig env)) \<le> max 4 (Suc (length (env ''RETRY_BACKOFF_SCHEDULE'')))"
    using envDurationsOrDefault_good [OF d(1)] d(2) by simp_all
qed

lemma loaded_max_attempts: "sint (MaxAttempts (loadConfig env)) < 2147483648" "- 2147483648 \<le> sint (MaxAttempts (loadConfig env))"
  using sint_int32_bounds by (simp_all add: loadConfig_def sint_int64_of_int32 Let_def)

text \<open>C22. Whatever the environment holds, the configuration that is loaded has nonempty queue, exchange and
  object names, at least one backoff, and positive backoffs, rollout timeout and poll interval.\<close>

theorem loadConfig_ok: "config_ok (loadConfig env)"
  using loaded_backoffs [of env] loaded_max_attempts [of env]
  unfolding config_ok_def
  by (simp add: loadConfig_def Let_def envOrDefault_nonempty envDurationOrDefault_pos)

section \<open>The lease and the rollout timeout\<close>

lemma sint_word_of_int_wrap:
  assumes "0 \<le> i" "i < 2 ^ 64"
  shows "sint (word_of_int i :: int64) = (if i < 2 ^ 63 then i else i - 2 ^ 64)"
proof (cases "i < 2 ^ 63")
  case False
  have "(i + 2 ^ 63) mod 2 ^ 64 = (i - 2 ^ 63) mod 2 ^ 64"
    using mod_add_self2 [of "i - 2 ^ 63" "2 ^ 64 :: int"] by (simp add: algebra_simps)
  also have "\<dots> = i - 2 ^ 63" using False assms by (intro mod_pos_pos_trivial) simp_all
  finally show ?thesis
    using False by (simp add: sint_sbintrunc' signed_take_bit_eq_take_bit_shift take_bit_eq_mod add.commute)
qed (use sint_int64_of_int [of i] assms in simp)

text \<open>C24. A rollout timeout that is set is used as it is written, and unless a lease is set, the lease is two minutes
  longer; the sum wraps around: for a timeout within two minutes of the largest duration the lease is negative.\<close>

theorem lease_covers_rollout:
  assumes "env ''K8S_ROLLOUT_TIMEOUT'' = duration_text d" "written_duration d" "env ''STAGE_LEASE_DURATION'' = []"
  shows "sint (RolloutTimeout (loadConfig env)) = int (duration_ns d) \<and>
     sint (LeaseDuration (loadConfig env)) =
       (if int (duration_ns d) + 120000000000 < 2 ^ 63 then int (duration_ns d) + 120000000000
        else int (duration_ns d) + 120000000000 - 2 ^ 64)"
proof -
  have t: "envDurationOrDefault env ''K8S_ROLLOUT_TIMEOUT'' f = word_of_nat (duration_ns d)" for f
    using assms(1,2) by (rule envDurationOrDefault_text)
  have n: "duration_ns d < 2 ^ 63" using assms(2) by (simp add: written_duration_def)
  have "sint (RolloutTimeout (loadConfig env)) = int (duration_ns d)"
    using sint_int64_of_int [of "int (duration_ns d)"] n by (simp add: loadConfig_def t Let_def)
  moreover have "LeaseDuration (loadConfig env) = word_of_nat (duration_ns d) + go_seconds 120"
    using assms(3) by (simp add: loadConfig_def t Let_def envDurationOrDefault_def [of env "''STAGE_LEASE_DURATION''"])
  moreover have "word_of_nat (duration_ns d) + go_seconds 120 = (word_of_int (int (duration_ns d) + 120000000000) :: int64)"
    by simp
  ultimately show ?thesis
    using sint_word_of_int_wrap [of "int (duration_ns d) + 120000000000"] n by (simp only:) simp
qed

theorem lease_covers_rollout_witness:
  "sint (LeaseDuration (loadConfig (\<lambda>k. if k = ''K8S_ROLLOUT_TIMEOUT'' then ''2562047h'' else []))) = 9223369320000000000 \<and>
   sint (LeaseDuration (loadConfig (\<lambda>k. if k = ''K8S_ROLLOUT_TIMEOUT'' then ''9223372000s'' else []))) < 0"
  using lease_covers_rollout [of "\<lambda>k. if k = ''K8S_ROLLOUT_TIMEOUT'' then ''2562047h'' else []" "(2562047, ''h'')"]
    lease_covers_rollout [of "\<lambda>k. if k = ''K8S_ROLLOUT_TIMEOUT'' then ''9223372000s'' else []" "(9223372000, ''s'')"]
  by (simp add: duration_text_def show_nat.simps written_duration_def units_def duration_ns_def unit_ns_def
      unitMap_def char_of_def bit_0)

end
