(* ===== verification/Worker_Config.thy ===== *)
theory Worker_Config
  imports Orchestrator Config_Props
begin

text \<open>
  The worker as it is started: a consumer whose configuration was loaded from the environment. The
  hypotheses on the configuration that the consumer's theorems have are met by \<open>loadConfig\<close>.
\<close>

section \<open>The retries of a configured worker\<close>


text \<open>A consumer configured by the empty environment, whose deliveries fail once.\<close>

abbreviation default_config :: config where "default_config \<equiv> loadConfig (\<lambda>k. [])"

definition default_consumer :: "int deploy_consumer" where
  "default_consumer = (simple_consumer ClaimAcquired)\<lparr>dc_cfg := default_config\<rparr>"

lemma default_config_simps [simp]:
  "MaxAttempts default_config = 5" "DLQ default_config = ''shiply.app.deploy.dlq''"
  "RetryBackoffs default_config = default_backoffs" "RetryQueuePrefix default_config = ''shiply.app.deploy.retry''"
  by (simp_all add: loadConfig_def envInt32OrDefault_def envOrDefault_def envDurationsOrDefault_def Let_def
      int64_of_int32_def)

lemma default_retry_queue:
  "retry_index default_config 1 = 0" "retry_queue default_config 0 = ''shiply.app.deploy.retry.1''"
  by (simp_all add: retry_index_def retry_queue_def default_backoffs_def)

lemma default_consumer_simps [simp]:
  "dc_cfg default_consumer = default_config" "dc_pub default_consumer = Some sample_publisher"
  "dc_ledger default_consumer = Some (sample_ledger ClaimAcquired zero_record)" "dc_now default_consumer = (\<lambda>e. e)"
  "dc_publish default_consumer = Some (\<lambda>x ex rk ev e. (None, e))" "renewals default_consumer rn w = w"
  by (simp_all add: default_consumer_def sample_consumer_def renewals_def split: option.split)

lemma default_publish [simp]:
  "publish_copy default_consumer x q p w = (None, w\<lparr>w_trace := w_trace w @ [PublishedCopy q p None]\<rparr>)"
  "publishProgressEvent default_consumer rn x ex rk ev v =
     (None, v\<lparr>w_trace := w_trace v @ [PublishedProgress x ex rk ev None]\<rparr>)"
  by (simp_all add: publish_copy_def publishProgressEvent_def call_def sample_publisher_def rp_Publish_def
      rp_publish_def sample_channel_def)

lemma default_counted_copy: "counted_copy default_consumer simple_delivery sample_copy"
proof -
  let ?cause = "Some (ErrorString ''down'')"
  have "PublishedCopy ''shiply.app.deploy.retry.1'' (copy_of simple_delivery (dl_Headers sample_copy)) None
    \<in> set (drop (length (log (world_at 0))) (log (snd (scheduleRetry default_consumer simple_delivery ?cause True (world_at 0)))))"
    by (simp add: scheduleRetry_def Let_def emitRetrying_def sample_unmarshal releaseClaim_def sample_ledger_def
        call_def log_def retry_headers_def deployCloneHeaders_def sample_copy_def default_retry_queue)
  moreover have "''shiply.app.deploy.retry.1'' \<noteq> DLQ (dc_cfg default_consumer)" by simp
  ultimately show ?thesis
    unfolding counted_copy_def using sample_unmarshal sample_delivery_simps(2) by metis
qed


end
