(* ===== verification/Startup_Props.thy ===== *)
theory Startup_Props
  imports Startup Worker_Config
begin

text \<open>
  What the constructors guarantee: a failed start leaves nothing open, a consumer that was constructed
  holds exactly what it opened and has declared the queues its retries go to, and \<open>Close\<close> closes all.
\<close>

section \<open>Handles that are opened and closed\<close>

fun opens :: "startup_call \<Rightarrow> handle multiset" where
  "opens (Dialed url (Inr h)) = {#Conn h#}"
| "opens (ChannelOpened conn (Inr h)) = {#Chan h#}"
| "opens (DBOpened url (Inr h)) = {#DB h#}"
| "opens x = {#}"

fun closes :: "startup_call \<Rightarrow> handle multiset" where
  "closes (Closed h err) = {#h#}"
| "closes x = {#}"

definition opened :: "'e startup \<Rightarrow> handle multiset" where
  "opened w = sum_list (map opens (su_calls w))"

definition closed :: "'e startup \<Rightarrow> handle multiset" where
  "closed w = sum_list (map closes (su_calls w))"

text \<open>From \<open>w\<close> to \<open>w'\<close>, the handles \<open>H\<close> were opened and the handles \<open>K\<close> closed, and no call was forgotten.\<close>

definition moves :: "'e startup \<Rightarrow> 'e startup \<Rightarrow> handle multiset \<Rightarrow> handle multiset \<Rightarrow> bool" where
  "moves w w' H K \<longleftrightarrow> opened w' = opened w + H \<and> closed w' = closed w + K \<and> set (su_calls w) \<subseteq> set (su_calls w')"

lemma moves_refl: "moves w w {#} {#}"
  by (simp add: moves_def)

lemma moves_trans: "moves w w1 H K \<Longrightarrow> moves w1 w2 H' K' \<Longrightarrow> moves w w2 (H + H') (K + K')"
  by (auto simp: moves_def add.assoc)

lemma su_moves:
  assumes "su note f w = (r, w')"
  shows "moves w w' (opens (note r)) (closes (note r)) \<and> note r \<in> set (su_calls w')"
  using assms by (auto simp: su_def moves_def opened_def closed_def split: prod.splits)

lemma su_plain:
  assumes "su note f w = (r, w')" "opens (note r) = {#}" "closes (note r) = {#}"
  shows "moves w w' {#} {#}"
  using su_moves [OF assms(1)] assms(2,3) by simp

lemma close_moves: "moves w (close L h w) {#} {#h#}"
  using su_moves [of "Closed h" "dv_Close L h" w] by (cases "su (Closed h) (dv_Close L h) w") (simp add: close_def)

section \<open>The pieces\<close>

lemma declare_exchanges_moves:
  "declare_exchanges L ch xs w = (r, w') \<Longrightarrow> moves w w' {#} (if r = None then {#} else {#Chan ch#})"
proof (induction xs arbitrary: w)
  case (Cons x xs)
  obtain name kind where x: "x = (name, kind)" by fastforce
  obtain err w1 where 1: "su (ExchangeDeclared ch name kind) (dv_ExchangeDeclare L ch name kind) w = (err, w1)" by fastforce
  have m: "moves w w1 {#} {#}" using su_moves [OF 1] by simp
  show ?case
  proof (cases err)
    case None
    then show ?thesis using moves_trans [OF m Cons.IH [of w1]] Cons.prems 1 x by simp
  next
    case (Some e)
    then have r: "r = Some (WrapError (''declare exchange '' @ name @ '': '') e)" "w' = close L (Chan ch) w1"
      using Cons.prems 1 x by simp_all
    show ?thesis unfolding r(2) using moves_trans [OF m close_moves [of w1 L "Chan ch"]] r(1) by simp
  qed
qed (simp add: moves_refl)

lemma publisher_moves:
  assumes "NewRabbitPublisher L conn xs w = (r, w')"
  shows "case r of Inl err \<Rightarrow> (\<exists>H. moves w w' H H) | Inr ch \<Rightarrow> moves w w' {#Chan ch#} {#} \<and> ConfirmsEnabled ch None \<in> set (su_calls w')"
proof -
  obtain o1 w1 where 1: "su (ChannelOpened conn) (dv_Channel L conn) w = (o1, w1)" by fastforce
  show ?thesis
  proof (cases o1)
    case (Inl e)
    then show ?thesis using su_moves [OF 1] assms 1 by (auto simp: NewRabbitPublisher_def)
  next
    case (Inr ch)
    have m1: "moves w w1 {#Chan ch#} {#}" using su_moves [OF 1] Inr by simp
    obtain o2 w2 where 2: "declare_exchanges L ch xs w1 = (o2, w2)" by fastforce
    have m2: "moves w w2 {#Chan ch#} (if o2 = None then {#} else {#Chan ch#})"
      using moves_trans [OF m1 declare_exchanges_moves [OF 2]] by simp
    obtain o3 w3 where 3: "su (ConfirmsEnabled ch) (dv_Confirm L ch) w2 = (o3, w3)" by fastforce
    have m3: "moves w2 w3 {#} {#}" "ConfirmsEnabled ch o3 \<in> set (su_calls w3)" using su_moves [OF 3] by simp_all
    have m4: "moves w3 (snd (su (\<lambda>_. ReturnsNotified ch) (\<lambda>e. ((), e)) w3)) {#} {#}"
      using su_moves [of "\<lambda>_. ReturnsNotified ch" "\<lambda>e. ((), e)" w3]
      by (cases "su (\<lambda>_. ReturnsNotified ch) (\<lambda>e. ((), e)) w3") simp
    show ?thesis
    proof (cases o2)
      case (Some e)
      then show ?thesis using m2 assms 1 2 Inr by (auto simp: NewRabbitPublisher_def)
    next
      case None
      have m23: "moves w w3 {#Chan ch#} {#}" using moves_trans [OF m2 m3(1)] None by simp
      show ?thesis
      proof (cases o3)
        case (Some e)
        then show ?thesis using moves_trans [OF m23 close_moves [of w3 L "Chan ch"]] assms 1 2 3 Inr None
          by (auto simp: NewRabbitPublisher_def)
      next
        case n3: None
        have "ConfirmsEnabled ch None \<in> set (su_calls (snd (su (\<lambda>_. ReturnsNotified ch) (\<lambda>e. ((), e)) w3)))"
          using m3(2) m4 n3 by (auto simp: moves_def)
        then show ?thesis using moves_trans [OF m23 m4] assms 1 2 3 Inr None n3 by (auto simp: NewRabbitPublisher_def)
      qed
    qed
  qed
qed

lemma ledger_moves:
  assumes "NewPostgresStageLedger L url schema w = (r, w')"
  shows "case r of Inl err \<Rightarrow> (\<exists>H. moves w w' H H)
    | Inr l \<Rightarrow> moves w w' {#DB (lg_db l)#} {#} \<and> schemaPattern schema \<and> lg_table l = schema @ ''.stage_ledger''"
proof (cases "url = [] \<or> \<not> schemaPattern schema")
  case True
  then show ?thesis using assms moves_refl by (fastforce simp: NewPostgresStageLedger_def split: if_splits)
next
  case False
  obtain o1 w1 where 1: "su (DBOpened url) (dv_OpenDB L url) w = (o1, w1)" by fastforce
  show ?thesis
  proof (cases o1)
    case (Inl e)
    then show ?thesis using su_moves [OF 1] assms 1 False by (auto simp: NewPostgresStageLedger_def)
  next
    case (Inr db)
    have m1: "moves w w1 {#DB db#} {#}" using su_moves [OF 1] Inr by simp
    obtain o2 w2 where 2: "su (Pinged db) (dv_PingContext L db) w1 = (o2, w2)" by fastforce
    have m2: "moves w w2 {#DB db#} {#}" using moves_trans [OF m1, of w2 "{#}" "{#}"] su_moves [OF 2] by simp
    show ?thesis
      using m2 moves_trans [OF m2 close_moves [of w2 L "DB db"]] assms 1 2 Inr False
      by (cases o2) (auto simp: NewPostgresStageLedger_def)
  qed
qed

section \<open>The queues\<close>

definition queue_declared :: "nat \<Rightarrow> 'e startup \<Rightarrow> string \<Rightarrow> bool" where
  "queue_declared ch w q \<longleftrightarrow> (\<exists>args name. QueueDeclared ch q args (Inr name) \<in> set (su_calls w))"

lemma QueueDeclare_moves:
  assumes "QueueDeclare L ch q args w = (r, w')"
  shows "moves w w' {#} {#} \<and> (\<forall>name. r = Inr name \<longrightarrow> queue_declared ch w' q)"
  using su_moves [OF assms [unfolded QueueDeclare_def]] by (auto simp: queue_declared_def)

lemma declare_on_moves:
  assumes "declare_on L ch q args w = (r, w')"
  shows "moves w w' {#} {#} \<and> (r = None \<longrightarrow> queue_declared ch w' q)"
proof (cases "QueueDeclare L ch q args w")
  case (Pair a w1)
  then show ?thesis using QueueDeclare_moves [OF Pair] assms by (cases a) (auto simp: declare_on_def)
qed

lemma queue_declared_mono: "queue_declared ch w q \<Longrightarrow> moves w w' H K \<Longrightarrow> queue_declared ch w' q"
  by (auto simp: queue_declared_def moves_def)

text \<open>Declaring on a channel declares what the pure run of the loop lists.\<close>

definition declared_as :: "nat \<Rightarrow> go_error option \<times> 'e startup \<Rightarrow> 'e startup \<Rightarrow> string list \<Rightarrow> bool" where
  "declared_as ch r w qs \<longleftrightarrow> moves w (snd r) {#} {#} \<and> (fst r = None \<longrightarrow> (\<forall>q \<in> set qs. queue_declared ch (snd r) q))"

lemma declared_as_step: "moves w w1 {#} {#} \<Longrightarrow> declared_as ch r w1 qs \<Longrightarrow> declared_as ch r w qs"
  using moves_trans [of w w1 "{#}" "{#}" "snd r" "{#}" "{#}"] by (simp add: declared_as_def)

lemma declare_backoffs_as:
  assumes "\<forall>q \<in> set qs. queue_declared ch w q"
  shows "declared_as ch (declare_backoffs (declare_on L ch) cfg i ds w) w
     (snd (declare_backoffs (\<lambda>q args qs. (None, qs @ [q])) cfg i ds qs))"
  using assms
proof (induction ds arbitrary: i w qs)
  case Nil
  then show ?case by (simp add: declared_as_def moves_refl)
next
  case (Cons d ds)
  let ?q = "RetryQueuePrefix cfg @ ''.'' @ show_int (sint (i + 1))"
  obtain r w1 where 1: "declare_on L ch ?q (retry_queue_args cfg d) w = (r, w1)" by (metis surj_pair)
  note m = declare_on_moves [OF 1]
  show ?case
  proof (cases r)
    case (Some e)
    then show ?thesis using m by (simp add: declared_as_def 1 del: append_Cons)
  next
    case None
    have "\<forall>q \<in> set (qs @ [?q]). queue_declared ch w1 q"
      using m None Cons.prems queue_declared_mono [OF _ conjunct1 [OF m]] by auto
    from declared_as_step [OF conjunct1 [OF m] Cons.IH [OF this, of "i + 1"]] show ?thesis
      by (simp add: 1 None del: append_Cons)
  qed
qed

lemma topology_as: "declared_as ch (declareDeployRetryTopology (declare_on L ch) cfg w) w (declared_queues cfg)"
proof -
  obtain r w1 where 1: "declare_on L ch (DLQ cfg) Map.empty w = (r, w1)" by (metis surj_pair)
  note m = declare_on_moves [OF 1]
  show ?thesis
  proof (cases r)
    case (Some e)
    then show ?thesis using m by (simp add: declared_as_def declareDeployRetryTopology_def 1)
  next
    case None
    then have "declared_as ch (declare_backoffs (declare_on L ch) cfg 0 (RetryBackoffs cfg) w1) w1 (declared_queues cfg)"
      using declare_backoffs_as [of "[DLQ cfg]" ch w1] m by (simp add: declared_queues_def declareDeployRetryTopology_def)
    from declared_as_step [OF conjunct1 [OF m] this] show ?thesis
      by (simp add: declareDeployRetryTopology_def 1 None)
  qed
qed

lemma declare_queues_moves:
  assumes "declare_queues L ch cfg w = (r, w')"
  shows "moves w w' {#} {#} \<and> (r = None \<longrightarrow>
     (\<forall>q \<in> set (AppDeployQueue cfg # declared_queues cfg). queue_declared ch w' q) \<and> QosSet ch 1 None \<in> set (su_calls w'))"
proof -
  obtain o1 w1 where 1: "QueueDeclare L ch (AppDeployQueue cfg) Map.empty w = (o1, w1)" by fastforce
  note m1 = QueueDeclare_moves [OF 1]
  show ?thesis
  proof (cases o1)
    case (Inl e)
    then show ?thesis using m1 assms 1 by (auto simp: declare_queues_def)
  next
    case (Inr name)
    obtain o2 w2 where 2: "su (QueueBound ch name (BuildSucceededRoutingKey cfg) (RabbitMQExchange cfg))
        (dv_QueueBind L ch name (BuildSucceededRoutingKey cfg) (RabbitMQExchange cfg)) w1 = (o2, w2)" by fastforce
    have m2: "moves w1 w2 {#} {#}" using su_moves [OF 2] by simp
    obtain o3 w3 where 3: "declareDeployRetryTopology (declare_on L ch) cfg w2 = (o3, w3)" by (metis surj_pair)
    have m3: "moves w2 w3 {#} {#}" "o3 = None \<longrightarrow> (\<forall>q \<in> set (declared_queues cfg). queue_declared ch w3 q)"
      using topology_as [of ch L cfg w2] by (simp_all add: declared_as_def 3)
    obtain o4 w4 where 4: "su (QosSet ch 1) (dv_Qos L ch 1) w3 = (o4, w4)" by fastforce
    have m4: "moves w3 w4 {#} {#}" "QosSet ch 1 o4 \<in> set (su_calls w4)" using su_moves [OF 4] by simp_all
    have t12: "moves w w2 {#} {#}" using moves_trans [of w w1 "{#}" "{#}" w2 "{#}" "{#}"] m1 m2 by simp
    have t13: "moves w w3 {#} {#}" "moves w1 w4 {#} {#}"
      using moves_trans [OF t12 m3(1)] moves_trans [OF moves_trans [OF m2 m3(1)] m4(1)] by simp_all
    have t14: "moves w w4 {#} {#}" using moves_trans [OF t13(1) m4(1)] by simp
    have "w' \<in> {w2, w3, w4}" "r = None \<longrightarrow> o3 = None \<and> o4 = None \<and> w' = w4"
      using assms 1 2 3 4 Inr by (auto simp: declare_queues_def split: option.splits)
    moreover have "\<forall>q \<in> set (AppDeployQueue cfg # declared_queues cfg). queue_declared ch w4 q" if "o3 = None"
      using queue_declared_mono [OF _ t13(2)] queue_declared_mono [OF _ m4(1)] m1 m3(2) that Inr by auto
    ultimately show ?thesis using t12 t13(1) t14 m4(2) by auto
  qed
qed

section \<open>The consumer\<close>

definition consumer_holds :: "consumer_handles \<Rightarrow> handle multiset" where
  "consumer_holds c = {#Conn (ch_conn c), Chan (ch_ch c), Chan (ch_pub c)#} +
     (case ch_ledger c of None \<Rightarrow> {#} | Some l \<Rightarrow> {#DB (lg_db l)#})"

lemma Close_eq:
  "Close L c w =
     (let w1 = (case ch_ledger c of None \<Rightarrow> w | Some l \<Rightarrow> close L (DB (lg_db l)) w)
      in close L (Conn (ch_conn c)) (close L (Chan (ch_ch c)) (close L (Chan (ch_pub c)) w1)))"
  by (simp add: Close_def ledger_Close_def publisher_Close_def close_def Let_def split: option.split)

lemma Close_moves: "moves w (Close L c w) {#} (consumer_holds c)"
proof -
  define w1 where "w1 = (case ch_ledger c of None \<Rightarrow> w | Some l \<Rightarrow> close L (DB (lg_db l)) w)"
  have 1: "moves w w1 {#} (case ch_ledger c of None \<Rightarrow> {#} | Some l \<Rightarrow> {#DB (lg_db l)#})"
    by (simp add: w1_def moves_refl close_moves split: option.split)
  have "moves w (Close L c w) ({#} + {#} + {#} + {#}) ((case ch_ledger c of None \<Rightarrow> {#} | Some l \<Rightarrow> {#DB (lg_db l)#}) +
      {#Chan (ch_pub c)#} + {#Chan (ch_ch c)#} + {#Conn (ch_conn c)#})"
    unfolding Close_eq Let_def w1_def [symmetric]
    by (rule moves_trans [OF moves_trans [OF moves_trans [OF 1 close_moves] close_moves] close_moves])
  then show ?thesis by (simp add: consumer_holds_def add_mset_commute split: option.splits)
qed

lemma close_both_moves: "moves w (close_both L ch conn w) {#} {#Conn conn, Chan ch#}"
  using moves_trans [OF close_moves close_moves] by (fastforce simp: close_both_def add_mset_commute)


text \<open>What a constructor may return after it moved from \<open>w\<close> to \<open>w'\<close>.\<close>

definition constructed :: "config \<Rightarrow> 'e startup \<Rightarrow> go_error + consumer_handles \<Rightarrow> 'e startup \<Rightarrow> bool" where
  "constructed cfg w r w' \<longleftrightarrow>
     (case r of
        Inl err \<Rightarrow> (\<exists>H. moves w w' H H)
      | Inr c \<Rightarrow> moves w w' (consumer_holds c) {#} \<and> (\<exists>l. ch_ledger c = Some l \<and> schemaPattern (LedgerSchema cfg) \<and>
            lg_table l = LedgerSchema cfg @ ''.stage_ledger'') \<and>
          (\<forall>q \<in> set (AppDeployQueue cfg # declared_queues cfg). queue_declared (ch_ch c) w' q) \<and>
          QosSet (ch_ch c) 1 None \<in> set (su_calls w') \<and> ConfirmsEnabled (ch_pub c) None \<in> set (su_calls w'))"

lemma setup_failed:
  assumes "moves w v (add_mset (Chan ch) (add_mset (Conn conn) H)) H"
  shows "constructed cfg w (Inl e) (close_both L ch conn v)"
  using moves_trans [OF assms close_both_moves [of v L ch conn]] by (auto simp: constructed_def add_mset_commute)

text \<open>The last step, when the publisher is there: the ledger.\<close>

lemma ledger_step:
  assumes "NewPostgresStageLedger L (DatabaseURL cfg) (LedgerSchema cfg) w5 = (o6, w6)"
    and "moves w w5 {#Chan ch, Conn conn, Chan pub#} {#}"
    and "ConfirmsEnabled pub None \<in> set (su_calls w5)" "QosSet ch 1 None \<in> set (su_calls w5)"
    and "\<forall>q \<in> set (AppDeployQueue cfg # declared_queues cfg). queue_declared ch w5 q"
    and c: "c = \<lparr>ch_conn = conn, ch_ch = ch, ch_pub = pub, ch_ledger = None\<rparr>"
  shows "case o6 of Inl err \<Rightarrow> constructed cfg w (Inl e) (Close L c w6)
     | Inr l \<Rightarrow> constructed cfg w (Inr (c\<lparr>ch_ledger := Some l\<rparr>)) w6"
proof (cases o6)
  case (Inl err)
  then obtain H where "moves w5 w6 H H" using ledger_moves [OF assms(1)] by auto
  from moves_trans [OF moves_trans [OF assms(2) this] Close_moves [of w6 L c]] show ?thesis
    using Inl by (auto simp: constructed_def consumer_holds_def c add_mset_commute)
next
  case (Inr l)
  then have l: "moves w5 w6 {#DB (lg_db l)#} {#}" "schemaPattern (LedgerSchema cfg)"
    "lg_table l = LedgerSchema cfg @ ''.stage_ledger''" using ledger_moves [OF assms(1)] by simp_all
  have "\<forall>q \<in> set (AppDeployQueue cfg # declared_queues cfg). queue_declared ch w6 q"
    "QosSet ch 1 None \<in> set (su_calls w6)" "ConfirmsEnabled pub None \<in> set (su_calls w6)"
    using assms(3-5) queue_declared_mono [OF _ l(1)] l(1) by (auto simp: moves_def)
  then show ?thesis
    using moves_trans [OF assms(2) l(1)] l(2,3) Inr by (simp add: constructed_def consumer_holds_def c add_mset_commute)
qed

lemma setup_consumer_moves:
  assumes "setup_consumer L cfg conn ch w2 = (r, w')" "moves w w2 {#Chan ch, Conn conn#} {#}"
  shows "constructed cfg w r w'"
proof -
  obtain o3 w3 where 3: "su (ExchangeDeclared ch (RabbitMQExchange cfg) ''direct'')
      (dv_ExchangeDeclare L ch (RabbitMQExchange cfg) ''direct'') w2 = (o3, w3)" by fastforce
  obtain o4 w4 where 4: "declare_queues L ch cfg w3 = (o4, w4)" by fastforce
  obtain o5 w5 where 5: "NewRabbitPublisher L conn [(RabbitMQExchange cfg, ''direct''), (DeploymentExchange cfg, ''topic'')] w4 = (o5, w5)"
    by fastforce
  obtain o6 w6 where 6: "NewPostgresStageLedger L (DatabaseURL cfg) (LedgerSchema cfg) w5 = (o6, w6)" by fastforce
  note p4 = declare_queues_moves [OF 4]
  have m3: "moves w w3 {#Chan ch, Conn conn#} {#}"
    using moves_trans [OF assms(2), of w3 "{#}" "{#}"] su_moves [OF 3] by simp
  have m4: "moves w w4 {#Chan ch, Conn conn#} {#}" using moves_trans [OF m3 conjunct1 [OF p4]] by simp
  consider e where "o3 = Some e" | e where "o3 = None" "o4 = Some e" | e where "o3 = None" "o4 = None" "o5 = Inl e"
    | pub where "o3 = None" "o4 = None" "o5 = Inr pub"
    by (cases o3; cases o4; cases o5) auto
  then show ?thesis
  proof cases
    case 1
    then show ?thesis using setup_failed [OF m3] assms(1) 3 by (auto simp: setup_consumer_def)
  next
    case 2
    then show ?thesis using setup_failed [OF m4] assms(1) 3 4 by (auto simp: setup_consumer_def)
  next
    case c: 3
    then obtain H where "moves w4 w5 H H" using publisher_moves [OF 5] by auto
    from moves_trans [OF m4 this] show ?thesis
      using setup_failed [of w w5 ch conn H] c assms(1) 3 4 5 by (auto simp: setup_consumer_def)
  next
    case c: 4
    have p: "moves w4 w5 {#Chan pub#} {#}" "ConfirmsEnabled pub None \<in> set (su_calls w5)"
      using publisher_moves [OF 5] c(3) by simp_all
    have m5: "moves w w5 {#Chan ch, Conn conn, Chan pub#} {#}" using moves_trans [OF m4 p(1)] by (simp add: add_mset_commute)
    have "\<forall>q \<in> set (AppDeployQueue cfg # declared_queues cfg). queue_declared ch w5 q" "QosSet ch 1 None \<in> set (su_calls w5)"
      using p4 c(2) queue_declared_mono [OF _ p(1)] p(1) by (auto simp: moves_def)
    note s = ledger_step [OF 6 m5 p(2) this(2,1) refl]
    show ?thesis
      using s assms(1) 3 4 5 6 c by (cases o6) (auto simp: setup_consumer_def)
  qed
qed

lemma NewDeployConsumer_constructed:
  assumes "NewDeployConsumer L cfg w = (r, w')"
  shows "constructed cfg w r w'"
proof -
  obtain o1 w1 where 1: "su (Dialed (RabbitMQURL cfg)) (dv_Dial L (RabbitMQURL cfg)) w = (o1, w1)" by fastforce
  show ?thesis
  proof (cases o1)
    case (Inl e)
    then show ?thesis using su_moves [OF 1] assms 1 by (auto simp: NewDeployConsumer_def constructed_def)
  next
    case c1: (Inr conn)
    obtain o2 w2 where 2: "su (ChannelOpened conn) (dv_Channel L conn) w1 = (o2, w2)" by fastforce
    have m: "moves w w2 (add_mset (Conn conn) (opens (ChannelOpened conn o2))) {#}"
      using moves_trans [OF conjunct1 [OF su_moves [OF 1]] conjunct1 [OF su_moves [OF 2]]] c1 by simp
    show ?thesis
    proof (cases o2)
      case (Inl e)
      then show ?thesis
        using moves_trans [OF m close_moves [of w2 L "Conn conn"]] assms 1 2 c1
        by (auto simp: NewDeployConsumer_def constructed_def)
    next
      case (Inr ch)
      then show ?thesis
        using setup_consumer_moves [of L cfg conn ch w2 r w' w] m assms 1 2 c1
        by (simp add: NewDeployConsumer_def add_mset_commute)
    qed
  qed
qed

section \<open>Properties\<close>

text \<open>C20. Starting the worker leaks nothing: when the construction of the consumer fails, each connection, channel
  and database it opened has been closed, and when it succeeds, the consumer holds exactly what was
  opened and \<open>Close\<close> closes all of it.\<close>

theorem construction_leaks_nothing:
  "case NewDeployConsumer L cfg w of
     (Inl err, w') \<Rightarrow> opened w' - opened w = closed w' - closed w
   | (Inr c, w') \<Rightarrow> opened w' - opened w = consumer_holds c \<and> closed w' = closed w \<and>
       opened (Close L c w') - opened w = closed (Close L c w') - closed w"
proof -
  obtain r w' where r: "NewDeployConsumer L cfg w = (r, w')" by fastforce
  show ?thesis
    using NewDeployConsumer_constructed [OF r] Close_moves [of w' L]
    by (cases r) (auto simp: r constructed_def moves_def)
qed

text \<open>C21. A worker that was started from the environment has declared, on the channel it consumes from, its work queue
  and every queue that a copy of a message with a counted attempt goes to; it takes one message at
  a time, its publisher has confirms, and the table name in its SQL is made of letters of the pattern.\<close>

theorem started_worker:
  assumes "main_start L g env w = (Inr (kube, h), w')" "dc_cfg c = loadConfig env"
    "int (length (env ''RETRY_BACKOFF_SCHEDULE'')) < 2 ^ 62"
  shows "queue_declared (ch_ch h) w' (AppDeployQueue (loadConfig env)) \<and>
     QosSet (ch_ch h) 1 None \<in> set (su_calls w') \<and> ConfirmsEnabled (ch_pub h) None \<in> set (su_calls w') \<and>
     (\<exists>l. ch_ledger h = Some l \<and> list_all (\<lambda>x. schema_letter x \<or> is_digit x \<or> x = CHR ''.'') (lg_table l)) \<and>
     (\<forall>msg w q p r. PublishedCopy q p r \<in> set (delivered c msg w) \<longrightarrow> 0 \<le> attempts msg \<longrightarrow>
        attempts msg < 9223372036854775807 \<longrightarrow> queue_declared (ch_ch h) w' q)"
proof -
  have "NewDeployConsumer L (loadConfig env) w = (Inr h, w')"
    using assms(1) by (auto simp: main_start_def Let_def split: sum.splits prod.splits)
  then have k: "constructed (loadConfig env) w (Inr h) w'" by (rule NewDeployConsumer_constructed)
  then obtain l where l: "ch_ledger h = Some l" "schemaPattern (LedgerSchema (loadConfig env))"
    "lg_table l = LedgerSchema (loadConfig env) @ ''.stage_ledger''" by (auto simp: constructed_def)
  then have "list_all (\<lambda>x. schema_letter x \<or> is_digit x \<or> x = CHR ''.'') (lg_table l)"
    by (auto simp: schemaPattern_def list_all_iff schema_letter_def in_range_def byte_of_def split: list.splits)
  moreover have "int (length (RetryBackoffs (dc_cfg c))) < 9223372036854775807" "RetryBackoffs (dc_cfg c) \<noteq> []"
    using loaded_backoffs [of env] assms(2,3) by (simp_all add: good_backoffs_def)
  then have "queue_declared (ch_ch h) w' q"
    if "PublishedCopy q p r \<in> set (delivered c msg w)" "0 \<le> attempts msg" "attempts msg < 9223372036854775807" for msg w q p r
    using copies_declared [OF that(1)] that(2,3) k assms(2) by (auto simp: constructed_def)
  ultimately show ?thesis using k l(1) by (auto simp: constructed_def)
qed

text \<open>A start at which nothing fails.\<close>

definition happy_drivers :: "unit drivers" where
  "happy_drivers = \<lparr>dv_Dial = (\<lambda>url e. (Inr 1, e)), dv_Channel = (\<lambda>conn e. (Inr 2, e)),
     dv_ExchangeDeclare = (\<lambda>ch n k e. (None, e)), dv_QueueDeclare = (\<lambda>ch q args e. (Inr q, e)),
     dv_QueueBind = (\<lambda>ch q k x e. (None, e)), dv_Qos = (\<lambda>ch n e. (None, e)), dv_Confirm = (\<lambda>ch e. (None, e)),
     dv_OpenDB = (\<lambda>url e. (Inr 3, e)), dv_PingContext = (\<lambda>db e. (None, e)), dv_Close = (\<lambda>h e. (None, e)),
     dv_Quote = (\<lambda>s. s)\<rparr>"

definition happy_client_go :: "(unit, unit) client_go" where
  "happy_client_go = \<lparr>cg_InClusterConfig = Inr \<lparr>rs_source = (), rs_QPS = 0, rs_Burst = 0\<rparr>, cg_HomeDir = [],
     cg_BuildConfigFromFlags = (\<lambda>path. Inl (ErrorString ''no file'')), cg_NewForConfig = (\<lambda>rest. Inr ())\<rparr>"

abbreviation database_env :: environment where
  "database_env \<equiv> \<lambda>k. if k = ''DATABASE_URL'' then ''db'' else []"

lemma database_config:
  "DatabaseURL (loadConfig database_env) = ''db''" "LedgerSchema (loadConfig database_env) = ''orchestration_service''"
  by (simp_all add: loadConfig_def Let_def envOrDefault_def TrimSpace_solid solid_def ascii_def byte_of_def is_space_def
      in_range_def)

lemma happy_simps [simp]:
  "dv_Dial happy_drivers url e = (Inr 1, e)" "dv_Channel happy_drivers conn e = (Inr 2, e)"
  "dv_ExchangeDeclare happy_drivers ch n k e = (None, e)" "dv_QueueDeclare happy_drivers ch q args e = (Inr q, e)"
  "dv_QueueBind happy_drivers ch q k x e = (None, e)" "dv_Qos happy_drivers ch m e = (None, e)"
  "dv_Confirm happy_drivers ch e = (None, e)" "dv_OpenDB happy_drivers url e = (Inr 3, e)"
  "dv_PingContext happy_drivers db e = (None, e)"
  by (simp_all add: happy_drivers_def)

lemma happy_declare_on:
  "declare_on happy_drivers ch q args w = (None, w\<lparr>su_calls := su_calls w @ [QueueDeclared ch q args (Inr q)]\<rparr>)"
  by (simp add: declare_on_def QueueDeclare_def su_def)

lemma happy_backoffs: "fst (declare_backoffs (declare_on happy_drivers ch) cfg i ds w) = None"
  by (induction ds arbitrary: i w) (simp_all add: happy_declare_on)

lemma happy_queues: "fst (declare_queues happy_drivers ch cfg w) = None"
proof -
  define v' where "v' v = snd (declareDeployRetryTopology (declare_on happy_drivers ch) cfg v)" for v
  have "declareDeployRetryTopology (declare_on happy_drivers ch) cfg v = (None, v' v)" for v
    by (simp add: v'_def prod_eq_iff) (simp add: declareDeployRetryTopology_def happy_declare_on happy_backoffs)
  then show ?thesis by (simp add: declare_queues_def QueueDeclare_def su_def)
qed

lemma happy_start:
  "\<exists>h w'. main_start happy_drivers happy_client_go database_env \<lparr>su_ext = (), su_calls = []\<rparr> =
     (Inr ((loadConfig database_env, ()), h), w') \<and> ch_ch h = 2 \<and> ch_pub h = 2"
proof -
  define q where "q ch cfg v = snd (declare_queues happy_drivers ch cfg v)" for ch cfg v
  have q: "declare_queues happy_drivers ch cfg v = (None, q ch cfg v)" for ch cfg v
    by (simp add: q_def prod_eq_iff happy_queues)
  have "schemaPattern ''orchestration_service''"
    by (simp add: schemaPattern_def schema_letter_def in_range_def byte_of_def)
  then show ?thesis
    by (simp add: main_start_def NewKubernetesClient_def kubeRESTConfig_def happy_client_go_def NewDeployConsumer_def
        setup_consumer_def q NewRabbitPublisher_def NewPostgresStageLedger_def database_config su_def Let_def)
qed

lemma database_queue: "AppDeployQueue (loadConfig database_env) = ''shiply.app.deploy''"
  by (simp add: loadConfig_def Let_def envOrDefault_def)

definition database_consumer :: "int deploy_consumer" where
  "database_consumer = default_consumer\<lparr>dc_cfg := loadConfig database_env\<rparr>"

lemma database_consumer_cfg: "dc_cfg database_consumer = loadConfig database_env"
  by (simp add: database_consumer_def)

theorem started_worker_witness:
  "\<exists>w' :: unit startup. queue_declared 2 w' ''shiply.app.deploy'' \<and> QosSet 2 1 None \<in> set (su_calls w') \<and>
     ConfirmsEnabled 2 None \<in> set (su_calls w')"
proof -
  obtain h w' where m: "main_start happy_drivers happy_client_go database_env \<lparr>su_ext = (), su_calls = []\<rparr> =
     (Inr ((loadConfig database_env, ()), h), w')" and h: "ch_ch h = 2" "ch_pub h = 2" using happy_start by blast
  have "int (length (database_env ''RETRY_BACKOFF_SCHEDULE'')) < 2 ^ 62" by simp
  from started_worker [OF m database_consumer_cfg this]
  have "queue_declared 2 w' ''shiply.app.deploy''" "QosSet 2 1 None \<in> set (su_calls w')"
    "ConfirmsEnabled 2 None \<in> set (su_calls w')"
    unfolding h database_queue by blast+
  then show ?thesis by blast
qed

end
