(* ===== verification/Process.thy ===== *)
theory Process
  imports Startup_Props
begin

text \<open>
  The process of \<open>main\<close> after its start: the goroutine of the consumer, the goroutine of the HTTP server and
  the main goroutine, which waits for a signal, shuts the server down and closes the consumer in a deferred
  call. They run side by side, so the process is a step relation. A fatal log ends it at once, without
  the deferred call.
\<close>

section \<open>State and steps\<close>

datatype exit_status = Status nat | Killed

text \<open>
  Where the main goroutine is: before \<open>signal.Notify\<close>, at the receive from \<open>stop\<close>, in \<open>Shutdown\<close>, in the
  deferred \<open>Close\<close> with the handles that are left, or the process is over.
\<close>

datatype phase = Launched | Waiting | Draining | Closing "handle list" | Exited exit_status

record 'e process =
  ps_phase :: phase
  ps_startup :: "'e startup"
  ps_server :: bool
  ps_log :: "string list"
  ps_served :: "(string \<times> nat \<times> string) list"

definition ErrServerClosed :: go_error where
  "ErrServerClosed = ErrorString ''http: Server closed''"

definition running :: "'e process \<Rightarrow> bool" where
  "running s \<longleftrightarrow> (case ps_phase s of Exited x \<Rightarrow> False | _ \<Rightarrow> True)"

text \<open>\<open>log.Fatalf\<close>.\<close>

definition fatal :: "string \<Rightarrow> 'e process \<Rightarrow> 'e process" where
  "fatal line s = s\<lparr>ps_phase := Exited (Status 1), ps_log := ps_log s @ [line]\<rparr>"

text \<open>The handles in the order in which \<open>Close\<close> closes them.\<close>

definition close_order :: "consumer_handles \<Rightarrow> handle list" where
  "close_order h = (case ch_ledger h of None \<Rightarrow> [] | Some l \<Rightarrow> [DB (lg_db l)]) @
     [Chan (ch_pub h), Chan (ch_ch h), Conn (ch_conn h)]"

text \<open>The goroutine of the consumer returns, and with it the process ends.\<close>

definition consumer_line :: "go_error \<Rightarrow> string" where
  "consumer_line err = ''deploy consumer stopped: '' @ error_text err"

text \<open>The goroutine of the server: what it does with the error that \<open>ListenAndServe\<close> returns.\<close>

definition server_returns :: "go_error option \<Rightarrow> 'e process \<Rightarrow> 'e process" where
  "server_returns r s =
     (case r of
        None \<Rightarrow> s\<lparr>ps_server := False\<rparr>
      | Some err \<Rightarrow>
          if err \<noteq> ErrServerClosed then fatal (''http server stopped: '' @ error_text err) s else s\<lparr>ps_server := False\<rparr>)"

text \<open>
  \<open>consuming\<close>: the consumer's own use of its connection and database, which opens and closes nothing.
  A consumer's run may start in any world \<open>v\<close>.
\<close>

inductive process_step ::
  "'e drivers \<Rightarrow> 'w deploy_consumer \<Rightarrow> (string \<Rightarrow> go_error + 'w delivery list) \<Rightarrow> consumer_handles \<Rightarrow>
   'e process \<Rightarrow> 'e process \<Rightarrow> bool"
  for L c ch_Consume h where
  notify: "ps_phase s = Launched \<Longrightarrow> process_step L c ch_Consume h s
     (s\<lparr>ps_phase := Waiting, ps_log := ps_log s @ [''orchestration worker listening on :'' @ HTTPPort (dc_cfg c) @
        '' and consuming '' @ AppDeployQueue (dc_cfg c)]\<rparr>)"
| killed: "ps_phase s = Launched \<Longrightarrow> process_step L c ch_Consume h s (s\<lparr>ps_phase := Exited Killed\<rparr>)"
| signal: "ps_phase s = Waiting \<Longrightarrow> process_step L c ch_Consume h s (s\<lparr>ps_phase := Draining\<rparr>)"
| shut_down: "ps_phase s = Draining \<Longrightarrow>
     process_step L c ch_Consume h s (s\<lparr>ps_phase := Closing (close_order h)\<rparr>)"
| close_next: "ps_phase s = Closing (x # xs) \<Longrightarrow> process_step L c ch_Consume h s
     (s\<lparr>ps_phase := Closing xs, ps_startup := close L x (ps_startup s)\<rparr>)"
| main_returns: "ps_phase s = Closing [] \<Longrightarrow> process_step L c ch_Consume h s (s\<lparr>ps_phase := Exited (Status 0)\<rparr>)"
| consumer_returns: "running s \<Longrightarrow> Start c ch_Consume v = (err, v') \<Longrightarrow>
     process_step L c ch_Consume h s (fatal (consumer_line err) s)"
| server: "running s \<Longrightarrow> ps_server s \<Longrightarrow> process_step L c ch_Consume h s (server_returns r s)"
| request: "running s \<Longrightarrow> process_step L c ch_Consume h s
     (s\<lparr>ps_served := ps_served s @ [(path, health_handler path)]\<rparr>)"
| consuming: "running s \<Longrightarrow> process_step L c ch_Consume h s (s\<lparr>ps_startup := (ps_startup s)\<lparr>su_ext := e\<rparr>\<rparr>)"

text \<open>The process when \<open>main_start\<close> is done; a start that fails is fatal.\<close>

definition launched :: "(string + 'k \<times> consumer_handles) \<times> 'e startup \<Rightarrow> 'e process" where
  "launched r =
     (case r of
        (Inl line, w) \<Rightarrow> \<lparr>ps_phase = Exited (Status 1), ps_startup = w, ps_server = False, ps_log = [line], ps_served = []\<rparr>
      | (Inr _, w) \<Rightarrow> \<lparr>ps_phase = Launched, ps_startup = w, ps_server = True, ps_log = [], ps_served = []\<rparr>)"

lemma running_iff [simp]: "running s \<longleftrightarrow> (\<forall>x. ps_phase s \<noteq> Exited x)"
  by (simp add: running_def split: phase.split)

inductive_cases process_stepE: "process_step L c ch_Consume h s s'"

section \<open>The handles while the process runs\<close>

lemma close_order_holds: "mset (close_order h) = consumer_holds h"
  by (simp add: close_order_def consumer_holds_def add_mset_commute split: option.split)

text \<open>The deferred call, one handle after the other, is \<open>main_stop\<close>.\<close>

lemma main_stop_fold: "main_stop L h w = fold (close L) (close_order h) w"
  by (simp add: main_stop_def Close_eq close_order_def Let_def split: option.split)

text \<open>How far the process has come with closing its handles, since it was launched in \<open>w\<close>.\<close>

definition closed_so_far :: "'e startup \<Rightarrow> 'e process \<Rightarrow> handle list \<Rightarrow> bool" where
  "closed_so_far w s hs \<longleftrightarrow> opened (ps_startup s) = opened w \<and> closed (ps_startup s) = closed w + mset hs"

definition process_inv :: "consumer_handles \<Rightarrow> 'e startup \<Rightarrow> 'e process \<Rightarrow> bool" where
  "process_inv h w s \<longleftrightarrow>
     (case ps_phase s of
        Closing hs \<Rightarrow> (\<exists>n. hs = drop n (close_order h) \<and> closed_so_far w s (take n (close_order h)))
      | Exited (Status 0) \<Rightarrow> closed_so_far w s (close_order h)
      | Exited (Status _) \<Rightarrow> (\<exists>n. closed_so_far w s (take n (close_order h)))
      | _ \<Rightarrow> closed_so_far w s [])"

lemma closed_so_far_close:
  assumes "closed_so_far w s hs"
  shows "closed_so_far w (s\<lparr>ps_phase := p, ps_startup := close L x (ps_startup s)\<rparr>) (hs @ [x])"
  using assms close_moves [of "ps_startup s" L x] by (simp add: closed_so_far_def moves_def)

lemma closed_so_far_cong:
  "su_calls (ps_startup s') = su_calls (ps_startup s) \<Longrightarrow> closed_so_far w s' hs = closed_so_far w s hs"
  by (simp add: closed_so_far_def opened_def closed_def)

lemma process_inv_running: "process_inv h w s \<Longrightarrow> running s \<Longrightarrow> \<exists>n. closed_so_far w s (take n (close_order h))"
  by (auto simp: process_inv_def split: phase.splits intro: exI [of _ 0])

lemma process_inv_fatal: "process_inv h w s \<Longrightarrow> running s \<Longrightarrow> process_inv h w (fatal line s)"
  using process_inv_running [of h w s] closed_so_far_cong [of "fatal line s" s w]
  by (auto simp: process_inv_def fatal_def)

lemma process_inv_cong:
  "ps_phase s' = ps_phase s \<Longrightarrow> su_calls (ps_startup s') = su_calls (ps_startup s) \<Longrightarrow>
   process_inv h w s \<Longrightarrow> process_inv h w s'"
  using closed_so_far_cong [of s' s w]
  by (simp add: process_inv_def split: phase.splits exit_status.splits nat.splits)

lemma closed_so_far_update [simp]:
  "closed_so_far w (s\<lparr>ps_phase := p\<rparr>) hs = closed_so_far w s hs"
  "closed_so_far w (s\<lparr>ps_phase := p, ps_log := l\<rparr>) hs = closed_so_far w s hs"
  by (rule closed_so_far_cong, simp)+

lemma take_drop_next:
  assumes "x # xs = drop n ys"
  shows "take (Suc n) ys = take n ys @ [x]" "xs = drop (Suc n) ys"
proof -
  have "n < length ys" using assms by (metis drop_eq_Nil linorder_not_le list.simps(3))
  then show "take (Suc n) ys = take n ys @ [x]" "xs = drop (Suc n) ys"
    using Cons_nth_drop_Suc [of n ys] by (simp_all add: take_Suc_conv_app_nth assms [symmetric])
qed

lemma process_inv_close:
  assumes "process_inv h w s" "ps_phase s = Closing (x # xs)"
  shows "process_inv h w (s\<lparr>ps_phase := Closing xs, ps_startup := close L x (ps_startup s)\<rparr>)"
proof -
  obtain n where n: "x # xs = drop n (close_order h)" "closed_so_far w s (take n (close_order h))"
    using assms by (auto simp: process_inv_def)
  show ?thesis
    using closed_so_far_close [OF n(2), where p = "Closing xs" and L = L and x = x] take_drop_next [OF n(1)]
    by (auto simp: process_inv_def intro!: exI [of _ "Suc n"])
qed

lemma process_inv_step:
  assumes "process_step L c ch_Consume h s s'" "process_inv h w s"
  shows "process_inv h w s'"
  using assms(1)
proof cases
  case (close_next x xs)
  show ?thesis unfolding close_next(1) by (rule process_inv_close [OF assms(2) close_next(2)])
next
  case main_returns
  have "closed_so_far w s (close_order h)" using assms(2) main_returns(2) by (auto simp: process_inv_def)
  then show ?thesis by (simp add: process_inv_def main_returns(1))
next
  case (consumer_returns v err v')
  show ?thesis unfolding consumer_returns(1) by (rule process_inv_fatal [OF assms(2) consumer_returns(2)])
next
  case (server r)
  have "process_inv h w (s\<lparr>ps_server := False\<rparr>)" by (rule process_inv_cong [OF _ _ assms(2)]) simp_all
  then show ?thesis unfolding server(1) server_returns_def
    using process_inv_fatal [OF assms(2) server(2)] by (simp split: option.split)
next
  case (request path)
  show ?thesis by (rule process_inv_cong [OF _ _ assms(2)]) (simp_all add: request(1))
next
  case (consuming e)
  show ?thesis by (rule process_inv_cong [OF _ _ assms(2)]) (simp_all add: consuming(1))
next
  case shut_down
  then show ?thesis using assms(2) by (auto simp: process_inv_def intro!: exI [of _ 0])
next
  case notify
  then show ?thesis using assms(2) by (simp add: process_inv_def)
next
  case killed
  then show ?thesis using assms(2) by (auto simp: process_inv_def intro!: exI [of _ 0])
next
  case signal
  then show ?thesis using assms(2) by (simp add: process_inv_def)
qed

lemma process_inv_reachable:
  assumes "(process_step L c ch_Consume h)\<^sup>*\<^sup>* s0 s" "process_inv h w s0"
  shows "process_inv h w s"
  using assms by (induction rule: rtranclp_induct) (auto intro: process_inv_step)

lemma launched_inv: "process_inv h w (launched (Inr (k, h), w))"
  by (simp add: launched_def process_inv_def closed_so_far_def)

text \<open>What was served, and the last line of the log when the process ends with status 1.\<close>

definition fatal_line :: "string \<Rightarrow> bool" where
  "fatal_line line \<longleftrightarrow> (\<exists>err. line = consumer_line err \<or> err \<noteq> ErrServerClosed \<and> line = ''http server stopped: '' @ error_text err)"

definition log_inv :: "'e process \<Rightarrow> bool" where
  "log_inv s \<longleftrightarrow> (\<forall>(path, answer) \<in> set (ps_served s). answer = health_handler path) \<and>
     (\<forall>n. ps_phase s = Exited (Status n) \<longrightarrow> n = 0 \<or> n = 1 \<and> ps_log s \<noteq> [] \<and> fatal_line (last (ps_log s)))"

lemma log_inv_step: "process_step L c ch_Consume h s s' \<Longrightarrow> log_inv s \<Longrightarrow> log_inv s'"
  by (erule process_stepE)
    (auto simp: log_inv_def fatal_def server_returns_def fatal_line_def split: option.splits)

lemma log_inv_reachable:
  assumes "(process_step L c ch_Consume h)\<^sup>*\<^sup>* (launched (Inr (k, h'), w)) s"
  shows "log_inv s"
  using assms
proof (induction rule: rtranclp_induct)
  case base
  then show ?case by (simp add: log_inv_def launched_def)
next
  case (step s s')
  then show ?case using log_inv_step by blast
qed

section \<open>Ways to stop\<close>

lemma reach_closing:
  assumes "ps_phase s = Closing (xs @ ys)"
  shows "(process_step L c ch_Consume h)\<^sup>*\<^sup>* s
     (s\<lparr>ps_phase := Closing ys, ps_startup := fold (close L) xs (ps_startup s)\<rparr>)"
  using assms
proof (induction xs arbitrary: s)
  case Nil
  then have "s\<lparr>ps_phase := Closing ys, ps_startup := ps_startup s\<rparr> = s" by simp
  then show ?case by simp
next
  case (Cons x xs)
  let ?s = "s\<lparr>ps_phase := Closing (xs @ ys), ps_startup := close L x (ps_startup s)\<rparr>"
  have "process_step L c ch_Consume h s ?s" using Cons.prems by (intro process_step.close_next) simp
  moreover have "(process_step L c ch_Consume h)\<^sup>*\<^sup>* ?s
      (?s\<lparr>ps_phase := Closing ys, ps_startup := fold (close L) xs (ps_startup ?s)\<rparr>)"
    by (rule Cons.IH) simp
  ultimately show ?case by (simp add: converse_rtranclp_into_rtranclp)
qed

text \<open>The process that got a signal and closes its handles; \<open>line\<close> is what it wrote when it was ready.\<close>

definition stopping :: "'w deploy_consumer \<Rightarrow> 'e startup \<Rightarrow> handle list \<Rightarrow> 'e process" where
  "stopping c w hs = \<lparr>ps_phase = Closing hs, ps_startup = w, ps_server = True,
     ps_log = [''orchestration worker listening on :'' @ HTTPPort (dc_cfg c) @
        '' and consuming '' @ AppDeployQueue (dc_cfg c)], ps_served = []\<rparr>"

lemma stopping_startup: "ps_startup (stopping c w hs) = w"
  by (simp add: stopping_def)

lemma fatal_simps:
  "ps_phase (fatal line s) = Exited (Status 1)" "last (ps_log (fatal line s)) = line" "ps_startup (fatal line s) = ps_startup s"
  by (simp_all add: fatal_def)

definition channel_closed :: go_error where
  "channel_closed = ErrorString ''rabbitmq consumer channel closed''"

lemma closed_line: "consumer_line channel_closed = ''deploy consumer stopped: rabbitmq consumer channel closed''"
  by (simp add: consumer_line_def channel_closed_def)

lemma consumer_returns_closed:
  assumes "ch_Consume (AppDeployQueue (dc_cfg c)) = Inr msgs" "running s"
  shows "process_step L c ch_Consume h s (fatal (consumer_line channel_closed) s)"
proof -
  have "Start c ch_Consume v = (channel_closed, consume c msgs v)" for v
    by (simp add: Start_def assms(1) channel_closed_def)
  then show ?thesis by (rule process_step.consumer_returns [OF assms(2)])
qed

lemma stopping_running: "running (stopping c w hs)"
  by (simp add: stopping_def)

lemma close_order_last: "close_order h = butlast (close_order h) @ [Conn (ch_conn h)]"
  by (simp add: close_order_def butlast_append)

lemma reach_stopping:
  assumes "close_order h = xs @ ys"
  shows "(process_step L c ch_Consume h)\<^sup>*\<^sup>* (launched (Inr (k, h), w)) (stopping c (fold (close L) xs w) ys)"
proof -
  define s0 s1 s2 s3 where "s0 = launched (Inr (k, h), w)"
    and "s1 = s0\<lparr>ps_phase := Waiting, ps_log := ps_log s0 @ [''orchestration worker listening on :'' @ HTTPPort (dc_cfg c) @
        '' and consuming '' @ AppDeployQueue (dc_cfg c)]\<rparr>"
    and "s2 = s1\<lparr>ps_phase := Draining\<rparr>" and "s3 = s2\<lparr>ps_phase := Closing (close_order h)\<rparr>"
  note defs = this
  have "process_step L c ch_Consume h s0 s1" unfolding defs(2) by (rule process_step.notify) (simp add: defs(1) launched_def)
  moreover have "process_step L c ch_Consume h s1 s2" unfolding defs(3) by (rule process_step.signal) (simp add: defs(2))
  moreover have "process_step L c ch_Consume h s2 s3" unfolding defs(4) by (rule process_step.shut_down) (simp add: defs(3))
  ultimately have "(process_step L c ch_Consume h)\<^sup>*\<^sup>* s0 s3" by (meson converse_rtranclp_into_rtranclp rtranclp.rtrancl_refl)
  moreover have "ps_phase s3 = Closing (xs @ ys)" by (simp add: defs(4) assms)
  note reach_closing [OF this, of L c ch_Consume h]
  moreover have "s3\<lparr>ps_phase := Closing ys, ps_startup := fold (close L) xs (ps_startup s3)\<rparr> = stopping c (fold (close L) xs w) ys"
    by (simp add: defs stopping_def launched_def)
  ultimately show ?thesis unfolding defs(1) by simp
qed

lemma reach_clean_stop:
  obtains s where "(process_step L c ch_Consume h)\<^sup>*\<^sup>* (launched (Inr (k, h), w)) s" "ps_phase s = Exited (Status 0)"
    "ps_startup s = main_stop L h w"
proof -
  let ?t = "stopping c (fold (close L) (close_order h) w) []"
  let ?s = "?t\<lparr>ps_phase := Exited (Status 0)\<rparr>"
  have "process_step L c ch_Consume h ?t ?s" by (rule process_step.main_returns) (simp add: stopping_def)
  from rtranclp.rtrancl_into_rtrancl [OF reach_stopping [of h "close_order h" "[]"] this]
  show ?thesis by (rule that) (simp_all add: stopping_startup main_stop_fold)
qed

lemma fold_close_moves: "moves w (fold (close L) xs w) {#} (mset xs)"
proof (induction xs arbitrary: w)
  case (Cons x xs)
  then show ?case using moves_trans [OF close_moves [of w L x] Cons.IH [of "close L x w"]] by simp
qed (simp add: moves_refl)

section \<open>Properties\<close>

text \<open>C19. How a worker's process ends. While it serves, it closes nothing; after a signal it closes its handles in the
  order ledger, publisher, channel, connection. It ends with status 0 only when everything that it opened is
  closed, and with another status only by a fatal log of the consumer or the server. Every HTTP request
  it served got the answer of the health handler.\<close>

theorem process_exits:
  assumes "main_start L g env w = (Inr (k, h), w1)"
    "(process_step L c ch_Consume h)\<^sup>*\<^sup>* (launched (Inr (k, h), w1)) s"
  shows "\<exists>n. closed (ps_startup s) - closed w = mset (take n (close_order h)) \<and>
     (ps_phase s \<in> {Launched, Waiting, Draining} \<longrightarrow> n = 0) \<and>
     (ps_phase s = Exited (Status 0) \<longrightarrow> opened (ps_startup s) - opened w = closed (ps_startup s) - closed w) \<and>
     (\<forall>m. ps_phase s = Exited (Status m) \<longrightarrow> m = 0 \<or> m = 1 \<and> ps_log s \<noteq> [] \<and> fatal_line (last (ps_log s))) \<and>
     (\<forall>(path, answer) \<in> set (ps_served s). answer = health_handler path)"
proof -
  have "NewDeployConsumer L (loadConfig env) w = (Inr h, w1)"
    using assms(1) by (auto simp: main_start_def Let_def split: sum.splits prod.splits)
  then have "constructed (loadConfig env) w (Inr h) w1" by (rule NewDeployConsumer_constructed)
  then have w1: "opened w1 = opened w + mset (close_order h)" "closed w1 = closed w"
    by (auto simp: constructed_def moves_def close_order_holds)
  have inv: "process_inv h w1 s" by (rule process_inv_reachable [OF assms(2) launched_inv])
  have log: "log_inv s" by (rule log_inv_reachable [OF assms(2)])
  obtain n where n: "closed_so_far w1 s (take n (close_order h))"
    "ps_phase s \<in> {Launched, Waiting, Draining} \<longrightarrow> n = 0"
    "ps_phase s = Exited (Status 0) \<longrightarrow> take n (close_order h) = close_order h"
  proof (cases "ps_phase s")
    case (Exited x)
    then show ?thesis
      using inv that [of "length (close_order h)"] that
      by (cases x) (auto simp: process_inv_def split: nat.splits intro: that [of 0])
  qed (use inv that [of 0] that in \<open>auto simp: process_inv_def\<close>)
  then show ?thesis
    using log w1 by (auto simp: log_inv_def closed_so_far_def intro!: exI [of _ n])
qed

theorem process_exits_witness:
  "\<exists>s :: unit process. ps_phase s = Exited (Status 0) \<and> opened (ps_startup s) = closed (ps_startup s) \<and>
     closed (ps_startup s) \<noteq> {#}"
proof -
  let ?w = "\<lparr>su_ext = (), su_calls = []\<rparr>"
  have 0: "opened ?w = {#}" "closed ?w = {#}" by (simp_all add: opened_def closed_def)
  obtain h w1 where m: "main_start happy_drivers happy_client_go database_env ?w =
     (Inr ((loadConfig database_env, ()), h), w1)" using happy_start by blast
  obtain s where s: "(process_step happy_drivers database_consumer (\<lambda>q. Inr []) h)\<^sup>*\<^sup>*
      (launched (Inr ((loadConfig database_env, ()), h), w1)) s" "ps_phase s = Exited (Status 0)"
    "ps_startup s = main_stop happy_drivers h w1" by (rule reach_clean_stop)
  have "opened (ps_startup s) = closed (ps_startup s)" using process_exits [OF m s(1)] s(2) 0 by auto
  moreover have "closed (ps_startup s) \<noteq> {#}"
    using fold_close_moves [of w1 happy_drivers "close_order h"] by (simp add: s(3) main_stop_fold moves_def close_order_def)
  ultimately show ?thesis using s(2) by blast
qed

text \<open>C38. After a signal, the process may end with status 0, all its handles closed; but it may also end with status 1 and
  the connection open: \<open>Close\<close> closes the channel that the goroutine of the consumer reads from, whose
  \<open>Start\<close> then returns, and its fatal log ends the process before the deferred call is done.\<close>

theorem graceful_stop_may_be_fatal:
  assumes "ch_Consume (AppDeployQueue (dc_cfg c)) = Inr msgs"
  shows "(\<exists>s. (process_step L c ch_Consume h)\<^sup>*\<^sup>* (launched (Inr (k, h), w)) s \<and> ps_phase s = Exited (Status 0) \<and>
       ps_startup s = main_stop L h w) \<and>
     (\<exists>s. (process_step L c ch_Consume h)\<^sup>*\<^sup>* (launched (Inr (k, h), w)) s \<and> ps_phase s = Exited (Status 1) \<and>
       last (ps_log s) = ''deploy consumer stopped: rabbitmq consumer channel closed'' \<and>
       closed (ps_startup s) = closed w + (consumer_holds h - {#Conn (ch_conn h)#}))"
proof
  show "\<exists>s. (process_step L c ch_Consume h)\<^sup>*\<^sup>* (launched (Inr (k, h), w)) s \<and> ps_phase s = Exited (Status 0) \<and>
       ps_startup s = main_stop L h w"
    using reach_clean_stop by metis
  define s where "s = fatal (consumer_line channel_closed) (stopping c (fold (close L) (butlast (close_order h)) w) [Conn (ch_conn h)])"
  have "mset (butlast (close_order h)) = consumer_holds h - {#Conn (ch_conn h)#}"
    using arg_cong [OF close_order_last [of h], of mset] by (simp add: close_order_holds)
  then have "closed (ps_startup s) = closed w + (consumer_holds h - {#Conn (ch_conn h)#})"
    using fold_close_moves [of w L "butlast (close_order h)"] by (simp add: moves_def s_def fatal_simps stopping_startup)
  moreover have "ps_phase s = Exited (Status 1)" "last (ps_log s) = ''deploy consumer stopped: rabbitmq consumer channel closed''"
    by (simp_all only: s_def fatal_simps closed_line)
  moreover have "(process_step L c ch_Consume h)\<^sup>*\<^sup>* (launched (Inr (k, h), w)) s"
    unfolding s_def by (rule rtranclp.rtrancl_into_rtrancl [OF reach_stopping [OF close_order_last]],
        rule consumer_returns_closed [of ch_Consume, OF assms], rule stopping_running)
  ultimately show "\<exists>s. (process_step L c ch_Consume h)\<^sup>*\<^sup>* (launched (Inr (k, h), w)) s \<and> ps_phase s = Exited (Status 1) \<and>
       last (ps_log s) = ''deploy consumer stopped: rabbitmq consumer channel closed'' \<and>
       closed (ps_startup s) = closed w + (consumer_holds h - {#Conn (ch_conn h)#})"
    by blast
qed

theorem graceful_stop_may_be_fatal_witness:
  "\<exists>s :: unit process. ps_phase s = Exited (Status 1) \<and>
     last (ps_log s) = ''deploy consumer stopped: rabbitmq consumer channel closed'' \<and>
     closed (ps_startup s) = {#DB 3, Chan 2, Chan 4#}"
proof -
  let ?h = "\<lparr>ch_conn = 1, ch_ch = 2, ch_pub = 4, ch_ledger = Some \<lparr>lg_db = 3, lg_table = ''s.stage_ledger''\<rparr>\<rparr>"
  have "consumer_holds ?h - {#Conn (ch_conn ?h)#} = {#DB 3, Chan 2, Chan 4#}"
    by (simp add: consumer_holds_def add_mset_commute)
  moreover have "closed \<lparr>su_ext = (), su_calls = []\<rparr> = {#}" by (simp add: closed_def)
  ultimately show ?thesis
    using graceful_stop_may_be_fatal [of "\<lambda>q. Inr []" database_consumer "[]" happy_drivers ?h "()"
      "\<lparr>su_ext = (), su_calls = []\<rparr>"] by fastforce
qed

end
