(* ===== verification/Broker.thy ===== *)
theory Broker
  imports Worker_Config "HOL-Library.Multiset"
begin

text \<open>
  The workers together with the broker: the work queue, the retry queues with their time-outs, the
  dead-letter queue, and what becomes of a message on its way through them. RabbitMQ is outside code and a
  parameter: any relation on the contents of the queues whose steps are among those that its
  documentation allows for durable queues, manual acknowledgement, the default exchange and
  dead-lettering after a time-out (\<open>documented\<close>). Every worker runs \<open>processDelivery\<close> in any world, may
  crash at any call, and may have its publications and its settlement answered wrongly.
\<close>

section \<open>Messages and queues\<close>

record message =
  ms_Body :: string
  ms_ContentType :: string
  ms_Headers :: amqp_table

definition message_of :: "publishing \<Rightarrow> message" where
  "message_of p = \<lparr>ms_Body = pb_Body p, ms_ContentType = pb_ContentType p, ms_Headers = pb_Headers p\<rparr>"

definition delivery_of ::
  "message \<Rightarrow> (bool \<Rightarrow> 'e \<Rightarrow> go_error option \<times> 'e) \<Rightarrow> (bool \<Rightarrow> bool \<Rightarrow> 'e \<Rightarrow> go_error option \<times> 'e) \<Rightarrow> 'e delivery" where
  "delivery_of m A N = \<lparr>dl_Body = ms_Body m, dl_ContentType = ms_ContentType m, dl_Headers = ms_Headers m,
     dl_Ack = A, dl_Nack = N\<rparr>"

definition counted :: "message \<Rightarrow> int" where
  "counted m = sint (deployHeaderAttempt (ms_Headers m))"

text \<open>The retry queues, and the queues that exist: the default exchange drops what goes to another one.\<close>

definition retry_queues :: "config \<Rightarrow> string list" where
  "retry_queues cfg = tl (declared_queues cfg)"

definition exists_queue :: "config \<Rightarrow> string \<Rightarrow> bool" where
  "exists_queue cfg q \<longleftrightarrow> q = AppDeployQueue cfg \<or> q \<in> set (declared_queues cfg)"

definition routed :: "config \<Rightarrow> (string \<times> message) multiset \<Rightarrow> (string \<times> message) multiset" where
  "routed cfg C = filter_mset (\<lambda>(q, m). exists_queue cfg q) C"

text \<open>The copies that a worker published to queues, all that it tried and those that were confirmed.\<close>

fun tried_copy :: "effect \<Rightarrow> (string \<times> message) multiset" where
  "tried_copy (PublishedCopy q p r) = {#(q, message_of p)#}"
| "tried_copy _ = {#}"

fun confirmed_copy :: "effect \<Rightarrow> (string \<times> message) multiset" where
  "confirmed_copy (PublishedCopy q p None) = {#(q, message_of p)#}"
| "confirmed_copy _ = {#}"

definition tried :: "effect list \<Rightarrow> (string \<times> message) multiset" where
  "tried t = sum_list (map tried_copy t)"

definition confirmed :: "effect list \<Rightarrow> (string \<times> message) multiset" where
  "confirmed t = sum_list (map confirmed_copy t)"

section \<open>Steps\<close>

text \<open>
  \<open>bk_queues\<close>: which message is in which queue. The other two are ghosts: the bodies that arrived, and
  the messages that a settlement removed without a confirmed copy, each with the calls of its delivery.
\<close>

record broker =
  bk_queues :: "(string \<times> message) multiset"
  bk_arrived :: "string multiset"
  bk_done :: "(message \<times> effect list) multiset"

text \<open>
  Whether the settlement \<open>s\<close> removes its message (\<open>gone\<close>): it does when the call returned no error; when
  it returned one, it may have reached the broker or not. A negative acknowledgement with requeue
  never removes it.
\<close>

fun settles :: "effect \<Rightarrow> bool \<Rightarrow> bool" where
  "settles (Acked r) gone \<longleftrightarrow> (r = None \<longrightarrow> gone)"
| "settles (Nacked requeue r) gone \<longleftrightarrow> (if requeue then \<not> gone else r = None \<longrightarrow> gone)"
| "settles _ gone \<longleftrightarrow> False"

definition settle :: "config \<Rightarrow> message \<Rightarrow> effect list \<Rightarrow> effect \<Rightarrow> (string \<times> message) multiset \<Rightarrow> bool \<Rightarrow> broker \<Rightarrow> broker" where
  "settle cfg m t s C gone b = b\<lparr>
     bk_queues := (if gone then bk_queues b - {#(AppDeployQueue cfg, m)#} else bk_queues b) + routed cfg C,
     bk_done := bk_done b + (if gone \<and> confirmed t = {#} then {#(m, t @ [s])#} else {#})\<rparr>"

text \<open>Dead-lettering adds headers of the broker to a message and keeps the rest.\<close>

definition same_message :: "message \<Rightarrow> message \<Rightarrow> bool" where
  "same_message m m' \<longleftrightarrow> ms_Body m' = ms_Body m \<and> ms_ContentType m' = ms_ContentType m \<and>
     ms_Headers m' ''x-shiply-attempt'' = ms_Headers m ''x-shiply-attempt''"

text \<open>The steps that are allowed at most.\<close>

inductive broker_step :: "'e deploy_consumer set \<Rightarrow> config \<Rightarrow> broker \<Rightarrow> broker \<Rightarrow> bool" for workers cfg where
  arrive: "ms_Headers m ''x-shiply-attempt'' = None \<Longrightarrow> broker_step workers cfg b
     (b\<lparr>bk_queues := bk_queues b + {#(AppDeployQueue cfg, m)#}, bk_arrived := bk_arrived b + {#ms_Body m#}\<rparr>)"
| expire: "(q, m) \<in># bk_queues b \<Longrightarrow> q \<in> set (retry_queues cfg) \<Longrightarrow> same_message m m' \<Longrightarrow> broker_step workers cfg b
     (b\<lparr>bk_queues := bk_queues b - {#(q, m)#} + {#(AppDeployQueue cfg, m')#}\<rparr>)"
| deliver: "(AppDeployQueue cfg, m) \<in># bk_queues b \<Longrightarrow> c \<in> workers \<Longrightarrow>
     delivered c (delivery_of m A N) w = t @ [s] \<Longrightarrow> confirmed t \<subseteq># C \<Longrightarrow> C \<subseteq># tried t \<Longrightarrow> settles s gone \<Longrightarrow>
     broker_step workers cfg b (settle cfg m t s C gone b)"
| crash: "(AppDeployQueue cfg, m) \<in># bk_queues b \<Longrightarrow> c \<in> workers \<Longrightarrow>
     C \<subseteq># tried (delivered c (delivery_of m A N) w) \<Longrightarrow> broker_step workers cfg b
     (b\<lparr>bk_queues := bk_queues b + routed cfg C\<rparr>)"

definition empty_broker :: broker where
  "empty_broker = \<lparr>bk_queues = {#}, bk_arrived = {#}, bk_done = {#}\<rparr>"

definition documented :: "'e deploy_consumer set \<Rightarrow> config \<Rightarrow> (broker \<Rightarrow> broker \<Rightarrow> bool) \<Rightarrow> bool" where
  "documented workers cfg rabbit \<longleftrightarrow> (\<forall>b b'. rabbit b b' \<longrightarrow> broker_step workers cfg b b')"

section \<open>The copies of one delivery\<close>

lemma delivery_of_simps [simp]:
  "dl_Body (delivery_of m A N) = ms_Body m" "dl_Headers (delivery_of m A N) = ms_Headers m"
  "attempts (delivery_of m A N) = counted m"
  by (simp_all add: delivery_of_def attempts_def counted_def)

lemma tried_Nil [simp]: "tried [] = {#}" "confirmed [] = {#}"
  by (simp_all add: tried_def confirmed_def)

lemma tried_append [simp]: "tried (t @ u) = tried t + tried u" "confirmed (t @ u) = confirmed t + confirmed u"
  by (simp_all add: tried_def confirmed_def)

lemma tried_Cons [simp]: "tried (x # t) = tried_copy x + tried t" "confirmed (x # t) = confirmed_copy x + confirmed t"
  by (simp_all add: tried_def confirmed_def)

lemma tried_iff: "(q, m) \<in># tried t \<longleftrightarrow> (\<exists>p r. PublishedCopy q p r \<in> set t \<and> m = message_of p)"
proof (induction t)
  case (Cons x t)
  then show ?case by (cases x) auto
qed simp

lemma confirmed_iff: "(q, m) \<in># confirmed t \<longleftrightarrow> (\<exists>p. PublishedCopy q p None \<in> set t \<and> m = message_of p)"
proof (induction t)
  case (Cons x t)
  show ?case
  proof (cases x)
    case (PublishedCopy q' p r)
    then show ?thesis using Cons by (cases r) auto
  qed (use Cons in auto)
qed simp

text \<open>Every copy carries the body of its message, and its attempt or one more.\<close>

definition proper_copy :: "'e deploy_consumer \<Rightarrow> 'e delivery \<Rightarrow> string \<Rightarrow> publishing \<Rightarrow> bool" where
  "proper_copy c msg q p \<longleftrightarrow> (\<exists>cause cnt.
     q = DLQ (dc_cfg c) \<and> p = copy_of msg (dead_headers msg cause (next_attempt msg cnt)) \<or>
     sint (next_attempt msg cnt) < sint (MaxAttempts (dc_cfg c)) \<and>
     q = retry_queue (dc_cfg c) (retry_index (dc_cfg c) (next_attempt msg cnt)) \<and>
     p = copy_of msg (retry_headers msg cause (next_attempt msg cnt)))"

lemma proper_dead [simp]:
  "proper_copy c msg (DLQ (dc_cfg c)) (copy_of msg (dead_headers msg cause (next_attempt msg cnt)))"
  unfolding proper_copy_def by blast

lemma proper_retry:
  "sint (next_attempt msg cnt) < sint (MaxAttempts (dc_cfg c)) \<Longrightarrow>
   proper_copy c msg (retry_queue (dc_cfg c) (retry_index (dc_cfg c) (next_attempt msg cnt)))
     (copy_of msg (retry_headers msg cause (next_attempt msg cnt)))"
  unfolding proper_copy_def by blast

lemma retry_run_proper:
  assumes "retry_run c msg event err cnt t ok" "PublishedCopy q p r \<in> set t"
  shows "proper_copy c msg q p"
  using assms
  by (cases rule: retry_run.cases)
    (auto simp: follows_Cons_iff counted_script_def retrying_note_def retry_note_def dead_note_def proper_retry
      no_copies [OF finish_failure_delivery] split: if_splits)

lemma delivered_proper:
  assumes "PublishedCopy q p r \<in> set (delivered c msg w)"
  shows "proper_copy c msg q p"
  using delivered_run [of c msg w] assms
  by (cases rule: delivery_run.cases)
    (auto simp: dead_note_def follows_Cons_iff no_copies [OF message_run_delivery] dest: retry_run_proper)

text \<open>How a delivery ends, when the consuming channel is there.\<close>

definition answered :: "config \<Rightarrow> effect list \<Rightarrow> bool" where
  "answered cfg t \<longleftrightarrow> result_published t \<or> (\<exists>u x now event target err. t = u @ [PublishedProgress x (DeploymentExchange cfg)
     (OrchestrationRetryingRoutingKey cfg) (ProgressEvent (newOrchestrationRolloutPendingEvent now event target err)) None])"

lemma confirmed_empty: "filter delivery_call t = [] \<Longrightarrow> confirmed t = {#}"
  using no_copies by (metis confirmed_iff multiset_nonemptyE surj_pair)

lemma delivered_ends:
  assumes "delivered c msg w = t @ [s]" "dc_ch c"
  shows "(\<exists>r. s = Acked r) \<and> (answered (dc_cfg c) t \<or> confirmed t \<noteq> {#}) \<or> (\<exists>r. s = Nacked True r) \<or>
     (\<exists>r. s = Nacked False r) \<and> confirmed t = {#}"
  using delivered_run [of c msg w] assms
proof (cases rule: delivery_run.cases)
  case (acked u act r)
  then have "result_published t \<or> pending_published c t" using message_run_published assms(1) by auto
  then have "answered (dc_cfg c) t" by (auto simp: answered_def pending_published_def pending_note_def)
  then show ?thesis using acked(1) assms(1) by auto
next
  case (retried u event request target err v r)
  then have "copy_kept c msg t" using retry_run_kept [of c msg event err _ v u] assms(1) by auto
  then obtain q h where "PublishedCopy q (copy_of msg h) None \<in> set t" by (auto simp: copy_kept_def)
  then have "(q, message_of (copy_of msg h)) \<in># confirmed t" using confirmed_iff by blast
  then have "confirmed t \<noteq> {#}" by auto
  then show ?thesis using retried(1) assms(1) by auto
next
  case (buried u err v r)
  then have "confirmed t \<noteq> {#}" using assms(1) by (auto simp: follows_done dead_note_def)
  then show ?thesis using buried(1) assms(1) by auto
next
  case (dropped u err v r)
  then have "confirmed t = {#}"
    using assms(1) confirmed_empty [OF message_run_delivery] by (auto simp: follows_Cons_iff dead_note_def)
  then show ?thesis using dropped(1) assms(1) by auto
qed auto

section \<open>Invariants\<close>

text \<open>Counted attempts in the queues: below the maximum, except for the dead letters.\<close>

definition attempts_inv :: "config \<Rightarrow> broker \<Rightarrow> bool" where
  "attempts_inv cfg b \<longleftrightarrow> (\<forall>(q, m) \<in># bk_queues b. exists_queue cfg q \<and> 0 \<le> counted m \<and>
     (q = DLQ cfg \<or> counted m = 0 \<or> counted m < sint (MaxAttempts cfg)))"

text \<open>
  No body is lost: each one that arrived is in a queue or done with, and what is done was answered, or it
  was turned down and could not be copied to the dead-letter queue.
\<close>

definition bodies :: "broker \<Rightarrow> string multiset" where
  "bodies b = image_mset (\<lambda>(q, m). ms_Body m) (bk_queues b) + image_mset (\<lambda>(m, t). ms_Body m) (bk_done b)"

definition done_well :: "config \<Rightarrow> effect list \<Rightarrow> bool" where
  "done_well cfg t \<longleftrightarrow> (\<exists>u s. t = u @ [s] \<and> confirmed u = {#} \<and>
     ((\<exists>r. s = Acked r) \<and> answered cfg u \<or> (\<exists>r. s = Nacked False r)))"

definition kept_inv :: "config \<Rightarrow> broker \<Rightarrow> bool" where
  "kept_inv cfg b \<longleftrightarrow> bk_arrived b \<subseteq># bodies b \<and> (\<forall>(m, t) \<in># bk_done b. done_well cfg t)"

definition crew :: "'e deploy_consumer set \<Rightarrow> config \<Rightarrow> bool" where
  "crew workers cfg \<longleftrightarrow> (\<forall>c \<in> workers. dc_cfg c = cfg \<and> dc_ch c)"

section \<open>The way of one message when nothing fails but its deployment\<close>

text \<open>
  One message, with the queue it is in: it is delivered, and its delivery leaves one confirmed copy and
  is acknowledged, or it waits in a retry queue until it expires; \<open>expiry\<close> is then what the broker puts in the
  work queue. Each move is a step of the broker.
\<close>

inductive moves_on :: "'e deploy_consumer \<Rightarrow> config \<Rightarrow> (string \<Rightarrow> message \<Rightarrow> message) \<Rightarrow>
    string \<times> message \<Rightarrow> string \<times> message \<Rightarrow> bool" for c cfg expiry where
  delivered_copy: "delivered c (delivery_of m (\<lambda>multiple e. (None, e)) N) w = t @ [Acked None] \<Longrightarrow>
     confirmed t = {#p#} \<Longrightarrow> moves_on c cfg expiry (AppDeployQueue cfg, m) p"
| expired: "q \<in> set (retry_queues cfg) \<Longrightarrow> moves_on c cfg expiry (q, m) (AppDeployQueue cfg, expiry q m)"

definition keeps_messages :: "(string \<Rightarrow> message \<Rightarrow> message) \<Rightarrow> bool" where
  "keeps_messages expiry \<longleftrightarrow> (\<forall>q m. same_message m (expiry q m))"

lemma confirmed_tried: "confirmed t \<subseteq># tried t"
proof (induction t)
  case (Cons x t)
  have "confirmed_copy x \<subseteq># tried_copy x" by (cases x rule: confirmed_copy.cases) simp_all
  then show ?case using Cons by (simp add: subset_mset.add_mono)
qed simp

lemma moves_on_step:
  assumes "moves_on c cfg expiry p p'" "p \<in># bk_queues b" "exists_queue cfg (fst p')" "keeps_messages expiry"
  shows "broker_step {c} cfg b (b\<lparr>bk_queues := bk_queues b - {#p#} + {#p'#}\<rparr>)"
  using assms(1)
proof cases
  case (delivered_copy m N w t)
  have "routed cfg {#p'#} = {#p'#}" using assms(3) by (auto simp: routed_def split: prod.splits)
  then have "settle cfg m t (Acked None) {#p'#} True b = b\<lparr>bk_queues := bk_queues b - {#p#} + {#p'#}\<rparr>"
    using delivered_copy by (simp add: settle_def)
  moreover have "broker_step {c} cfg b (settle cfg m t (Acked None) {#p'#} True b)"
    using delivered_copy assms(2) confirmed_tried [of t] by (intro broker_step.deliver) auto
  ultimately show ?thesis by simp
next
  case (expired q m)
  then show ?thesis using broker_step.expire [of q m b cfg "expiry q m" "{c}"] assms(2,4) by (simp add: keeps_messages_def)
qed

text \<open>The copy that a counted retry of \<open>msg\<close> makes.\<close>

definition retry_copy :: "config \<Rightarrow> 'e delivery \<Rightarrow> go_error \<Rightarrow> string \<times> message" where
  "retry_copy cfg msg err =
     (let a = next_attempt msg True
      in if sint (MaxAttempts cfg) \<le> sint a then (DLQ cfg, message_of (copy_of msg (dead_headers msg (Some err) a)))
         else (retry_queue cfg (retry_index cfg a), message_of (copy_of msg (retry_headers msg (Some err) a))))"

lemma retry_run_copy:
  assumes "retry_run c msg event err True t True"
  shows "confirmed t = {#retry_copy (dc_cfg c) msg err#}"
  using assms
  by (cases rule: retry_run.cases)
    (auto simp: follows_done counted_script_def retrying_note_def retry_note_def dead_note_def retry_copy_def Let_def
      confirmed_empty [OF finish_failure_delivery])

lemma relpowp_two: "(R ^^ Suc (Suc n)) x z \<longleftrightarrow> (\<exists>y1 y2. R x y1 \<and> R y1 y2 \<and> (R ^^ n) y2 z)"
proof
  show "(R ^^ Suc (Suc n)) x z \<Longrightarrow> \<exists>y1 y2. R x y1 \<and> R y1 y2 \<and> (R ^^ n) y2 z"
    by (drule relpowp_Suc_D2, elim exE conjE, drule relpowp_Suc_D2) blast
  show "\<exists>y1 y2. R x y1 \<and> R y1 y2 \<and> (R ^^ n) y2 z \<Longrightarrow> (R ^^ Suc (Suc n)) x z"
    by (elim exE conjE) (rule relpowp_Suc_I2, assumption, rule relpowp_Suc_I2)
qed

text \<open>A body at which the handler fails with an error that is worth a retry, while the retries themselves work.\<close>

definition keeps_failing :: "'e deploy_consumer \<Rightarrow> string \<Rightarrow> bool" where
  "keeps_failing c body \<longleftrightarrow> (\<exists>event. unmarshal_event body = Inr event) \<and>
     (\<forall>w. \<exists>err w'. handleMessage c body w = ((actionNackRequeue, Some err), w') \<and> \<not> is_lease_busy err) \<and>
     (\<forall>msg err w. dl_Body msg = body \<longrightarrow> fst (scheduleRetry c msg (Some err) True w) = None)"

lemma failing_delivery:
  fixes N :: "bool \<Rightarrow> bool \<Rightarrow> 'e \<Rightarrow> go_error option \<times> 'e"
  assumes "keeps_failing c (ms_Body m)" "dc_ch c"
  defines "msg \<equiv> delivery_of m (\<lambda>multiple e. (None, e)) N"
  shows "\<exists>t err. delivered c msg w = t @ [Acked None] \<and> confirmed t = {#retry_copy (dc_cfg c) msg err#}"
proof -
  obtain event where ev: "unmarshal_event (dl_Body msg) = Inr event" using assms(1) by (auto simp: keeps_failing_def msg_def)
  have "\<exists>err w'. handleMessage c (dl_Body msg) w = ((actionNackRequeue, Some err), w') \<and> \<not> is_lease_busy err"
    using assms(1) unfolding keeps_failing_def msg_def delivery_of_simps(1) by blast
  then obtain err w1 where h: "handleMessage c (dl_Body msg) w = ((actionNackRequeue, Some err), w1)" "\<not> is_lease_busy err"
    by blast
  obtain w2 where s: "scheduleRetry c msg (Some err) True w1 = (None, w2)"
    using assms(1) by (metis delivery_of_simps(1) keeps_failing_def msg_def prod.collapse)
  from scheduleRetry_run [OF s ev] obtain t where t: "log w2 = log w1 @ t" "retry_run c msg event err True t True" by auto
  have "confirmed (handled c (dl_Body msg) w) = {#}" by (rule confirmed_empty [OF message_run_delivery [OF handled_run]])
  moreover have "log w1 = log w @ handled c (dl_Body msg) w"
    using handleMessage_run [OF h(1)] by (auto simp: handled_def h(1))
  moreover have "processDelivery c msg w = ack c msg w2" using h s assms(2) by (simp add: processDelivery_def)
  moreover have "log (ack c msg w2) = log w2 @ [Acked None]"
    by (simp add: ack_def call_def msg_def delivery_of_def renewals_def log_def split: option.split)
  ultimately show ?thesis using t(1) retry_run_copy [OF t(2)] by (auto simp: delivered_def)
qed

lemma failing_moves:
  assumes "keeps_failing c (ms_Body m)" "dc_ch c" "dc_cfg c = cfg"
  shows "\<exists>p. moves_on c cfg expiry (AppDeployQueue cfg, m) p"
proof -
  obtain N :: "bool \<Rightarrow> bool \<Rightarrow> 'a \<Rightarrow> go_error option \<times> 'a" and w :: "'a world" where True by simp
  with failing_delivery [OF assms(1,2), of N w] obtain t err where
    "delivered c (delivery_of m (\<lambda>multiple e. (None, e)) N) w = t @ [Acked None]"
    "confirmed t = {#retry_copy (dc_cfg c) (delivery_of m (\<lambda>multiple e. (None, e)) N) err#}" by blast
  then show ?thesis by (intro exI, rule moves_on.delivered_copy)
qed

section \<open>A topology that the copies fit in\<close>

text \<open>What the configuration must be for the retries to stay in the system.\<close>

locale retry_topology =
  fixes cfg :: config
  assumes backoffs: "RetryBackoffs cfg \<noteq> []" "int (length (RetryBackoffs cfg)) < 9223372036854775807"
    and max_attempts: "sint (MaxAttempts cfg) < 2147483648"
    and dlq_apart: "DLQ cfg \<noteq> AppDeployQueue cfg" "DLQ cfg \<notin> set (retry_queues cfg)"
    and work_apart: "AppDeployQueue cfg \<notin> set (retry_queues cfg)"
begin

lemma declared: "set (declared_queues cfg) = insert (DLQ cfg) (set (retry_queues cfg))"
  by (simp add: retry_queues_def declared_queues_eq [OF backoffs(2)])

lemma sint_next:
  assumes "0 \<le> attempts msg" "attempts msg < 2147483648"
  shows "attempts msg \<le> sint (next_attempt msg cnt) \<and> sint (next_attempt msg cnt) \<le> attempts msg + 1"
  using assms sint_int64_add_1 [of "deployHeaderAttempt (dl_Headers msg)"]
  by (simp add: next_attempt_def attempts_def)

lemma header_attempt_dead:
  "- 2147483648 \<le> sint a \<Longrightarrow> sint a < 2147483648 \<Longrightarrow> deployHeaderAttempt (dead_headers msg cause a) = a"
  by (simp add: deployHeaderAttempt_def dead_headers_def int64_of_int32_of_int64)

lemma proper_copy_queued:
  assumes "proper_copy c msg q p" "dc_cfg c = cfg" "0 \<le> attempts msg"
    "attempts msg = 0 \<or> attempts msg < sint (MaxAttempts cfg)"
  shows "exists_queue cfg q \<and> ms_Body (message_of p) = dl_Body msg \<and> 0 \<le> counted (message_of p) \<and>
     (q = DLQ cfg \<or> counted (message_of p) < sint (MaxAttempts cfg))"
proof -
  from assms(1,2) obtain cause cnt where p:
    "q = DLQ cfg \<and> p = copy_of msg (dead_headers msg cause (next_attempt msg cnt)) \<or>
     sint (next_attempt msg cnt) < sint (MaxAttempts cfg) \<and>
     q = retry_queue cfg (retry_index cfg (next_attempt msg cnt)) \<and>
     p = copy_of msg (retry_headers msg cause (next_attempt msg cnt))"
    unfolding proper_copy_def by blast
  have att: "attempts msg < 2147483648" "attempts msg + 1 < 2147483648 \<or> sint (MaxAttempts cfg) = 2147483648"
    using assms(4) max_attempts by auto
  let ?a = "next_attempt msg cnt"
  have a: "0 \<le> sint ?a" "- 2147483648 \<le> sint ?a" "sint ?a < 2147483648"
    using sint_next [OF assms(3) att(1), of cnt] att(2) assms(3) max_attempts by auto
  have d: "deployHeaderAttempt (dead_headers msg cause ?a) = ?a" "deployHeaderAttempt (retry_headers msg cause ?a) = ?a"
    by (rule header_attempt_dead [OF a(2,3)], rule header_attempt_retry [OF a(2,3)])
  show ?thesis
    using p a(1) retry_queue_declared [OF backoffs a(1)] declared
    by (auto simp: exists_queue_def message_of_def copy_of_def counted_def d)
qed

lemma copies_queued:
  assumes "C \<subseteq># tried (delivered c (delivery_of m A N) w)" "dc_cfg c = cfg" "attempts_inv cfg b"
    "(AppDeployQueue cfg, m) \<in># bk_queues b" "(q, m') \<in># C"
  shows "exists_queue cfg q \<and> ms_Body m' = ms_Body m \<and> 0 \<le> counted m' \<and>
     (q = DLQ cfg \<or> counted m' < sint (MaxAttempts cfg))"
proof -
  have "(q, m') \<in># tried (delivered c (delivery_of m A N) w)" using assms(1,5) by (rule mset_subset_eqD)
  then obtain p r where p: "PublishedCopy q p r \<in> set (delivered c (delivery_of m A N) w)" "m' = message_of p"
    using tried_iff by blast
  have "0 \<le> counted m" "counted m = 0 \<or> counted m < sint (MaxAttempts cfg)"
    using assms(3,4) dlq_apart(1) by (auto simp: attempts_inv_def)
  then show ?thesis using proper_copy_queued [OF delivered_proper [OF p(1)] assms(2)] p(2) by auto
qed

lemma routed_all:
  assumes "\<And>q m'. (q, m') \<in># C \<Longrightarrow> exists_queue cfg q"
  shows "routed cfg C = C"
  unfolding routed_def using assms by (intro filter_mset_eq_conv [THEN iffD2]) auto

lemma attempts_inv_step:
  assumes "broker_step workers cfg b b'" "crew workers cfg" "attempts_inv cfg b"
  shows "attempts_inv cfg b'"
  using assms(1)
proof cases
  case (arrive m)
  then have "counted m = 0" by (simp add: counted_def deployHeaderAttempt_def)
  then show ?thesis using arrive assms(3) by (auto simp: attempts_inv_def exists_queue_def)
next
  case (expire q m m')
  have "counted m' = counted m" using expire(4) by (simp add: counted_def deployHeaderAttempt_def same_message_def)
  then have "0 \<le> counted m'" "counted m' = 0 \<or> counted m' < sint (MaxAttempts cfg)"
    using assms(3) expire(2,3) dlq_apart(2) by (auto simp: attempts_inv_def)
  then show ?thesis using expire(1) assms(3) by (auto simp: attempts_inv_def exists_queue_def dest!: in_diffD)
next
  case (deliver m c A N w t s C gone)
  have "C \<subseteq># tried (delivered c (delivery_of m A N) w)" using deliver(4,6) by (simp add: subset_mset.add_increasing2)
  note q = copies_queued [OF this _ assms(3) deliver(2)]
  show ?thesis
    using q assms(2,3) deliver(1,3) by (fastforce simp: attempts_inv_def settle_def crew_def routed_def dest!: in_diffD)
next
  case (crash m c C A N w)
  note q = copies_queued [OF crash(4) _ assms(3) crash(2)]
  show ?thesis using q assms(2,3) crash(1,3) by (fastforce simp: attempts_inv_def crew_def routed_def)
qed

lemma kept_inv_step:
  assumes "broker_step workers cfg b b'" "crew workers cfg" "attempts_inv cfg b" "kept_inv cfg b"
  shows "kept_inv cfg b'"
  using assms(1)
proof cases
  case (arrive m)
  then show ?thesis using assms(4) by (auto simp: kept_inv_def bodies_def)
next
  case (expire q m m')
  obtain Q where "bk_queues b = add_mset (q, m) Q" using expire(2) by (metis multi_member_split)
  moreover have "ms_Body m' = ms_Body m" using expire(4) by (simp add: same_message_def)
  ultimately show ?thesis using expire(1) assms(4) by (auto simp: kept_inv_def bodies_def)
next
  case (crash m c C A N w)
  then show ?thesis using assms(4) by (auto simp: kept_inv_def bodies_def intro: subset_mset.order_trans)
next
  case (deliver m c A N w t s C gone)
  let ?W = "AppDeployQueue cfg"
  have c: "dc_cfg c = cfg" "dc_ch c" using assms(2) deliver(3) by (auto simp: crew_def)
  have "C \<subseteq># tried (delivered c (delivery_of m A N) w)" using deliver(4,6) by (simp add: subset_mset.add_increasing2)
  note q = copies_queued [OF this c(1) assms(3) deliver(2)]
  have r: "routed cfg C = C" by (rule routed_all) (use q in blast)
  note ends = delivered_ends [OF deliver(4) c(2)]
  show ?thesis
  proof (cases gone)
    case False
    then show ?thesis using assms(4) deliver(1) r
      by (auto simp: kept_inv_def bodies_def settle_def intro: subset_mset.order_trans)
  next
    case True
    obtain Q where Q: "bk_queues b = add_mset (?W, m) Q" using deliver(2) by (metis multi_member_split)
    show ?thesis
    proof (cases "confirmed t = {#}")
      case e: True
      have "done_well cfg (t @ [s])"
        using ends e True deliver(7) c(1) by (auto simp: done_well_def)
      then show ?thesis using assms(4) deliver(1) r Q True e
        by (auto simp: kept_inv_def bodies_def settle_def intro: subset_mset.order_trans)
    next
      case False
      then obtain q' m' where m': "(q', m') \<in># C" using deliver(5) by (metis multiset_nonemptyE mset_subset_eqD surj_pair)
      then obtain C' where C': "C = add_mset (q', m') C'" by (metis multi_member_split)
      show ?thesis using assms(4) deliver(1) r Q True False q [OF m'] C'
        by (auto simp: kept_inv_def bodies_def settle_def intro: subset_mset.order_trans)
    qed
  qed
qed

lemma broker_invariants:
  assumes "rabbit\<^sup>*\<^sup>* empty_broker b" "documented workers cfg rabbit" "crew workers cfg"
  shows "attempts_inv cfg b \<and> kept_inv cfg b"
  using assms(1)
proof (induction rule: rtranclp_induct)
  case base
  then show ?case by (simp add: attempts_inv_def kept_inv_def bodies_def empty_broker_def)
next
  case (step b b')
  then show ?case using attempts_inv_step kept_inv_step assms(2,3) unfolding documented_def by blast
qed

lemma retry_queue_in:
  assumes "0 \<le> sint a"
  shows "retry_queue cfg (retry_index cfg a) \<in> set (retry_queues cfg)"
proof -
  let ?q = "retry_queue cfg (retry_index cfg a)"
  let ?cfg = "cfg\<lparr>DLQ := CHR ''x'' # ?q\<rparr>"
  have same: "retry_index ?cfg = retry_index cfg" "retry_queue ?cfg = retry_queue cfg"
    by (simp_all add: fun_eq_iff retry_index_def retry_queue_def)
  have "?q \<in> set (declared_queues ?cfg)" using retry_queue_declared [of ?cfg a] backoffs assms same by simp
  moreover have "retry_queues ?cfg = retry_queues cfg" "declared_queues ?cfg = DLQ ?cfg # retry_queues ?cfg"
    using backoffs by (simp_all add: retry_queues_def declared_queues_eq)
  ultimately show ?thesis by simp
qed

text \<open>Where a failing message is after one delivery.\<close>

lemma failing_step:
  assumes "keeps_failing c (ms_Body m)" "dc_ch c" "dc_cfg c = cfg" "0 \<le> counted m" "counted m < sint (MaxAttempts cfg)"
    "moves_on c cfg expiry (AppDeployQueue cfg, m) (q, m')"
  shows "counted m' = counted m + 1 \<and> ms_Body m' = ms_Body m \<and>
     (if counted m + 1 = sint (MaxAttempts cfg) then q = DLQ cfg else q \<in> set (retry_queues cfg))"
  using assms(6)
proof cases
  case (delivered_copy N w t)
  let ?msg = "delivery_of m (\<lambda>multiple e. (None, e)) N"
  obtain err where e: "(q, m') = retry_copy cfg ?msg err"
    using failing_delivery [OF assms(1,2), of N w] delivered_copy assms(3) by auto
  let ?a = "next_attempt ?msg True"
  have a: "sint ?a = counted m + 1"
    using sint_int64_add_1 [of "deployHeaderAttempt (ms_Headers m)"] assms(5) max_attempts
    by (simp add: next_attempt_def counted_def)
  have r: "- 2147483648 \<le> sint ?a" "sint ?a < 2147483648" "0 \<le> sint ?a" using a assms(4,5) max_attempts by auto
  have d: "deployHeaderAttempt (dead_headers ?msg cause ?a) = ?a" "deployHeaderAttempt (retry_headers ?msg cause ?a) = ?a" for cause
    by (rule header_attempt_dead [OF r(1,2)], rule header_attempt_retry [OF r(1,2)])
  show ?thesis
    using e a assms(5) retry_queue_in [OF r(3)]
    by (auto simp: retry_copy_def Let_def message_of_def copy_of_def counted_def d split: if_splits)
next
  case expired
  then show ?thesis using work_apart by blast
qed

lemma failing_run:
  assumes "keeps_failing c (ms_Body m)" "dc_ch c" "dc_cfg c = cfg" "0 \<le> counted m"
    "sint (MaxAttempts cfg) = counted m + 1 + int k" "keeps_messages expiry"
  shows "(\<exists>p. (moves_on c cfg expiry ^^ (2 * k + 1)) (AppDeployQueue cfg, m) p) \<and>
     (\<forall>q m'. (moves_on c cfg expiry ^^ (2 * k + 1)) (AppDeployQueue cfg, m) (q, m') \<longrightarrow>
        q = DLQ cfg \<and> counted m' = sint (MaxAttempts cfg) \<and> ms_Body m' = ms_Body m)"
  using assms
proof (induction k arbitrary: m)
  case 0
  then have "sint (MaxAttempts cfg) = counted m + 1" by simp
  then show ?case using failing_moves [OF 0(1-3)] failing_step [OF 0(1-4)]
    by (simp add: eq_OO)
next
  case (Suc k)
  let ?R = "moves_on c cfg expiry" let ?W = "AppDeployQueue cfg"
  have split: "(?R ^^ (2 * Suc k + 1)) x z \<longleftrightarrow> (\<exists>y1 y2. ?R x y1 \<and> ?R y1 y2 \<and> (?R ^^ (2 * k + 1)) y2 z)" for x z
    using relpowp_two [of "2 * k + 1" ?R x z] by simp
  have step: "q1 \<in> set (retry_queues cfg) \<and> counted m1 = counted m + 1 \<and> ms_Body m1 = ms_Body m"
    if "?R (?W, m) (q1, m1)" for q1 m1
    using failing_step [OF Suc.prems(1-4) _ that] Suc.prems(5) by (auto split: if_splits)
  have wait: "q2 = ?W \<and> counted m2 = counted m1 \<and> ms_Body m2 = ms_Body m1"
    if "?R (q1, m1) (q2, m2)" "q1 \<in> set (retry_queues cfg)" for q1 m1 q2 m2
    using that work_apart Suc.prems(6)
    by (cases rule: moves_on.cases) (auto simp: counted_def deployHeaderAttempt_def same_message_def keeps_messages_def)
  have IH: "(\<exists>p. (?R ^^ (2 * k + 1)) (?W, m2) p) \<and> (\<forall>q m'. (?R ^^ (2 * k + 1)) (?W, m2) (q, m') \<longrightarrow>
      q = DLQ cfg \<and> counted m' = sint (MaxAttempts cfg) \<and> ms_Body m' = ms_Body m2)"
    if "counted m2 = counted m + 1" "ms_Body m2 = ms_Body m" for m2
    using Suc.IH [of m2] Suc.prems that by simp
  obtain q1 m1 where 1: "?R (?W, m) (q1, m1)" using failing_moves [OF Suc.prems(1-3), where expiry = expiry] by auto
  have 2: "?R (q1, m1) (?W, expiry q1 m1)" using step [OF 1] by (intro moves_on.expired) simp
  have "\<exists>p. (?R ^^ (2 * Suc k + 1)) (?W, m) p" unfolding split using 1 2 IH [of "expiry q1 m1"] step [OF 1] wait [OF 2] by metis
  moreover have "q = DLQ cfg \<and> counted m' = sint (MaxAttempts cfg) \<and> ms_Body m' = ms_Body m"
    if "(?R ^^ (2 * Suc k + 1)) (?W, m) (q, m')" for q m'
  proof -
    from that obtain q1 m1 q2 m2 where y: "?R (?W, m) (q1, m1)" "?R (q1, m1) (q2, m2)" "(?R ^^ (2 * k + 1)) (q2, m2) (q, m')"
      unfolding split by (metis surj_pair)
    then show ?thesis using step [OF y(1)] wait [OF y(2)] IH [of m2] by fastforce
  qed
  ultimately show ?case by blast
qed

end

end
