(* ===== verification/Broker_Props.thy ===== *)
theory Broker_Props
  imports Broker
begin

text \<open>
  The properties of the workers and the broker together, for the configurations that \<open>loadConfig\<close> makes when
  the names of the queues are kept apart: nothing is lost, retries stay bounded and in queues that exist,
  and a message that keeps failing ends among the dead letters.
\<close>

section \<open>The topology of a loaded configuration\<close>

text \<open>The names of the queues come from the environment; the code does not check that they differ.\<close>

definition queues_apart :: "config \<Rightarrow> bool" where
  "queues_apart cfg \<longleftrightarrow> DLQ cfg \<noteq> AppDeployQueue cfg \<and> DLQ cfg \<notin> set (retry_queues cfg) \<and>
     AppDeployQueue cfg \<notin> set (retry_queues cfg)"

definition topology_ok :: "config \<Rightarrow> bool" where
  "topology_ok cfg \<longleftrightarrow> RetryBackoffs cfg \<noteq> [] \<and> int (length (RetryBackoffs cfg)) < 9223372036854775807 \<and>
     sint (MaxAttempts cfg) < 2147483648 \<and> queues_apart cfg"

lemma topology_locale: "topology_ok cfg \<Longrightarrow> retry_topology cfg"
  by unfold_locales (auto simp: topology_ok_def queues_apart_def)

lemma loaded_topology:
  assumes "queues_apart (loadConfig env)" "int (length (env ''RETRY_BACKOFF_SCHEDULE'')) < 2 ^ 62"
  shows "topology_ok (loadConfig env)"
  using assms loaded_backoffs [of env] loaded_max_attempts [of env] by (simp add: topology_ok_def good_backoffs_def)

lemma three_retry_queues:
  "retry_queues default_config = map (\<lambda>n. ''shiply.app.deploy.retry.'' @ show_int n) [1..4]"
  by (simp add: retry_queues_def declared_queues_eq default_backoffs_def)

lemma default_apart: "queues_apart default_config"
proof -
  have "AppDeployQueue default_config = ''shiply.app.deploy''" by (simp add: loadConfig_def Let_def envOrDefault_def)
  then show ?thesis unfolding queues_apart_def three_retry_queues by auto
qed

interpretation default_topology: retry_topology default_config
  using loaded_topology [OF default_apart] by (intro topology_locale) simp

section \<open>Properties\<close>

text \<open>C4. No message is lost anywhere in the system. However workers crash, publications and settlements fail and
  messages expire, every body that arrived in the work queue is still in a queue, or its delivery ended in one of
  two ways: it was acknowledged right after its result, or the event that its rollout is pending, had been
  published without an error; or it was turned down for good, with no copy confirmed by the dead-letter queue.\<close>

theorem broker_loses_nothing:
  assumes "topology_ok cfg" "crew workers cfg" "documented workers cfg rabbit" "rabbit\<^sup>*\<^sup>* empty_broker b"
  shows "bk_arrived b \<subseteq># bodies b \<and> (\<forall>(m, t) \<in># bk_done b. \<exists>u s. t = u @ [s] \<and> confirmed u = {#} \<and>
     ((\<exists>r. s = Acked r) \<and> answered cfg u \<or> (\<exists>r. s = Nacked False r)))"
  using retry_topology.broker_invariants [OF topology_locale [OF assms(1)] assms(4,3,2)]
  by (auto simp: kept_inv_def done_well_def)

text \<open>C17. Every message in the system is in a queue that the workers have declared, so that the broker has never
  thrown a copy away, and outside the dead-letter queue it carries a number of attempts from zero to one less
  than the maximum, at 32 bits in the header.\<close>

theorem queued_attempts_bounded:
  assumes "topology_ok cfg" "crew workers cfg" "documented workers cfg rabbit" "rabbit\<^sup>*\<^sup>* empty_broker b" "(q, m) \<in># bk_queues b"
  shows "(q = AppDeployQueue cfg \<or> q \<in> set (declared_queues cfg)) \<and> 0 \<le> counted m \<and>
     (q = DLQ cfg \<or> counted m = 0 \<or> counted m < sint (MaxAttempts cfg))"
  using retry_topology.broker_invariants [OF topology_locale [OF assms(1)] assms(4,3,2)] assms(5)
  by (auto simp: attempts_inv_def exists_queue_def)

text \<open>C16. A message that keeps failing ends among the dead letters: when every attempt to handle it fails with an
  error that is not a busy lease, while the broker and the ledger accept its retries, then after exactly as
  many deliveries as the maximum allows, with one wait in a retry queue between two of them, it is in
  the dead-letter queue, with its body and the maximal number of attempts.\<close>

theorem failing_message_reaches_dead_letters:
  assumes "topology_ok cfg" "dc_cfg c = cfg" "dc_ch c" "keeps_failing c (ms_Body m)"
    "0 \<le> counted m" "counted m < sint (MaxAttempts cfg)" "keeps_messages expiry"
  defines "n \<equiv> 2 * nat (sint (MaxAttempts cfg) - counted m) - 1"
  shows "(\<exists>p. (moves_on c cfg expiry ^^ n) (AppDeployQueue cfg, m) p) \<and>
     (\<forall>q m'. (moves_on c cfg expiry ^^ n) (AppDeployQueue cfg, m) (q, m') \<longrightarrow>
        q = DLQ cfg \<and> counted m' = sint (MaxAttempts cfg) \<and> ms_Body m' = ms_Body m)"
proof -
  define k where "k = nat (sint (MaxAttempts cfg) - counted m - 1)"
  have k: "sint (MaxAttempts cfg) = counted m + 1 + int k" "n = 2 * k + 1" using assms(6) by (simp_all add: k_def n_def)
  show ?thesis
    unfolding k(2) by (rule retry_topology.failing_run [OF topology_locale [OF assms(1)] assms(4,3,2,5) k(1) assms(7)])
qed

section \<open>Witnesses\<close>

lemma sample_topology: "topology_ok sample_config"
proof -
  have "retry_queues sample_config = map (\<lambda>n. ''app.deploy.retry.'' @ show_int n) [1..2]"
    by (simp add: retry_queues_def declared_queues_eq sample_config_def)
  then have "queues_apart sample_config" unfolding queues_apart_def by (auto simp: sample_config_def)
  then show ?thesis by (simp add: topology_ok_def sample_config_def)
qed

text \<open>A message that arrives, is copied to a retry queue by a worker that finds the lease busy, and expires.\<close>

definition sample_message :: message where
  "sample_message = \<lparr>ms_Body = sample_body, ms_ContentType = ''application/json'', ms_Headers = Map.empty\<rparr>"

definition waiting_message :: message where
  "waiting_message = message_of (copy_of simple_delivery (retry_headers simple_delivery (Some OrchestrationLeaseBusy) 0))"

definition busy_broker :: broker where
  "busy_broker = \<lparr>bk_queues = {#(''app.deploy.retry.1'', waiting_message)#}, bk_arrived = {#sample_body#}, bk_done = {#}\<rparr>"

lemma sample_names [simp]: "AppDeployQueue sample_config = ''app.deploy''" "DLQ sample_config = ''app.deploy.dlq''"
  by (simp_all add: sample_config_def)

lemma simple_delivery_of: "simple_delivery = delivery_of sample_message (\<lambda>m e. (None, e)) (\<lambda>m q e. (None, e))"
  by (simp add: delivery_of_def sample_message_def sample_delivery_def)

lemma busy_delivered: "delivered (simple_consumer ClaimBusy) simple_delivery (world_at 0) =
  [Claimed ''d1'' (ClaimBusy, zero_record, None), PublishedCopy ''app.deploy.retry.1''
     (copy_of simple_delivery (retry_headers simple_delivery (Some OrchestrationLeaseBusy) 0)) None, Acked None]"
  by (simp add: delivered_def processDelivery_def handleMessage_accepted [OF sample_accepted] claim_stage_def
      sample_ledger_def call_def scheduleRetry_def ack_def log_def retry_headers_def deployCloneHeaders_def)

lemma retry_1_exists: "exists_queue sample_config ''app.deploy.retry.1''"
  using copies_declared [OF sample_busy_copy] by (simp add: exists_queue_def attempts_def) (simp add: sample_config_def)

lemma busy_reachable: "(broker_step {simple_consumer ClaimBusy} sample_config)\<^sup>*\<^sup>* empty_broker busy_broker"
proof -
  let ?step = "broker_step {simple_consumer ClaimBusy} sample_config"
  define b1 where "b1 = \<lparr>bk_queues = {#(''app.deploy'', sample_message)#}, bk_arrived = {#sample_body#}, bk_done = {#}\<rparr>"
  let ?C = "{#(''app.deploy.retry.1'', waiting_message)#}"
  let ?t = "[Claimed ''d1'' (ClaimBusy, zero_record, None), PublishedCopy ''app.deploy.retry.1''
     (copy_of simple_delivery (retry_headers simple_delivery (Some OrchestrationLeaseBusy) 0)) None]"
  have 1: "?step empty_broker b1"
    using broker_step.arrive [of sample_message "{simple_consumer ClaimBusy}" sample_config empty_broker]
    by (simp add: sample_message_def empty_broker_def b1_def)
  have d: "delivered (simple_consumer ClaimBusy) (delivery_of sample_message (\<lambda>m e. (None, e)) (\<lambda>m q e. (None, e)))
      (world_at 0) = ?t @ [Acked None]" using busy_delivered unfolding simple_delivery_of by simp
  have 2: "?step b1 (settle sample_config sample_message ?t (Acked None) ?C True b1)"
    by (rule broker_step.deliver [OF _ _ d]) (simp_all add: b1_def waiting_message_def)
  have r: "routed sample_config ?C = ?C" using retry_1_exists by (simp add: routed_def)
  have "settle sample_config sample_message ?t (Acked None) ?C True b1 = busy_broker"
    unfolding settle_def r by (simp add: b1_def busy_broker_def)
  then show ?thesis using 1 2 by (metis (no_types, lifting) rtranclp.simps)
qed

lemma step_documented: "documented workers cfg (broker_step workers cfg)"
  by (simp add: documented_def)

lemma busy_crew: "crew {simple_consumer ClaimBusy} sample_config"
  by (simp add: crew_def)

theorem broker_loses_nothing_witness: "{#sample_body#} \<subseteq># bodies busy_broker"
  using broker_loses_nothing [OF sample_topology busy_crew step_documented busy_reachable] by (simp add: busy_broker_def)

theorem queued_attempts_bounded_witness:
  "''app.deploy.retry.1'' \<in> set (declared_queues sample_config) \<and> 0 \<le> counted waiting_message"
  using queued_attempts_bounded [OF sample_topology busy_crew step_documented busy_reachable, of "''app.deploy.retry.1''" waiting_message]
  by (simp add: busy_broker_def)

text \<open>A worker whose database refuses every claim.\<close>

definition down_consumer :: "int deploy_consumer" where
  "down_consumer = sample_consumer ((sample_ledger ClaimAcquired zero_record)
     \<lparr>sl_Claim := (\<lambda>x dep st t e. ((ClaimAcquired, zero_record, Some (ErrorString ''down'')), e))\<rparr>) (\<lambda>e. 0)"

lemma down_consumer_simps [simp]:
  "dc_cfg down_consumer = sample_config" "dc_ch down_consumer" "dc_now down_consumer e = 0"
  "dc_publish down_consumer = Some (\<lambda>x ex rk ev e. (None, e))" "renewals down_consumer rn w = w"
  "publish_copy down_consumer x q p w = (None, w\<lparr>w_trace := w_trace w @ [PublishedCopy q p None]\<rparr>)"
  by (simp_all add: down_consumer_def)

lemma down_calls [simp]:
  "publishProgressEvent down_consumer rn x ex rk ev w = (None, w\<lparr>w_trace := w_trace w @ [PublishedProgress x ex rk ev None]\<rparr>)"
  "publishEvent down_consumer rn x ex rk ev w = (None, w\<lparr>w_trace := w_trace w @ [PublishedEvent x ex rk ev None]\<rparr>)"
  by (simp_all add: publishProgressEvent_def publishEvent_def call_def)

lemma down_ledger [simp]:
  "fst (ledger_Fail down_consumer rn x dep b w) = None" "dc_ledger down_consumer \<noteq> None"
  by (simp_all add: ledger_Fail_def call_def down_consumer_def sample_ledger_def)

lemma marshal_time_0: "marshal_time 0 \<noteq> None"
proof -
  have "civil_of_days 0 = (1970, 1, 1)" by code_simp
  then show ?thesis by (simp only: marshal_time_def Let_def div_0 case_prod_conv) simp
qed

lemma failure_marshals:
  "\<exists>s. marshal_any (FailedEvent (newDeployFailedEvent 0 event target err)) = Inr s"
  "\<exists>p. marshal_any (ProgressEvent (newOrchestrationFailedEvent 0 event target err)) = Inr p"
  using parse_timestamp [of 0] marshal_time_0
  by (auto simp: marshal_any_def service_event_json_def newDeployFailedEvent_def progress_json_def newOrchestrationFailedEvent_def)

lemma down_completeFailure: "\<exists>w'. completeFailure down_consumer rn event target err w = ((actionAck, Some err), w')"
proof -
  obtain s p where "marshal_any (FailedEvent (newDeployFailedEvent 0 event target err)) = Inr s"
    "marshal_any (ProgressEvent (newOrchestrationFailedEvent 0 event target err)) = Inr p"
    using failure_marshals by metis
  then obtain b where b: "makeDeployResultEvents (DeployFailedRoutingKey sample_config)
      (FailedEvent (newDeployFailedEvent 0 event target err)) (OrchestrationFailedRoutingKey sample_config)
      (ProgressEvent (newOrchestrationFailedEvent 0 event target err)) = (b, None)"
    by (simp add: makeDeployResultEvents_def)
  obtain w1 where "ledger_Fail down_consumer rn (timeout_ctx down_consumer w (15 * second)) (se_DeploymentID event) b w = (None, w1)"
    using down_ledger(1) by (metis prod.collapse)
  then show ?thesis using b by (simp add: completeFailure_def publish_failure_def Let_def)
qed

lemma down_schedules:
  assumes "dl_Body msg = sample_body"
  shows "fst (scheduleRetry down_consumer msg (Some err) True w) = None"
proof -
  have "\<exists>w'. emitExhausted down_consumer sample_body (Some err) w = (None, w')" for w
  proof -
    define tg where "tg = (case targetForRequest sample_config (deployRequestFromEvent sample_config sample_event) of
        Inl _ \<Rightarrow> zero_target | Inr t \<Rightarrow> t)"
    obtain w' where "completeFailure down_consumer None sample_event tg (exhausted_error (Some err)) w =
        ((actionAck, Some (exhausted_error (Some err))), w')" using down_completeFailure by blast
    then show ?thesis by (simp add: emitExhausted_def sample_unmarshal Let_def tg_def [symmetric])
  qed
  then obtain g where g: "\<And>w. emitExhausted down_consumer sample_body (Some err) w = (None, g w)" by metis
  have "\<exists>w'. releaseClaim down_consumer x sample_body w = (None, w')" for x w
    by (simp add: releaseClaim_def sample_unmarshal call_def down_consumer_def sample_ledger_def)
  then obtain r where r: "\<And>x w. releaseClaim down_consumer x sample_body w = (None, r x w)" by metis
  have "\<exists>w'. emitRetrying down_consumer sample_body a (Some err) w = (None, w')" for a w
    by (simp add: emitRetrying_def sample_unmarshal)
  then obtain h where h: "\<And>a w. emitRetrying down_consumer sample_body a (Some err) w = (None, h a w)" by metis
  show ?thesis by (simp add: scheduleRetry_def copyToDLQAttempt_def Let_def assms g r h)
qed

lemma down_keeps_failing: "keeps_failing down_consumer sample_body"
proof -
  have "accepted down_consumer sample_body = Some (sample_event, sample_request, sample_target)"
    unfolding down_consumer_def by (rule sample_accepted)
  from handleMessage_accepted [OF this]
  have "\<exists>err w'. handleMessage down_consumer sample_body w = ((actionNackRequeue, Some err), w') \<and> \<not> is_lease_busy err" for w
    by (simp add: claim_stage_def call_def down_consumer_def sample_ledger_def)
  then show ?thesis using sample_unmarshal down_schedules unfolding keeps_failing_def by blast
qed

theorem failing_message_reaches_dead_letters_witness:
  "\<exists>m'. (moves_on down_consumer sample_config (\<lambda>q m. m) ^^ 9) (''app.deploy'', sample_message) (''app.deploy.dlq'', m') \<and>
     counted m' = 5 \<and> ms_Body m' = sample_body"
proof -
  have m: "ms_Body sample_message = sample_body" "counted sample_message = 0"
    by (simp_all add: sample_message_def counted_def deployHeaderAttempt_def)
  have "keeps_messages (\<lambda>q m. m)" by (simp add: keeps_messages_def same_message_def)
  then show ?thesis
    using failing_message_reaches_dead_letters [OF sample_topology down_consumer_simps(1,2), of sample_message "\<lambda>q m. m"]
      down_keeps_failing m by (simp, metis surj_pair)
qed

end
