(* ===== verification/Completion.thy ===== *)
theory Completion
  imports Delivery
begin

text \<open>
  The good case from end to end: a worker over PostgreSQL whose surroundings answer without errors and in time.
  A new deployment is claimed, deployed, waited for, stored and published; and when its message is delivered
  again, the stored result is published once more and nothing is deployed.
\<close>

section \<open>Surroundings that answer in time\<close>

text \<open>A call of the world outside took at most \<open>L\<close> and left the table of the ledger alone.\<close>

definition passes :: "int \<Rightarrow> 'a \<times> pg_db \<Rightarrow> 'a \<times> pg_db \<Rightarrow> bool" where
  "passes L e e' \<longleftrightarrow> pg_clock (snd e) \<le> pg_clock (snd e') \<and> pg_clock (snd e') \<le> pg_clock (snd e) + L \<and>
     snd e' = (snd e)\<lparr>pg_clock := pg_clock (snd e')\<rparr>"

lemma passesD:
  assumes "passes L e e'"
  shows "pg_clock (snd e) \<le> pg_clock (snd e')" "pg_clock (snd e') \<le> pg_clock (snd e) + L"
  using assms unfolding passes_def by blast+

text \<open>The function that \<open>publishEvent\<close> and \<open>publishProgressEvent\<close> end up calling.\<close>

definition event_publisher :: "'e deploy_consumer \<Rightarrow> 'e publish_func" where
  "event_publisher c = (case dc_publish c of Some publish \<Rightarrow> publish | None \<Rightarrow> rp_PublishJSON (the (dc_pub c)))"

definition progress_publisher :: "'e deploy_consumer \<Rightarrow> 'e publish_func" where
  "progress_publisher c = (case dc_publish c of Some publish \<Rightarrow> publish | None \<Rightarrow> rp_PublishProgressJSON (the (dc_pub c)))"

text \<open>
  Events that can be marshalled are published within \<open>p\<close>, under a context that is not done; the condition \<open>Q\<close> of
  the rest of the world survives that.
\<close>

definition publishes :: "int \<Rightarrow> ('a \<Rightarrow> bool) \<Rightarrow> ('a \<times> pg_db) publish_func \<Rightarrow> bool" where
  "publishes p Q f \<longleftrightarrow> (\<forall>x ex rk ev j e. ctx_err (pg_clock (snd e)) x = None \<longrightarrow> marshal_any ev = Inr j \<longrightarrow>
     (\<exists>e'. f x ex rk ev e = (None, e') \<and> passes p e e' \<and> (Q (fst e) \<longrightarrow> Q (fst e'))))"

text \<open>
  How long things take at most: a publication \<open>tm_pub\<close>, the deployment \<open>tm_deploy\<close>, the rollout \<open>tm_wait\<close>, and the renewals
  beside one call \<open>tm_ticks\<close> statements of \<open>tm_stmt\<close>. The deadlines that the handler sets leave room for them.
\<close>

record timing =
  tm_pub :: int
  tm_deploy :: int
  tm_wait :: int
  tm_stmt :: int
  tm_ticks :: nat

definition renew_time :: "timing \<Rightarrow> int" where
  "renew_time tm = int (tm_ticks tm) * tm_stmt tm"

definition in_time :: "timing \<Rightarrow> config \<Rightarrow> bool" where
  "in_time tm cfg \<longleftrightarrow> tm_deploy tm + renew_time tm < 60 * second \<and>
     tm_wait tm + 3 * renew_time tm + tm_stmt tm + tm_pub tm < sint (RolloutTimeout cfg)"

definition total_time :: "timing \<Rightarrow> int" where
  "total_time tm = 3 * tm_stmt tm + 2 * tm_pub tm + tm_deploy tm + tm_wait tm + 4 * renew_time tm"

text \<open>
  Healthy surroundings: from a world in which \<open>Q0\<close> holds, say of the cluster, the deployment gets to one in which \<open>Q1\<close>
  holds, and there the rollout gets ready.
\<close>

definition healthy ::
  "timing \<Rightarrow> ('a \<times> pg_db) deploy_consumer \<Rightarrow> deploy_request \<Rightarrow> deployment_target \<Rightarrow> ('a \<Rightarrow> bool) \<Rightarrow> ('a \<Rightarrow> bool) \<Rightarrow> bool" where
  "healthy tm c request tg Q0 Q1 \<longleftrightarrow>
     dc_ledger c = Some (beside postgresLedger) \<and> dc_now c = (\<lambda>e. pg_clock (snd e)) \<and>
     (\<forall>d e. dc_ticks c d e \<le> tm_ticks tm) \<and> (dc_publish c = None \<longrightarrow> dc_pub c \<noteq> None) \<and> in_time tm (dc_cfg c) \<and>
     publishes (tm_pub tm) Q1 (event_publisher c) \<and> publishes (tm_pub tm) Q1 (progress_publisher c) \<and>
     publishes (tm_pub tm) Q0 (progress_publisher c) \<and>
     (\<forall>x e. ctx_err (pg_clock (snd e)) x = None \<longrightarrow> Q0 (fst e) \<longrightarrow>
        (\<exists>e'. dm_Deploy (dc_deployer c) x request e = ((tg, None), e') \<and> passes (tm_deploy tm) e e' \<and> Q1 (fst e'))) \<and>
     (\<forall>x e. ctx_err (pg_clock (snd e)) x = None \<longrightarrow> ctx_deadline x \<noteq> None \<longrightarrow> Q1 (fst e) \<longrightarrow>
        (\<exists>e'. dm_WaitForRollout (dc_deployer c) x tg e = (None, e') \<and> passes (tm_wait tm) e e' \<and> Q1 (fst e')))"

lemma healthyD:
  assumes "healthy tm c request tg Q0 Q1"
  shows "dc_ledger c = Some (beside postgresLedger)" "dc_now c = (\<lambda>e. pg_clock (snd e))" "dc_ticks c d e \<le> tm_ticks tm"
    "dc_publish c = None \<longrightarrow> dc_pub c \<noteq> None" "publishes (tm_pub tm) Q1 (event_publisher c)"
    "publishes (tm_pub tm) Q1 (progress_publisher c)" "in_time tm (dc_cfg c)"
    "ctx_err (pg_clock (snd e')) x = None \<Longrightarrow> Q0 (fst e') \<Longrightarrow>
       \<exists>e''. dm_Deploy (dc_deployer c) x request e' = ((tg, None), e'') \<and> passes (tm_deploy tm) e' e'' \<and> Q1 (fst e'')"
    "ctx_err (pg_clock (snd e')) x = None \<Longrightarrow> ctx_deadline x \<noteq> None \<Longrightarrow> Q1 (fst e') \<Longrightarrow>
       \<exists>e''. dm_WaitForRollout (dc_deployer c) x tg e' = (None, e'') \<and> passes (tm_wait tm) e' e'' \<and> Q1 (fst e'')"
    "publishes (tm_pub tm) Q0 (progress_publisher c)"
  using assms unfolding healthy_def by blast+

lemma publisher_calls:
  assumes "dc_publish c = None \<longrightarrow> dc_pub c \<noteq> None"
  shows "publishProgressEvent c rn x ex rk ev w =
      call c rn (PublishedProgress x ex rk ev) (progress_publisher c x ex rk ev) w"
    "publishEvent c rn x ex rk ev w = call c rn (PublishedEvent x ex rk ev) (event_publisher c x ex rk ev) w"
  using assms
  by (auto simp: publishProgressEvent_def progress_publisher_def publishEvent_def publishJSONEvent_def event_publisher_def
      split: option.splits)

section \<open>The ledger while the stage runs\<close>

text \<open>A server without faults, and how it writes jsonb values (\<open>J\<close>).\<close>

definition good_server :: "timing \<Rightarrow> (string \<Rightarrow> go_error + string) \<Rightarrow> pg_db \<Rightarrow> bool" where
  "good_server tm J db \<longleftrightarrow> pg_fault db = (\<lambda>n. None) \<and> (\<forall>n. int (pg_delay db n) \<le> tm_stmt tm) \<and> pg_jsonb db = J"

abbreviation row_of :: "string \<Rightarrow> pg_db \<Rightarrow> pg_row option" where
  "row_of dep db \<equiv> pg_rows db (dep, ''orchestration'')"

definition running_row :: "pg_row option \<Rightarrow> bool" where
  "running_row r \<longleftrightarrow> (\<exists>lease. r = Some \<lparr>row_state = StateInProgress, row_attempt = 1, row_lease = lease, row_result = None\<rparr>)"

definition in_progress :: "timing \<Rightarrow> (string \<Rightarrow> go_error + string) \<Rightarrow> string \<Rightarrow> 'a \<times> pg_db \<Rightarrow> bool" where
  "in_progress tm J dep e \<longleftrightarrow> good_server tm J (snd e) \<and> running_row (row_of dep (snd e))"

lemma stmt_time: "good_server tm J db \<Longrightarrow> 0 \<le> tm_stmt tm"
  by (auto simp: good_server_def intro: order_trans [of 0 "int (pg_delay db 0)"])

lemma fresh_claim:
  assumes "good_server tm J db" "row_of dep db = None"
  shows "\<exists>rec db'. pg_Claim background dep ''orchestration'' d db = ((ClaimAcquired, rec, None), db') \<and>
     good_server tm J db' \<and> running_row (row_of dep db') \<and> pg_clock db \<le> pg_clock db' \<and> pg_clock db' \<le> pg_clock db + 3 * tm_stmt tm"
proof -
  have f: "pg_fault db n = None" "int (pg_delay db n) \<le> tm_stmt tm" for n using assms(1) by (simp_all add: good_server_def)
  have "int (pg_delay db (pg_count db)) + (int (pg_delay db (Suc (pg_count db))) + int (pg_delay db (Suc (Suc (pg_count db))))) \<le>
     3 * tm_stmt tm"
    using f(2) [of "pg_count db"] f(2) [of "Suc (pg_count db)"] f(2) [of "Suc (Suc (pg_count db))"] by linarith
  then show ?thesis using assms
    by (auto simp: pg_Claim_def pg_stmt_def sql_insert_def pg_commit_def pg_rollback_def pg_tick_def Let_def f(1)
        good_server_def running_row_def)
qed

lemma renew_progress:
  assumes "in_progress tm J dep e" "sl_Renew (beside postgresLedger) background dep ''orchestration'' d e = (r, e')"
  shows "in_progress tm J dep e' \<and> fst e' = fst e \<and> pg_clock (snd e) \<le> pg_clock (snd e') \<and>
    pg_clock (snd e') \<le> pg_clock (snd e) + tm_stmt tm"
proof -
  have f: "pg_fault (snd e) n = None" "int (pg_delay (snd e) n) \<le> tm_stmt tm" for n
    using assms(1) by (simp_all add: in_progress_def good_server_def)
  show ?thesis
    using assms f(2) [of "pg_count (snd e)"]
    by (auto simp: beside_simps with_db_eq pg_Renew_def pg_exec_def pg_stmt_def sql_update_def pg_tick_def f(1)
        in_progress_def good_server_def running_row_def attempt_check_def dest!: sym [of _ "snd e'"] split: if_splits)
qed

lemma complete_progress:
  assumes "in_progress tm J dep e" "ctx_err (pg_clock (snd e)) x = None" "J (json_text (bundle_json b)) = Inr j"
  shows "\<exists>e'. sl_Complete (beside postgresLedger) x dep ''orchestration'' b e = (None, e') \<and>
     row_of dep (snd e') = Some \<lparr>row_state = StateCompleted, row_attempt = 1, row_lease = None, row_result = Some j\<rparr> \<and>
     fst e' = fst e \<and>
     good_server tm J (snd e') \<and> pg_clock (snd e) \<le> pg_clock (snd e') \<and> pg_clock (snd e') \<le> pg_clock (snd e) + tm_stmt tm"
proof -
  have f: "pg_fault (snd e) n = None" "int (pg_delay (snd e) n) \<le> tm_stmt tm" for n
    using assms(1) by (simp_all add: in_progress_def good_server_def)
  show ?thesis
    using assms f(2) [of "pg_count (snd e)"]
    by (auto simp: beside_simps with_db_def pg_Complete_def pg_set_def pg_exec_def pg_stmt_def sql_update_def pg_tick_def f(1)
        in_progress_def good_server_def running_row_def attempt_check_def)
qed

text \<open>The stage when its result is stored.\<close>

definition finished :: "timing \<Rightarrow> (string \<Rightarrow> go_error + string) \<Rightarrow> string \<Rightarrow> pg_row \<Rightarrow> 'a \<times> pg_db \<Rightarrow> bool" where
  "finished tm J dep r e \<longleftrightarrow> good_server tm J (snd e) \<and> row_of dep (snd e) = Some r \<and> terminal r"

lemma renew_finished:
  assumes "finished tm J dep r e" "sl_Renew (beside postgresLedger) background dep ''orchestration'' d e = (res, e')"
  shows "finished tm J dep r e' \<and> fst e' = fst e \<and> pg_clock (snd e) \<le> pg_clock (snd e') \<and>
    pg_clock (snd e') \<le> pg_clock (snd e) + tm_stmt tm"
proof -
  have f: "pg_fault (snd e) n = None" "int (pg_delay (snd e) n) \<le> tm_stmt tm" for n
    using assms(1) by (simp_all add: finished_def good_server_def)
  have rn: "pg_Renew background dep ''orchestration'' d (snd e) = (res, snd e')"
    using assms(2) by (simp add: beside_simps with_db_eq)
  have "pg_rows (snd e') = pg_rows (snd e)" using pg_Renew_terminal [OF _ _ rn] assms(1) by (auto simp: finished_def)
  moreover have "good_server tm J (snd e')" "pg_clock (snd e) \<le> pg_clock (snd e')"
    using pg_exec_effect [OF rn [unfolded pg_Renew_def]] assms(1) by (auto simp: pg_same_def finished_def good_server_def)
  moreover have "pg_clock (snd e') \<le> pg_clock (snd e) + tm_stmt tm"
    using rn f(2) [of "pg_count (snd e)"]
    by (auto simp: pg_Renew_def pg_exec_def pg_stmt_def sql_update_def pg_tick_def f(1) dest!: sym [of _ "snd e'"]
        split: if_splits option.splits)
  moreover have "fst e' = fst e" using assms(2) by (simp add: beside_simps with_db_eq)
  ultimately show ?thesis using assms(1) by (simp add: finished_def)
qed

section \<open>Calls that a condition of the ledger survives\<close>

abbreviation time :: "('a \<times> pg_db) world \<Rightarrow> int" where
  "time w \<equiv> pg_clock (snd (w_ext w))"

locale steady_ledger =
  fixes tm :: timing and dep :: string and P :: "'a \<times> pg_db \<Rightarrow> bool"
  assumes renew: "P e \<Longrightarrow> sl_Renew (beside postgresLedger) background dep ''orchestration'' d e = (r, e') \<Longrightarrow>
      P e' \<and> fst e' = fst e \<and> pg_clock (snd e) \<le> pg_clock (snd e') \<and> pg_clock (snd e') \<le> pg_clock (snd e) + tm_stmt tm"
    and passes: "P e \<Longrightarrow> passes L e e' \<Longrightarrow> P e'"
begin

lemma renew_ticks_steady:
  assumes "P (w_ext w)"
  shows "P (w_ext (renew_ticks c (beside postgresLedger) dep n w)) \<and>
    fst (w_ext (renew_ticks c (beside postgresLedger) dep n w)) = fst (w_ext w) \<and>
    time w \<le> time (renew_ticks c (beside postgresLedger) dep n w) \<and>
    time (renew_ticks c (beside postgresLedger) dep n w) \<le> time w + int n * tm_stmt tm"
  using assms
proof (induction n arbitrary: w)
  case (Suc n)
  obtain r e' where r: "sl_Renew (beside postgresLedger) background dep ''orchestration'' (LeaseDuration (dc_cfg c)) (w_ext w) = (r, e')"
    by (metis surj_pair)
  note one = renew [OF Suc.prems r]
  show ?case using Suc.IH [of "\<lparr>w_ext = e', w_trace = w_trace w @ [Renewed dep]\<rparr>"] one r by (simp add: algebra_simps)
qed simp

lemma renewals_steady:
  assumes "P (w_ext w)" "healthy tm c request tg Q0 Q1" "rn = None \<or> rn = Some dep" "0 \<le> tm_stmt tm"
  shows "P (w_ext (renewals c rn w)) \<and> fst (w_ext (renewals c rn w)) = fst (w_ext w) \<and>
    time w \<le> time (renewals c rn w) \<and> time (renewals c rn w) \<le> time w + renew_time tm"
proof -
  note h = healthyD(1,3) [OF assms(2)]
  let ?n = "dc_ticks c (renew_interval (dc_cfg c)) (w_ext w)"
  have "int ?n * tm_stmt tm \<le> renew_time tm" unfolding renew_time_def using h(2) assms(4) by (simp add: mult_right_mono)
  moreover have "0 \<le> renew_time tm" using assms(4) by (simp add: renew_time_def)
  ultimately show ?thesis
    using renew_ticks_steady [OF assms(1), of c ?n] assms(1,3) by (auto simp: renewals_def h(1))
qed

lemma call_steady:
  assumes "f (w_ext w) = (r, e)" "P e" "time w \<le> pg_clock (snd e)" "pg_clock (snd e) \<le> time w + L"
    "healthy tm c request tg Q0 Q1" "rn = None \<or> rn = Some dep" "0 \<le> tm_stmt tm" "\<not> is_renewal (nt r)"
  shows "\<exists>w'. call c rn nt f w = (r, w') \<and> log w' = log w @ [nt r] \<and> P (w_ext w') \<and>
    fst (w_ext w') = fst e \<and> time w \<le> time w' \<and> time w' \<le> time w + L + renew_time tm"
proof -
  let ?v = "\<lparr>w_ext = e, w_trace = w_trace w @ [nt r]\<rparr>"
  have c: "call c rn nt f w = (r, renewals c rn ?v)" by (simp add: call_def assms(1))
  have "P (w_ext ?v)" using assms(2) by simp
  note s = renewals_steady [OF this assms(5-7)]
  show ?thesis using c call_log [OF c assms(8)] s assms(3,4) by auto
qed

lemma progress_steady:
  assumes "P (w_ext w)" "healthy tm c request tg Q0 Q1" "rn = None \<or> rn = Some dep" "0 \<le> tm_stmt tm"
    "ctx_err (time w) x = None" "marshal_any ev = Inr j" "publishes (tm_pub tm) Q (progress_publisher c)" "Q (fst (w_ext w))"
  shows "\<exists>w'. publishProgressEvent c rn x ex rk ev w = (None, w') \<and> log w' = log w @ [PublishedProgress x ex rk ev None] \<and>
    P (w_ext w') \<and> Q (fst (w_ext w')) \<and> time w \<le> time w' \<and> time w' \<le> time w + tm_pub tm + renew_time tm"
proof -
  obtain e' where e: "progress_publisher c x ex rk ev (w_ext w) = (None, e')" "passes (tm_pub tm) (w_ext w) e'" "Q (fst e')"
    using assms(5-8) unfolding publishes_def by blast
  from call_steady [where f = "progress_publisher c x ex rk ev" and nt = "PublishedProgress x ex rk ev",
      OF e(1) passes [OF assms(1) e(2)] passesD [OF e(2)] assms(2-4)] show ?thesis
    unfolding publisher_calls [OF healthyD(4) [OF assms(2)]] using e(3) by fastforce
qed

lemma event_steady:
  assumes "P (w_ext w)" "healthy tm c request tg Q0 Q1" "rn = None \<or> rn = Some dep" "0 \<le> tm_stmt tm"
    "ctx_err (time w) x = None" "marshal_any ev = Inr j" "publishes (tm_pub tm) Q (event_publisher c)" "Q (fst (w_ext w))"
  shows "\<exists>w'. publishEvent c rn x ex rk ev w = (None, w') \<and> log w' = log w @ [PublishedEvent x ex rk ev None] \<and>
    P (w_ext w') \<and> Q (fst (w_ext w')) \<and> time w \<le> time w' \<and> time w' \<le> time w + tm_pub tm + renew_time tm"
proof -
  obtain e' where e: "event_publisher c x ex rk ev (w_ext w) = (None, e')" "passes (tm_pub tm) (w_ext w) e'" "Q (fst e')"
    using assms(5-8) unfolding publishes_def by blast
  from call_steady [where f = "event_publisher c x ex rk ev" and nt = "PublishedEvent x ex rk ev",
      OF e(1) passes [OF assms(1) e(2)] passesD [OF e(2)] assms(2-4)] show ?thesis
    unfolding publisher_calls [OF healthyD(4) [OF assms(2)]] using e(3) by fastforce
qed

end

lemma passes_server:
  assumes "passes L e e'"
  shows "good_server tm J (snd e') = good_server tm J (snd e)" "pg_rows (snd e') = pg_rows (snd e)"
proof -
  obtain t where "snd e' = (snd e)\<lparr>pg_clock := t\<rparr>" using assms unfolding passes_def by blast
  then show "good_server tm J (snd e') = good_server tm J (snd e)" "pg_rows (snd e') = pg_rows (snd e)"
    by (simp_all add: good_server_def)
qed

interpretation running: steady_ledger tm dep "in_progress tm J dep" for tm J dep
proof (unfold_locales, goal_cases)
  case (1 e d r e')
  then show ?case by (rule renew_progress)
next
  case (2 e L e')
  then show ?case using passes_server [OF 2(2)] by (simp add: in_progress_def)
qed

interpretation stored: steady_ledger tm dep "finished tm J dep r" for tm J dep r
proof (unfold_locales, goal_cases)
  case (1 e d res e')
  then show ?case by (rule renew_finished)
next
  case (2 e L e')
  then show ?case using passes_server [OF 2(2)] by (simp add: finished_def)
qed

section \<open>A stage that runs to its end\<close>

lemma progress_marshals: "marshal_time (de_Timestamp ev) \<noteq> None \<Longrightarrow> \<exists>j. marshal_any (ProgressEvent ev) = Inr j"
  by (auto simp: marshal_any_def progress_json_def)

lemma event_times [simp]:
  "de_Timestamp (newOrchestrationStartedEvent now event) = now"
  "de_Timestamp (newOrchestrationDeployedEvent now event tg) = now"
  "de_Timestamp (newOrchestrationRunningEvent now event tg) = now"
  by (simp_all add: newOrchestrationStartedEvent_def newOrchestrationDeployedEvent_def newOrchestrationRunningEvent_def)

lemma success_marshals:
  assumes "marshal_time now \<noteq> None"
  shows "\<exists>s p. marshal_any (SucceededEvent (newDeploySucceededEvent now event tg)) = Inr s \<and>
     marshal_any (ProgressEvent (newOrchestrationRunningEvent now event tg)) = Inr p"
  using parse_timestamp [of now] progress_marshals [of "newOrchestrationRunningEvent now event tg"] assms
  by (auto simp: marshal_any_def service_event_json_def newDeploySucceededEvent_def)

text \<open>The row that a success leaves.\<close>

definition completed_row :: "string \<Rightarrow> pg_row" where
  "completed_row j = \<lparr>row_state = StateCompleted, row_attempt = 1, row_lease = None, row_result = Some j\<rparr>"

lemma success_completes:
  assumes h: "healthy tm c request tg Q0 Q1" and P: "in_progress tm J (se_DeploymentID event) (w_ext w)"
    and x: "\<forall>t. t \<le> time w + 2 * renew_time tm + tm_stmt tm + tm_pub tm \<longrightarrow> ctx_err t x = None"
    and now: "marshal_time (time w) \<noteq> None" and J: "\<forall>s. \<exists>j. J s = Inr j" and times: "0 \<le> tm_pub tm"
    and Q: "Q1 (fst (w_ext w))"
  shows "\<exists>b j w'. publishRolloutSuccess c (Some (se_DeploymentID event)) event tg x w = ((actionAck, None), w') \<and>
     success_bundle (dc_cfg c) (success_events (time w) event tg) = (b, None) \<and> J (json_text (bundle_json b)) = Inr j \<and>
     log w' = log w @ map (\<lambda>f. f None) (success_script c x (se_DeploymentID event) (success_events (time w) event tg)) \<and>
     finished tm J (se_DeploymentID event) (completed_row j) (w_ext w') \<and> Q1 (fst (w_ext w'))"
proof -
  let ?dep = "se_DeploymentID event" let ?rn = "Some (se_DeploymentID event)" let ?cfg = "dc_cfg c"
  let ?s = "SucceededEvent (newDeploySucceededEvent (time w) event tg)"
  let ?p = "ProgressEvent (newOrchestrationRunningEvent (time w) event tg)"
  have R: "0 \<le> tm_stmt tm" "0 \<le> renew_time tm"
    using P stmt_time [of tm J] by (auto simp: in_progress_def renew_time_def)
  obtain s p where m: "marshal_any ?s = Inr s" "marshal_any ?p = Inr p" using success_marshals [OF now] by blast
  then obtain b where b: "success_bundle ?cfg (success_events (time w) event tg) = (b, None)"
    by (auto simp: success_bundle_def success_events_def makeDeployResultEvents_def)
  then have bd: "makeDeployResultEvents (DeploySucceededRoutingKey ?cfg) ?s (OrchestrationRunningRoutingKey ?cfg) ?p = (b, None)"
    by (simp add: success_bundle_def success_events_def)
  obtain j where j: "J (json_text (bundle_json b)) = Inr j" using J by blast
  let ?P = "finished tm J ?dep (completed_row j)"
  have "ctx_err (time w) x = None" using x R times by simp
  from complete_progress [OF P this j] obtain e where e: "sl_Complete (beside postgresLedger) x ?dep ''orchestration'' b (w_ext w) = (None, e)"
    "?P e" "time w \<le> pg_clock (snd e)" "pg_clock (snd e) \<le> time w + tm_stmt tm" and fe: "fst e = fst (w_ext w)"
    by (auto simp: finished_def completed_row_def terminal_def)
  from stored.call_steady [where f = "sl_Complete (beside postgresLedger) x ?dep ''orchestration'' b" and rn = ?rn and
      nt = "CompletedStage x ?dep b", OF e h _ R(1)] obtain w1 where
    w1: "ledger_Complete c ?rn x ?dep b w = (None, w1)" "log w1 = log w @ [CompletedStage x ?dep b None]" "?P (w_ext w1)"
      "time w \<le> time w1" "time w1 \<le> time w + tm_stmt tm + renew_time tm" and q1: "Q1 (fst (w_ext w1))"
    using Q fe by (auto simp: ledger_Complete_def healthyD(1) [OF h])
  have "ctx_err (time w1) x = None" using x w1(5) R times by simp
  from stored.event_steady [where rn = ?rn, OF w1(3) h _ R(1) this m(1) healthyD(5) [OF h] q1] obtain w2 where
    w2: "publishEvent c ?rn x (RabbitMQExchange ?cfg) (DeploySucceededRoutingKey ?cfg) ?s w1 = (None, w2)"
      "log w2 = log w1 @ [PublishedEvent x (RabbitMQExchange ?cfg) (DeploySucceededRoutingKey ?cfg) ?s None]" "?P (w_ext w2)"
      "time w2 \<le> time w1 + tm_pub tm + renew_time tm" and q2: "Q1 (fst (w_ext w2))" by blast
  have "ctx_err (time w2) x = None" using x w1(5) w2(4) by simp
  from stored.progress_steady [where rn = ?rn, OF w2(3) h _ R(1) this m(2) healthyD(6) [OF h] q2] obtain w3 where
    w3: "publishProgressEvent c ?rn x (DeploymentExchange ?cfg) (OrchestrationRunningRoutingKey ?cfg) ?p w2 = (None, w3)"
      "log w3 = log w2 @ [PublishedProgress x (DeploymentExchange ?cfg) (OrchestrationRunningRoutingKey ?cfg) ?p None]"
      "?P (w_ext w3)" and q3: "Q1 (fst (w_ext w3))" by blast
  have "publishRolloutSuccess c ?rn event tg x w = ((actionAck, None), w3)"
    using bd w1(1) w2(1) w3(1) by (simp add: publishRolloutSuccess_def Let_def healthyD(2) [OF h])
  moreover have "log w3 = log w @ map (\<lambda>f. f None) (success_script c x ?dep (success_events (time w) event tg))"
    using w1(2) w2(2) w3(2) b by (simp add: success_script_def Let_def healthyD(1) [OF h]) (simp add: success_events_def)
  ultimately show ?thesis using b j w3(3) q3 by blast
qed

text \<open>The calls of a stage that succeeds at the first attempt.\<close>

definition stage_script ::
  "'e deploy_consumer \<Rightarrow> build_payload service_event \<Rightarrow> deploy_request \<Rightarrow> deployment_target \<Rightarrow> int \<Rightarrow> effect list \<Rightarrow> bool" where
  "stage_script c event request tg now t \<longleftrightarrow> (\<exists>x1 n1 x2 n2 x3.
     t = [started_note c x1 n1 event None, Deployed request (tg, None), deployed_note c x2 n2 event tg None, Waited x3 tg None] @
         map (\<lambda>f. f None) (success_script c x3 (se_DeploymentID event) (success_events now event tg)))"

lemma stage_completes:
  assumes h: "healthy tm c request tg Q0 Q1" and P: "in_progress tm J (se_DeploymentID event) (w_ext w)"
    and times: "0 \<le> tm_pub tm" "0 \<le> tm_deploy tm" "0 \<le> tm_wait tm" and J: "\<forall>s. \<exists>j. J s = Inr j"
    and years: "\<forall>t. time w \<le> t \<and> t \<le> time w + total_time tm - 3 * tm_stmt tm \<longrightarrow> marshal_time t \<noteq> None"
    and Q: "Q0 (fst (w_ext w))"
  shows "\<exists>now b j t w'. run_stage c event request target w = ((actionAck, None), w') \<and>
     log w' = log w @ t \<and> stage_script c event request tg now t \<and>
     marshal_time now \<noteq> None \<and> success_bundle (dc_cfg c) (success_events now event tg) = (b, None) \<and>
     J (json_text (bundle_json b)) = Inr j \<and> finished tm J (se_DeploymentID event) (completed_row j) (w_ext w') \<and>
     Q1 (fst (w_ext w'))"
proof -
  let ?dep = "se_DeploymentID event" let ?rn = "Some (se_DeploymentID event)" let ?cfg = "dc_cfg c"
  let ?P = "in_progress tm J ?dep"
  have R: "0 \<le> tm_stmt tm" "0 \<le> renew_time tm"
    using P stmt_time [of tm J] by (auto simp: in_progress_def renew_time_def)
  note in_time = healthyD(7) [OF h, unfolded in_time_def] and clock = healthyD(2) [OF h]
  have year: "marshal_time t \<noteq> None"
    if "time w \<le> t" "t \<le> time w + 2 * tm_pub tm + tm_deploy tm + tm_wait tm + 4 * renew_time tm" for t
    using years that by (simp add: total_time_def)
  have sec: "(0::int) < second" by (simp add: second_def)
  let ?e1 = "ProgressEvent (newOrchestrationStartedEvent (time w) event)"
  let ?x1 = "timeout_ctx c w (15 * second)"
  have y1: "marshal_time (time w) \<noteq> None" using year [of "time w"] times R by simp
  then obtain j1 where m1: "marshal_any ?e1 = Inr j1" using progress_marshals [of "newOrchestrationStartedEvent (time w) event"] by auto
  have "ctx_err (time w) ?x1 = None" using sec by (simp add: timeout_ctx_def clock)
  from running.progress_steady [where rn = None, OF P h _ R(1) this m1 healthyD(10) [OF h] Q] obtain w1 where
    w1: "publishProgressEvent c None ?x1 (DeploymentExchange ?cfg) (OrchestrationStartedRoutingKey ?cfg) ?e1 w = (None, w1)"
      "log w1 = log w @ [PublishedProgress ?x1 (DeploymentExchange ?cfg) (OrchestrationStartedRoutingKey ?cfg) ?e1 None]"
      "?P (w_ext w1)" "time w \<le> time w1" "time w1 \<le> time w + tm_pub tm + renew_time tm" and q1: "Q0 (fst (w_ext w1))" by blast
  let ?x2 = "timeout_ctx c w1 (60 * second)"
  have c2: "ctx_err t ?x2 = None" if "t < time w1 + 60 * second" for t using that by (simp add: timeout_ctx_def clock)
  have "ctx_err (time w1) ?x2 = None" using c2 sec by simp
  from healthyD(8) [OF h this q1] obtain e2 where
    e2: "dm_Deploy (dc_deployer c) ?x2 request (w_ext w1) = ((tg, None), e2)" "passes (tm_deploy tm) (w_ext w1) e2" and qe2: "Q1 (fst e2)" by blast
  from running.call_steady [where f = "dm_Deploy (dc_deployer c) ?x2 request" and rn = ?rn and nt = "Deployed request",
      OF e2(1) running.passes [OF w1(3) e2(2)] passesD [OF e2(2)] h _ R(1)]
  obtain w2 where w2: "call c ?rn (Deployed request) (dm_Deploy (dc_deployer c) ?x2 request) w1 = ((tg, None), w2)"
    "log w2 = log w1 @ [Deployed request (tg, None)]" "?P (w_ext w2)" "time w1 \<le> time w2"
    "time w2 \<le> time w1 + tm_deploy tm + renew_time tm" and q2: "Q1 (fst (w_ext w2))" using qe2 by auto
  let ?e3 = "ProgressEvent (newOrchestrationDeployedEvent (time w2) event tg)"
  have y3: "marshal_time (time w2) \<noteq> None" using year [of "time w2"] w1(4,5) w2(4,5) times R by simp
  then obtain j3 where m3: "marshal_any ?e3 = Inr j3" using progress_marshals [of "newOrchestrationDeployedEvent (time w2) event tg"] by auto
  have "ctx_err (time w2) ?x2 = None" using c2 [of "time w2"] w2(5) in_time by simp
  from running.progress_steady [where rn = ?rn, OF w2(3) h _ R(1) this m3 healthyD(6) [OF h] q2] obtain w3 where
    w3: "publishProgressEvent c ?rn ?x2 (DeploymentExchange ?cfg) (OrchestrationDeployedRoutingKey ?cfg) ?e3 w2 = (None, w3)"
      "log w3 = log w2 @ [PublishedProgress ?x2 (DeploymentExchange ?cfg) (OrchestrationDeployedRoutingKey ?cfg) ?e3 None]"
      "?P (w_ext w3)" "time w2 \<le> time w3" "time w3 \<le> time w2 + tm_pub tm + renew_time tm" and q3: "Q1 (fst (w_ext w3))" by blast
  let ?x3 = "timeout_ctx c w3 (sint (RolloutTimeout ?cfg))"
  have c3: "ctx_err t ?x3 = None" if "t < time w3 + sint (RolloutTimeout ?cfg)" for t using that by (simp add: timeout_ctx_def clock)
  have "ctx_err (time w3) ?x3 = None" using c3 [of "time w3"] in_time times R by simp
  from healthyD(9) [OF h this _ q3] obtain e4 where
    e4: "dm_WaitForRollout (dc_deployer c) ?x3 tg (w_ext w3) = (None, e4)" "passes (tm_wait tm) (w_ext w3) e4" and qe4: "Q1 (fst e4)" by (auto simp: timeout_ctx_def with_timeout_def)
  from running.call_steady [where f = "dm_WaitForRollout (dc_deployer c) ?x3 tg" and rn = ?rn and nt = "Waited ?x3 tg",
      OF e4(1) running.passes [OF w3(3) e4(2)] passesD [OF e4(2)] h _ R(1)]
  obtain w4 where w4: "wait_rollout c ?rn ?x3 tg w3 = (None, w4)"
    "log w4 = log w3 @ [Waited ?x3 tg None]" "?P (w_ext w4)" "time w3 \<le> time w4"
    "time w4 \<le> time w3 + tm_wait tm + renew_time tm" and q4: "Q1 (fst (w_ext w4))" using qe4 by (auto simp: wait_rollout_def)
  have y4: "marshal_time (time w4) \<noteq> None" using year [of "time w4"] w1(4,5) w2(4,5) w3(4,5) w4(4,5) by simp
  have "\<forall>t. t \<le> time w4 + 2 * renew_time tm + tm_stmt tm + tm_pub tm \<longrightarrow> ctx_err t ?x3 = None"
    using c3 w4(5) in_time by auto
  from success_completes [OF h w4(3) this y4 J times(1) q4] obtain b j w5 where
    w5: "publishRolloutSuccess c ?rn event tg ?x3 w4 = ((actionAck, None), w5)"
      "success_bundle ?cfg (success_events (time w4) event tg) = (b, None)" "J (json_text (bundle_json b)) = Inr j"
      "log w5 = log w4 @ map (\<lambda>f. f None) (success_script c ?x3 ?dep (success_events (time w4) event tg))"
      "finished tm J ?dep (completed_row j) (w_ext w5)" and q5: "Q1 (fst (w_ext w5))" by blast
  have "run_stage c event request target w = ((actionAck, None), w5)"
    using w1(1) w2(1) w3(1) w4(1) w5(1) by (simp add: run_stage_def await_rollout_def Let_def clock)
  moreover have "stage_script c event request tg (time w4) ([started_note c ?x1 (time w) event None, Deployed request (tg, None),
      deployed_note c ?x2 (time w2) event tg None, Waited ?x3 tg None] @
      map (\<lambda>f. f None) (success_script c ?x3 ?dep (success_events (time w4) event tg)))" (is "stage_script _ _ _ _ _ ?t")
    unfolding stage_script_def by blast
  moreover have "log w5 = log w @ ?t" using w1(2) w2(2) w3(2) w4(2) w5(4) by (simp add: started_note_def deployed_note_def)
  ultimately show ?thesis using w5(2,3,5) y4 q5 by blast
qed

section \<open>The delivery again\<close>

lemma finished_claim:
  assumes "good_server tm J db" "row_of dep db = Some (completed_row j)"
  shows "\<exists>rec db'. pg_Claim background dep ''orchestration'' d db = ((ClaimCompleted, rec, None), db') \<and> sr_ResultJSON rec = j \<and>
    good_server tm J db' \<and> row_of dep db' = Some (completed_row j)"
proof -
  have f: "pg_fault db n = None" for n using assms(1) by (simp add: good_server_def)
  show ?thesis
    using assms
    by (auto simp: good_server_def pg_Claim_def pg_claim_existing_def pg_stmt_def sql_insert_def sql_select_def pg_commit_def
        pg_rollback_def pg_tick_def Let_def f completed_row_def)
qed

text \<open>
  What a jsonb column does to a bundle: its text may come back with other spacing and order of members, but it
  reads as the same keys and the same JSON values.
\<close>

definition jsonb_keeps :: "(string \<Rightarrow> go_error + string) \<Rightarrow> bool" where
  "jsonb_keeps J \<longleftrightarrow> (\<forall>s. \<exists>j. J s = Inr j) \<and> (\<forall>s j b. J s = Inr j \<longrightarrow> unmarshal_bundle s = Inr b \<longrightarrow>
     (\<exists>b'. unmarshal_bundle j = Inr b' \<and> ServiceRoutingKey b' = ServiceRoutingKey b \<and>
        ProgressRoutingKey b' = ProgressRoutingKey b \<and> unmarshal_any (ServiceEvent b') = unmarshal_any (ServiceEvent b) \<and>
        unmarshal_any (ProgressEvent_raw b') = unmarshal_any (ProgressEvent_raw b)))"

definition replayed_events :: "'e deploy_consumer \<Rightarrow> json \<Rightarrow> json \<Rightarrow> effect list \<Rightarrow> bool" where
  "replayed_events c s p t \<longleftrightarrow> (\<exists>x.
     t = [PublishedEvent x (RabbitMQExchange (dc_cfg c)) (DeploySucceededRoutingKey (dc_cfg c)) (StoredEvent (norm_any s)) None,
          PublishedProgress x (DeploymentExchange (dc_cfg c)) (OrchestrationRunningRoutingKey (dc_cfg c)) (StoredEvent (norm_any p)) None])"

text \<open>A row with the result \<open>j\<close>, on a server without faults.\<close>

definition replayable :: "timing \<Rightarrow> (string \<Rightarrow> go_error + string) \<Rightarrow> string \<Rightarrow> string \<Rightarrow> 'a \<times> pg_db \<Rightarrow> bool" where
  "replayable tm J dep j e \<longleftrightarrow> good_server tm J (snd e) \<and> row_of dep (snd e) = Some (completed_row j)"

lemma replayable_passes:
  assumes "passes L e e'" "replayable tm J dep j e"
  shows "replayable tm J dep j e'"
proof -
  have "snd e' = (snd e)\<lparr>pg_clock := pg_clock (snd e')\<rparr>" using assms(1) by (simp add: passes_def)
  then obtain t where "snd e' = (snd e)\<lparr>pg_clock := t\<rparr>" by blast
  then show ?thesis using assms(2) by (simp add: replayable_def good_server_def)
qed

lemma publish_at:
  assumes "healthy tm c request tg Q0 Q1" "ctx_err (time w) x = None" "marshal_any ev = Inr j" "replayable tm J dep r (w_ext w)"
  shows "\<exists>w'. publishEvent c None x ex rk ev w = (None, w') \<and> log w' = log w @ [PublishedEvent x ex rk ev None] \<and>
      time w' \<le> time w + tm_pub tm \<and> replayable tm J dep r (w_ext w') \<and> (Q1 (fst (w_ext w)) \<longrightarrow> Q1 (fst (w_ext w')))"
    and "\<exists>w'. publishProgressEvent c None x ex rk ev w = (None, w') \<and> log w' = log w @ [PublishedProgress x ex rk ev None] \<and>
      replayable tm J dep r (w_ext w') \<and> (Q1 (fst (w_ext w)) \<longrightarrow> Q1 (fst (w_ext w')))"
proof -
  note calls = publisher_calls [OF healthyD(4) [OF assms(1)]]
  obtain e where e: "event_publisher c x ex rk ev (w_ext w) = (None, e)" "passes (tm_pub tm) (w_ext w) e"
    "Q1 (fst (w_ext w)) \<longrightarrow> Q1 (fst e)"
    using healthyD(5) [OF assms(1)] assms(2,3) unfolding publishes_def by blast
  then show "\<exists>w'. publishEvent c None x ex rk ev w = (None, w') \<and> log w' = log w @ [PublishedEvent x ex rk ev None] \<and>
      time w' \<le> time w + tm_pub tm \<and> replayable tm J dep r (w_ext w') \<and> (Q1 (fst (w_ext w)) \<longrightarrow> Q1 (fst (w_ext w')))"
    using passesD [OF e(2)] replayable_passes [OF e(2) assms(4)] by (simp add: calls call_def renewals_def log_def)
  obtain e' where e': "progress_publisher c x ex rk ev (w_ext w) = (None, e')" "passes (tm_pub tm) (w_ext w) e'"
    "Q1 (fst (w_ext w)) \<longrightarrow> Q1 (fst e')"
    using healthyD(6) [OF assms(1)] assms(2,3) unfolding publishes_def by blast
  then show "\<exists>w'. publishProgressEvent c None x ex rk ev w = (None, w') \<and> log w' = log w @ [PublishedProgress x ex rk ev None] \<and>
      replayable tm J dep r (w_ext w') \<and> (Q1 (fst (w_ext w)) \<longrightarrow> Q1 (fst (w_ext w')))"
    using replayable_passes [OF e'(2) assms(4)] by (simp add: calls call_def renewals_def log_def)
qed

lemma redelivery_replays:
  assumes a: "accepted c body = Some (event, request, target)" and h: "healthy tm c request tg Q0 Q1"
    and db: "replayable tm J (se_DeploymentID event) j (w_ext w)"
    and b: "unmarshal_bundle j = Inr b" "ServiceRoutingKey b = DeploySucceededRoutingKey (dc_cfg c)"
      "ProgressRoutingKey b = OrchestrationRunningRoutingKey (dc_cfg c)"
      "unmarshal_any (ServiceEvent b) = Inr (norm_any s)" "unmarshal_any (ProgressEvent_raw b) = Inr (norm_any p)"
    and pub: "tm_pub tm < 15 * second"
  shows "\<exists>rec t w'. handleMessage c body w = ((actionAck, None), w') \<and>
     handled c body w = Claimed (se_DeploymentID event) (ClaimCompleted, rec, None) # t \<and> replayed_events c s p t \<and>
     replayable tm J (se_DeploymentID event) j (w_ext w') \<and> (Q1 (fst (w_ext w)) \<longrightarrow> Q1 (fst (w_ext w')))"
proof -
  let ?cfg = "dc_cfg c" let ?dep = "se_DeploymentID event"
  obtain rec db' where cl: "pg_Claim background ?dep ''orchestration'' (LeaseDuration ?cfg) (snd (w_ext w)) =
    ((ClaimCompleted, rec, None), db')" "sr_ResultJSON rec = j" "good_server tm J db'" "row_of ?dep db' = Some (completed_row j)"
    using finished_claim db unfolding replayable_def by blast
  define w1 where "w1 = \<lparr>w_ext = (fst (w_ext w), db'), w_trace = w_trace w @ [Claimed ?dep (ClaimCompleted, rec, None)]\<rparr>"
  have "call c None (Claimed ?dep) (sl_Claim (beside postgresLedger) background ?dep ''orchestration'' (LeaseDuration ?cfg)) w =
      ((ClaimCompleted, rec, None), w1)"
    by (simp add: call_def beside_simps with_db_def cl(1) renewals_def w1_def)
  then have claim: "claim_stage c event request target w = publishStored c j w1"
    using cl(2) by (simp add: claim_stage_def healthyD(1) [OF h])
  have w1: "log w1 = log w @ [Claimed ?dep (ClaimCompleted, rec, None)]" "replayable tm J ?dep j (w_ext w1)"
    "fst (w_ext w1) = fst (w_ext w)"
    using cl(3,4) by (simp_all add: w1_def log_def replayable_def)
  let ?x = "timeout_ctx c w1 (15 * second)"
  have x: "ctx_err t ?x = None" if "t < time w1 + 15 * second" for t using that by (simp add: timeout_ctx_def healthyD(2) [OF h])
  have "ctx_err (time w1) ?x = None" by (rule x) (simp add: second_def)
  then obtain w2 where w2: "publishEvent c None ?x (RabbitMQExchange ?cfg) (ServiceRoutingKey b) (StoredEvent (norm_any s)) w1 = (None, w2)"
    "log w2 = log w1 @ [PublishedEvent ?x (RabbitMQExchange ?cfg) (ServiceRoutingKey b) (StoredEvent (norm_any s)) None]"
    "time w2 \<le> time w1 + tm_pub tm" "replayable tm J ?dep j (w_ext w2)" "Q1 (fst (w_ext w1)) \<longrightarrow> Q1 (fst (w_ext w2))"
    using publish_at(1) [OF h _ _ w1(2), of ?x "StoredEvent (norm_any s)"] by (fastforce simp: marshal_any_def)
  have "ctx_err (time w2) ?x = None" using x w2(3) pub by simp
  then obtain w3 where w3: "publishProgressEvent c None ?x (DeploymentExchange ?cfg) (ProgressRoutingKey b) (StoredEvent (norm_any p)) w2 = (None, w3)"
    "log w3 = log w2 @ [PublishedProgress ?x (DeploymentExchange ?cfg) (ProgressRoutingKey b) (StoredEvent (norm_any p)) None]"
    "replayable tm J ?dep j (w_ext w3)" "Q1 (fst (w_ext w2)) \<longrightarrow> Q1 (fst (w_ext w3))"
    using publish_at(2) [OF h _ _ w2(4), of ?x "StoredEvent (norm_any p)"] by (fastforce simp: marshal_any_def)
  have "handleMessage c body w = ((actionAck, None), w3)"
    using handleMessage_accepted [OF a] claim b(1,4,5) w2(1) w3(1) by (simp add: publishStored_def Let_def)
  then show ?thesis using w1(1,3) w2(2,5) w3(2-4) b(2,3) by (auto simp: handled_def replayed_events_def)
qed

text \<open>A delivery of a new deployment, up to the row it leaves.\<close>

lemma first_delivery:
  assumes a: "accepted c body = Some (event, request, target)" and h: "healthy tm c request tg Q0 Q1"
    and db: "good_server tm J (snd (w_ext w))" "row_of (se_DeploymentID event) (snd (w_ext w)) = None"
    and J: "\<forall>s. \<exists>j. J s = Inr j" and times: "0 \<le> tm_pub tm" "0 \<le> tm_deploy tm" "0 \<le> tm_wait tm"
    and years: "\<forall>t. time w \<le> t \<and> t \<le> time w + total_time tm \<longrightarrow> marshal_time t \<noteq> None" and Q: "Q0 (fst (w_ext w))"
  obtains rec now t b j w' where "handleMessage c body w = ((actionAck, None), w')"
    "handled c body w = Claimed (se_DeploymentID event) (ClaimAcquired, rec, None) # t" "stage_script c event request tg now t"
    "marshal_time now \<noteq> None" "success_bundle (dc_cfg c) (success_events now event tg) = (b, None)"
    "J (json_text (bundle_json b)) = Inr j" "replayable tm J (se_DeploymentID event) j (w_ext w')" "Q1 (fst (w_ext w'))"
proof -
  let ?dep = "se_DeploymentID event" let ?cfg = "dc_cfg c"
  have D: "0 \<le> tm_stmt tm" by (rule stmt_time [OF db(1)])
  obtain rec db' where cl: "pg_Claim background ?dep ''orchestration'' (LeaseDuration ?cfg) (snd (w_ext w)) = ((ClaimAcquired, rec, None), db')"
    "good_server tm J db'" "running_row (row_of ?dep db')" "time w \<le> pg_clock db'" "pg_clock db' \<le> time w + 3 * tm_stmt tm"
    using fresh_claim [OF db] by blast
  define w1 where "w1 = \<lparr>w_ext = (fst (w_ext w), db'), w_trace = w_trace w @ [Claimed ?dep (ClaimAcquired, rec, None)]\<rparr>"
  have c1: "call c None (Claimed ?dep) (sl_Claim (beside postgresLedger) background ?dep ''orchestration'' (LeaseDuration ?cfg)) w =
      ((ClaimAcquired, rec, None), w1)"
    by (simp add: call_def beside_simps with_db_def cl(1) renewals_def w1_def)
  have P: "in_progress tm J ?dep (w_ext w1)" "Q0 (fst (w_ext w1))" using cl(2,3) Q by (simp_all add: in_progress_def w1_def)
  have "\<forall>t. time w1 \<le> t \<and> t \<le> time w1 + total_time tm - 3 * tm_stmt tm \<longrightarrow> marshal_time t \<noteq> None"
    using years cl(4,5) by (simp add: w1_def)
  from stage_completes [OF h P(1) times J this P(2), where target = target]
  obtain now b j t w2 where r: "run_stage c event request target w1 = ((actionAck, None), w2)" "log w2 = log w1 @ t"
    "stage_script c event request tg now t" "marshal_time now \<noteq> None" "success_bundle ?cfg (success_events now event tg) = (b, None)"
    "J (json_text (bundle_json b)) = Inr j" "finished tm J ?dep (completed_row j) (w_ext w2)" "Q1 (fst (w_ext w2))"
    by (elim exE conjE) (rule that; assumption)
  have hm: "handleMessage c body w = ((actionAck, None), w2)"
    using handleMessage_accepted [OF a] c1 r(1) by (simp add: claim_stage_def healthyD(1) [OF h])
  have "handled c body w = Claimed ?dep (ClaimAcquired, rec, None) # t"
    using hm r(2) by (simp add: handled_def w1_def log_def)
  moreover have "replayable tm J ?dep j (w_ext w2)" using r(7) by (simp add: finished_def replayable_def)
  ultimately show ?thesis using hm r(3-6,8) by (intro that)
qed

section \<open>The first delivery and the ones after it\<close>

text \<open>A worker with healthy surroundings that gets the message of a new deployment deploys it once and stores its
  result; whenever the message is handled again on the row that leaves, the stored result is published again and
  nothing is deployed.\<close>

lemma deployment_completes_once:
  assumes "accepted c body = Some (event, request, target)" "healthy tm c request tg Q0 Q1"
    "good_server tm J (snd (w_ext w))" "row_of (se_DeploymentID event) (snd (w_ext w)) = None" "jsonb_keeps J"
    "valid_request event" "valid_target tg" "utf8_valid (DeploySucceededRoutingKey (dc_cfg c))"
    "utf8_valid (OrchestrationRunningRoutingKey (dc_cfg c))"
    "0 \<le> tm_pub tm" "tm_pub tm < 15 * second" "0 \<le> tm_deploy tm" "0 \<le> tm_wait tm"
    "\<forall>t. time w \<le> t \<and> t \<le> time w + total_time tm \<longrightarrow> marshal_time t \<noteq> None" "Q0 (fst (w_ext w))"
  shows "\<exists>rec now t b j s p w'. handleMessage c body w = ((actionAck, None), w') \<and>
     handled c body w = Claimed (se_DeploymentID event) (ClaimAcquired, rec, None) # t \<and> stage_script c event request tg now t \<and>
     success_bundle (dc_cfg c) (success_events now event tg) = (b, None) \<and> J (json_text (bundle_json b)) = Inr j \<and>
     marshal_any (fst (success_events now event tg)) = Inr s \<and> marshal_any (snd (success_events now event tg)) = Inr p \<and>
     Q1 (fst (w_ext w')) \<and> replayable tm J (se_DeploymentID event) j (w_ext w') \<and>
     (\<forall>w2. replayable tm J (se_DeploymentID event) j (w_ext w2) \<longrightarrow>
        (\<exists>rec t w3. handleMessage c body w2 = ((actionAck, None), w3) \<and>
           handled c body w2 = Claimed (se_DeploymentID event) (ClaimCompleted, rec, None) # t \<and> replayed_events c s p t \<and>
           replayable tm J (se_DeploymentID event) j (w_ext w3) \<and> (Q1 (fst (w_ext w2)) \<longrightarrow> Q1 (fst (w_ext w3)))))"
proof -
  let ?dep = "se_DeploymentID event" let ?cfg = "dc_cfg c"
  have J: "\<forall>s. \<exists>j. J s = Inr j" using assms(5) unfolding jsonb_keeps_def by blast
  obtain rec now t b j w' where r: "handleMessage c body w = ((actionAck, None), w')"
    "handled c body w = Claimed ?dep (ClaimAcquired, rec, None) # t" "stage_script c event request tg now t"
    "marshal_time now \<noteq> None" "success_bundle ?cfg (success_events now event tg) = (b, None)"
    "J (json_text (bundle_json b)) = Inr j" "replayable tm J ?dep j (w_ext w')" "Q1 (fst (w_ext w'))"
    by (rule first_delivery [OF assms(1-4) J assms(10,12-15)])
  obtain s p b0 where b0: "success_bundle ?cfg (success_events now event tg) = (b0, None)"
    and sp0: "marshal_any (fst (success_events now event tg)) = Inr s" "marshal_any (snd (success_events now event tg)) = Inr p"
    "unmarshal_bundle (json_text (bundle_json b0)) = Inr b0" "ServiceRoutingKey b0 = DeploySucceededRoutingKey ?cfg"
    "unmarshal_any (ServiceEvent b0) = Inr (norm_any s)" "ProgressRoutingKey b0 = OrchestrationRunningRoutingKey ?cfg"
    "unmarshal_any (ProgressEvent_raw b0) = Inr (norm_any p)"
    using success_bundle_reads [OF assms(6,7) r(4) assms(8,9)] by blast
  have "b0 = b" using b0 r(5) by simp
  note sp = sp0 [unfolded this]
  obtain b' where b': "unmarshal_bundle j = Inr b'" "ServiceRoutingKey b' = ServiceRoutingKey b"
    "ProgressRoutingKey b' = ProgressRoutingKey b" "unmarshal_any (ServiceEvent b') = unmarshal_any (ServiceEvent b)"
    "unmarshal_any (ProgressEvent_raw b') = unmarshal_any (ProgressEvent_raw b)"
    using assms(5) r(6) sp(3) unfolding jsonb_keeps_def by blast
  note again = redelivery_replays [OF assms(1,2) _ b'(1), where s = s and p = p, OF _ _ _ _ _ assms(11)]
  have "\<exists>rec t w3. handleMessage c body w2 = ((actionAck, None), w3) \<and>
      handled c body w2 = Claimed ?dep (ClaimCompleted, rec, None) # t \<and> replayed_events c s p t \<and>
      replayable tm J ?dep j (w_ext w3) \<and> (Q1 (fst (w_ext w2)) \<longrightarrow> Q1 (fst (w_ext w3)))"
    if "replayable tm J ?dep j (w_ext w2)" for w2
    by (rule again [OF that]) (simp_all add: b' sp)
  then show ?thesis using r(1-3,5-8) sp(1,2) by blast
qed

text \<open>For the sample worker over an empty table: only the statements take time.\<close>

definition quick :: timing where
  "quick = \<lparr>tm_pub = 0, tm_deploy = 0, tm_wait = 0, tm_stmt = 1, tm_ticks = 0\<rparr>"

lemma passes_refl: "passes 0 e e"
  by (simp add: passes_def)

lemma quick_in_time: "in_time quick sample_config"
  by (simp add: in_time_def quick_def renew_time_def second_def sample_config_def)

lemma empty_db_good: "good_server quick Inr empty_db"
  by (simp add: good_server_def empty_db_def quick_def)

lemma jsonb_keeps_Inr: "jsonb_keeps Inr"
  by (simp add: jsonb_keeps_def)

lemma sample_years:
  "\<forall>t. pg_clock empty_db \<le> t \<and> t \<le> pg_clock empty_db + total_time quick \<longrightarrow> marshal_time t \<noteq> None"
proof -
  have "marshal_time t \<noteq> None" if "0 \<le> t" "t \<le> 3" for t
  proof -
    have "t div 1000000000 = 0" using that by simp
    moreover have "civil_of_days 0 = (1970, 1, 1)" by code_simp
    ultimately show ?thesis by (simp only: marshal_time_def Let_def div_0 case_prod_conv) simp
  qed
  then show ?thesis by (simp add: empty_db_def total_time_def quick_def renew_time_def)
qed

lemma sample_valid: "valid_request sample_event" "valid_target sample_target"
    "utf8_valid (DeploySucceededRoutingKey sample_config)" "utf8_valid (OrchestrationRunningRoutingKey sample_config)"
  by (simp_all add: valid_request_def valid_target_def sample_event_def sample_target_def sample_config_def
      zero_event_def ascii_def byte_of_def)

end
