(* ===== verification/End_To_End.thy ===== *)
theory End_To_End
  imports Completion Orchestrator
begin

text \<open>
  The whole service in the good case: the worker of \<open>Completion\<close> with the Kubernetes client as its deployment
  manager, over an API server that behaves as \<open>quiet_api\<close> documents. The world holds the cluster and the database
  side by side.
\<close>

section \<open>A cluster beside the database\<close>

text \<open>
  A call \<open>g\<close> of a world with a database does to the cluster what \<open>f\<close> does, leaves the table alone, and takes at
  most \<open>L\<close> when the cluster is as \<open>Q\<close> says.
\<close>

definition carries :: "int \<Rightarrow> ('a \<Rightarrow> bool) \<Rightarrow> ('a \<Rightarrow> 'r \<times> 'a) \<Rightarrow> ('a \<times> pg_db \<Rightarrow> 'r \<times> ('a \<times> pg_db)) \<Rightarrow> bool" where
  "carries L Q f g \<longleftrightarrow> (\<forall>e. fst (g e) = fst (f (fst e)) \<and> fst (snd (g e)) = snd (f (fst e)) \<and>
     (Q (fst e) \<longrightarrow> passes L e (snd (g e))))"

lemma carries_result:
  assumes "carries L Q f g" "f (fst e) = (r, a)" "Q (fst e)" "R a"
  shows "\<exists>e'. g e = (r, e') \<and> passes L e e' \<and> R (fst e')"
  using assms(1) [unfolded carries_def, THEN spec, of e] assms(2-4) by (cases "g e") auto

text \<open>Before the deployment: the namespace and the name are free for this request. After it: its objects are there.\<close>

definition free_for ::
  "('q, 'e) kubernetes_client \<Rightarrow> ('e \<Rightarrow> 'q store) \<Rightarrow> deploy_request \<Rightarrow> deployment_target \<Rightarrow> ('q, 'e) cluster \<Rightarrow> bool" where
  "free_for k view request target a \<longleftrightarrow> namespace_free request target (view (cl_ext a)) \<and>
     (same_selector request target (view (cl_ext a)) \<or> (\<forall>x. deletes_at_once k x view))"

definition deployed_as ::
  "config \<Rightarrow> ('e \<Rightarrow> 'q store) \<Rightarrow> deploy_request \<Rightarrow> deployment_target \<Rightarrow> 'q resource_requirements \<Rightarrow> ('q, 'e) cluster \<Rightarrow> bool" where
  "deployed_as cfg view request target res a \<longleftrightarrow> in_place cfg request target res (view (cl_ext a))"

text \<open>The status of a deployment in place is complete, and reading it changes no object.\<close>

definition gets_ready ::
  "(ctx \<Rightarrow> string \<Rightarrow> string \<Rightarrow> 'e \<Rightarrow> (go_error + deployment_status) \<times> 'e) \<Rightarrow> config \<Rightarrow> ('e \<Rightarrow> 'q store) \<Rightarrow>
   deploy_request \<Rightarrow> deployment_target \<Rightarrow> 'q resource_requirements \<Rightarrow> bool" where
  "gets_ready status cfg view request target res \<longleftrightarrow>
     (\<forall>x e. in_place cfg request target res (view e) \<longrightarrow>
        (\<exists>d e'. status x (dt_Namespace target) (dt_DeploymentName target) e = (Inr d, e') \<and> view e' = view e \<and>
           deploymentRolloutComplete d \<and> rolloutConditionError d target = None))"

text \<open>The worker: the ledger of PostgreSQL, a broker that takes its events in time, and the Kubernetes client.\<close>

definition kubernetes_worker ::
  "timing \<Rightarrow> (('q, 'e) cluster \<times> pg_db) deploy_consumer \<Rightarrow> ('q, 'e) kubernetes_client \<Rightarrow>
   (ctx \<Rightarrow> string \<Rightarrow> string \<Rightarrow> 'e \<Rightarrow> (go_error + deployment_status) \<times> 'e) \<Rightarrow> ('e \<Rightarrow> bool) \<Rightarrow> ('e \<Rightarrow> 'q store) \<Rightarrow>
   deploy_request \<Rightarrow> deployment_target \<Rightarrow> 'q resource_requirements \<Rightarrow> bool" where
  "kubernetes_worker tm c k status choice view request target res \<longleftrightarrow>
     dc_cfg c = kc_cfg k \<and> dc_ledger c = Some (beside postgresLedger) \<and> dc_now c = (\<lambda>e. pg_clock (snd e)) \<and>
     (\<forall>d e. dc_ticks c d e \<le> tm_ticks tm) \<and> (dc_publish c = None \<longrightarrow> dc_pub c \<noteq> None) \<and> in_time tm (dc_cfg c) \<and>
     (\<forall>Q. publishes (tm_pub tm) Q (event_publisher c) \<and> publishes (tm_pub tm) Q (progress_publisher c)) \<and>
     (\<forall>x. carries (tm_deploy tm) (free_for k view request target)
        (dm_Deploy (kubernetes_manager k status choice) x request) (dm_Deploy (dc_deployer c) x request)) \<and>
     (\<forall>x. carries (tm_wait tm) (deployed_as (kc_cfg k) view request target res)
        (dm_WaitForRollout (kubernetes_manager k status choice) x target) (dm_WaitForRollout (dc_deployer c) x target))"

lemma kubernetes_deploys:
  assumes "quiet_api k x view" "targetForRequest (kc_cfg k) request = Inr target"
    "buildResourceRequirements (kc_ParseQuantity k) (cfg_ResourceDefaults (kc_cfg k)) = Inr res"
    "ImagePullSecretName (kc_cfg k) = [] \<or> registryCredentialsConfigured (cfg_Registry (kc_cfg k)) = Inr b"
    "free_for k view request target a"
  shows "\<exists>a'. dm_Deploy (kubernetes_manager k status choice) x request a = ((target, None), a') \<and>
     deployed_as (kc_cfg k) view request target res a'"
proof -
  have "namespace_free request target (view (cl_ext a))"
    "same_selector request target (view (cl_ext a)) \<or> deletes_at_once k x view \<and> 0 < deletion_polls"
    using assms(5) by (auto simp: free_for_def deletion_polls_def)
  then show ?thesis using quiet_Deploy [OF assms(1-4), of a deletion_polls]
    by (auto simp: kubernetes_manager_def deployed_as_def)
qed

lemma kubernetes_waits:
  assumes "gets_ready status (kc_cfg k) view request target res" "deployed_as (kc_cfg k) view request target res a"
    "ctx_deadline x \<noteq> None"
  shows "\<exists>a'. dm_WaitForRollout (kubernetes_manager k status choice) x target a = (None, a') \<and>
     deployed_as (kc_cfg k) view request target res a'"
proof -
  obtain dl where dl: "ctx_deadline x = Some dl" using assms(3) by blast
  obtain d e' where s: "status x (dt_Namespace target) (dt_DeploymentName target) (cl_ext a) = (Inr d, e')" "view e' = view (cl_ext a)"
    "deploymentRolloutComplete d" "rolloutConditionError d target = None"
    using assms(1,2) unfolding gets_ready_def deployed_as_def by blast
  have "WaitForRollout (kubernetes_rollout k status choice) (kc_cfg k) (rollout_fuel k x a) x target a = Some (None, a\<lparr>cl_ext := e'\<rparr>)"
    by (simp add: WaitForRollout_def rollout_fuel_def dl kubernetes_rollout_def s(1,3,4) Let_def)
  then show ?thesis using s(2) assms(2) by (auto simp: kubernetes_manager_def deployed_as_def)
qed

lemma kubernetes_healthy:
  assumes "kubernetes_worker tm c k status choice view request target res" "\<forall>x. quiet_api k x view"
    "targetForRequest (kc_cfg k) request = Inr target"
    "buildResourceRequirements (kc_ParseQuantity k) (cfg_ResourceDefaults (kc_cfg k)) = Inr res"
    "ImagePullSecretName (kc_cfg k) = [] \<or> registryCredentialsConfigured (cfg_Registry (kc_cfg k)) = Inr b"
    "gets_ready status (kc_cfg k) view request target res"
  shows "healthy tm c request target (free_for k view request target) (deployed_as (kc_cfg k) view request target res)"
proof -
  have d: "\<exists>e'. dm_Deploy (dc_deployer c) x request e = ((target, None), e') \<and> passes (tm_deploy tm) e e' \<and>
      deployed_as (kc_cfg k) view request target res (fst e')" if free: "free_for k view request target (fst e)" for x e
  proof -
    obtain a' where "dm_Deploy (kubernetes_manager k status choice) x request (fst e) = ((target, None), a')"
      "deployed_as (kc_cfg k) view request target res a'"
      using kubernetes_deploys [OF assms(2) [rule_format] assms(3-5) free] by blast
    moreover have "carries (tm_deploy tm) (free_for k view request target)
        (dm_Deploy (kubernetes_manager k status choice) x request) (dm_Deploy (dc_deployer c) x request)"
      using assms(1) by (simp add: kubernetes_worker_def)
    ultimately show ?thesis using carries_result free by fast
  qed
  have r: "\<exists>e'. dm_WaitForRollout (dc_deployer c) x target e = (None, e') \<and> passes (tm_wait tm) e e' \<and>
      deployed_as (kc_cfg k) view request target res (fst e')"
    if there: "deployed_as (kc_cfg k) view request target res (fst e)" "ctx_deadline x \<noteq> None" for x e
  proof -
    obtain a' where "dm_WaitForRollout (kubernetes_manager k status choice) x target (fst e) = (None, a')"
      "deployed_as (kc_cfg k) view request target res a'"
      using kubernetes_waits [OF assms(6) there] by blast
    moreover have "carries (tm_wait tm) (deployed_as (kc_cfg k) view request target res)
        (dm_WaitForRollout (kubernetes_manager k status choice) x target) (dm_WaitForRollout (dc_deployer c) x target)"
      using assms(1) by (simp add: kubernetes_worker_def)
    ultimately show ?thesis using carries_result there(1) by fast
  qed
  show ?thesis using assms(1) d r unfolding healthy_def kubernetes_worker_def by (intro conjI allI impI) blast+
qed

section \<open>From the message to the objects\<close>


text \<open>The Kubernetes client on the server in memory, beside an empty table: only the statements take time.\<close>

definition beside_db :: "('a \<Rightarrow> 'r \<times> 'a) \<Rightarrow> 'a \<times> pg_db \<Rightarrow> 'r \<times> ('a \<times> pg_db)" where
  "beside_db f e = (fst (f (fst e)), (snd (f (fst e)), snd e))"

lemma carries_beside_db: "carries 0 Q f (beside_db f)"
  by (simp add: carries_def beside_db_def passes_def)

definition full_consumer :: "((string, string mem) cluster \<times> pg_db) deploy_consumer" where
  "full_consumer = (sample_consumer (beside postgresLedger) (\<lambda>e. pg_clock (snd e)))\<lparr>dc_deployer :=
     (let m = kubernetes_manager sample_kubernetes (\<lambda>x ns n e. (Inr complete_status, e)) (\<lambda>e. True)
      in \<lparr>dm_Deploy = (\<lambda>x r. beside_db (dm_Deploy m x r)), dm_WaitForRollout = (\<lambda>x t. beside_db (dm_WaitForRollout m x t)),
          dm_isKubernetesClient = True\<rparr>)\<rparr>"

lemma full_worker:
  "kubernetes_worker quick full_consumer sample_kubernetes (\<lambda>x ns n e. (Inr complete_status, e)) (\<lambda>e. True) mem_view
     sample_request sample_target res"
  unfolding kubernetes_worker_def event_publisher_def progress_publisher_def publishes_def
  using quick_in_time passes_refl
  by (auto simp: full_consumer_def sample_consumer_def quick_def carries_beside_db Let_def)

lemma full_ready: "gets_ready (\<lambda>x ns n e. (Inr complete_status, e)) cfg view request target res"
  by (simp add: gets_ready_def complete_status_def deploymentRolloutComplete_def rolloutConditionError_def)

lemma full_cfg [simp]: "dc_cfg full_consumer = sample_config"
  by (simp add: full_consumer_def)

lemma full_accepted: "accepted full_consumer sample_body = Some (sample_event, sample_request, sample_target)"
proof -
  have "dr_ImageTag sample_request = ''img''" by (simp add: sample_request_def)
  then show ?thesis
    by (simp add: accepted_def sample_unmarshal sample_deploy_request sample_targetForRequest sample_strings)
qed


end
