(* ===== verification/Spec2Isabelle.thy ===== *)
theory Spec2Isabelle
  imports Process Broker_Props End_To_End
begin

text \<open>
  A model of the orchestration service: the worker that consumes build events from RabbitMQ, deploys
  the built image to Kubernetes and publishes how that went. A stage ledger in PostgreSQL makes the
  stage restartable.

  Parts and how they interact (Go files under \<open>src/\<close>).

  \<^item> \<open>Prelude\<close>, \<open>Utf8\<close>, \<open>GoStrings\<close>, \<open>GoErrors\<close>: the parts of Go the code uses. Machine integers are words
    (\<open>int\<close> has 64 bits), strings are lists of bytes with Go's UTF-8 decoder, an error is an option of
    \<open>go_error\<close>, a context has a deadline and may be cancelled, time is in nanoseconds. \<open>Json\<close>, \<open>Sha256\<close>:
    what \<open>encoding/json\<close> and \<open>crypto/sha256\<close> do; \<open>Json_Round_Trip\<close>: reading what was written.
  \<^item> \<open>Config\<close>, \<open>Config_Loading\<close> (\<open>config.go\<close>): the configuration record and \<open>loadConfig\<close>, with
    \<open>strconv.Atoi\<close> and \<open>time.ParseDuration\<close>; \<open>Config_Props\<close>: what is read, and what every loaded
    configuration satisfies.
  \<^item> \<open>Names\<close> (\<open>names.go\<close>): deploy requests, DNS labels, the names of the Kubernetes objects.
  \<^item> \<open>Events\<close>, \<open>Wire\<close> (\<open>events.go\<close>, types of \<open>consumer.go\<close>): the events and their JSON form; \<open>Event_Props\<close>:
    their properties and the round trip of the stored bundle.
  \<^item> \<open>Ledger\<close> (\<open>ledger.go\<close>, \<open>migrations/001_stage_ledger.sql\<close>): \<open>PostgresStageLedger\<close>, one definition per SQL
    statement and method. The server may fail at any statement and may have applied it all the same.
    \<open>Ledger_Contract\<close>: the locale \<open>stage_ledger_laws\<close> of the interface and its interpretation on the
    model of PostgreSQL.
  \<^item> \<open>Publisher\<close> (\<open>rabbit_publisher.go\<close>): publishing with confirms and returns.
  \<^item> \<open>Rollout\<close> (\<open>rollout.go\<close>): rollout conditions, completion, retriable errors, the poll loop.
  \<^item> \<open>Manifests\<close>, \<open>Reconciler\<close> (\<open>reconciler.go\<close>): the Kubernetes objects and the functions that build them;
    \<open>KubernetesClient.Deploy\<close> and everything below it, with the calls to the API as a ghost list.
    \<open>Reconciler_Protocol\<close>: the calls of each operation as inductive predicates, given the locale
    \<open>conflict_retry\<close> for \<open>retry.RetryOnConflict\<close>. \<open>Reconciler_Props\<close>, \<open>Reconciler_Live\<close>: what follows, and that
    a deploy returns. \<open>Cluster\<close>: the locales \<open>quiet_api\<close>, an API server as documented, and \<open>deleting_api\<close>, and convergence;
    \<open>Memory_Server\<close>: a server in memory that interprets them. \<open>Base64\<close>: \<open>encoding/base64\<close>.
  \<^item> \<open>Consumer\<close> (\<open>consumer.go\<close>): \<open>processDelivery\<close> and everything below it. Its calls to the outside are
    appended to a ghost trace. \<open>handleMessage\<close> is split where the code has its stages: decoding and
    checks, \<open>claim_stage\<close>, \<open>run_stage\<close>, \<open>await_rollout\<close>, \<open>rollout_timed_out\<close>.
  \<^item> \<open>Consumer_Protocol\<close>: the abstract protocol of one delivery as inductive predicates over the calls
    (\<open>message_run\<close>, \<open>stage_run\<close>, \<open>await_run\<close>, \<open>retry_run\<close>, \<open>delivery_run\<close>) and the proof that the consumer
    keeps to it. \<open>Delivery\<close>: the properties that follow. \<open>Sample\<close>: concrete inputs.
  \<^item> \<open>Orchestrator\<close> (\<open>k8s_client.go\<close>): consumer and reconciler together, with the locale
    \<open>deployment_manager_laws\<close> between them. \<open>Worker_Config\<close>: the consumer with a loaded configuration.
  \<^item> \<open>Startup\<close> (\<open>main.go\<close> and the constructors of \<open>consumer.go\<close>, \<open>rabbit_publisher.go\<close>, \<open>ledger.go\<close>,
    \<open>k8s_client.go\<close>): connecting, declaring queues, \<open>Close\<close>. \<open>Startup_Props\<close>: no handle is lost, and the
    queues the retries need are declared. \<open>Process\<close> (\<open>main.go\<close>): the main goroutine, the goroutines of the
    consumer and the HTTP server, signals and fatal logs as a step relation (\<open>process_step\<close>).
  \<^item> \<open>Broker\<close>, \<open>Broker_Props\<close>: any number of workers with the queues between them; RabbitMQ is a
    parameter whose steps its documentation bounds, the locale \<open>retry_topology\<close> says what the names and numbers
    of the configuration must be, and every loaded configuration with distinct queue names satisfies it.
  \<^item> \<open>Completion\<close>: consumer and PostgreSQL ledger together in the good case, with a bound on the time that each
    call takes; the locale \<open>steady_ledger\<close> carries a condition on the row over the handler's calls and the renewals
    beside them, and holds of the running row and of the finished one. \<open>End_To_End\<close>: the same with the Kubernetes
    client as the manager, so that all of the service is composed.

  What the lemmas show. The consumer settles each delivery once, loses none, deploys only under a claim
  and once, stores results before it publishes them and replays them afterwards; its retries are
  counted and bounded and go to declared queues. The ledger's claim refines one atomic step, leases
  exclude each other, finished rows are stable under claims and renewals. The poll loop returns under
  a deadline, tells the truth and sees a rollout that gets ready in time. Names are DNS labels, failure texts are bounded, events and stored
  bundles survive JSON. A deploy writes only to the target's namespace once that is known to be the project's,
  overwrites nothing it has not read, ends, and if it succeeds the wanted objects were accepted; a quiet
  API server then holds them. Any environment gives a usable configuration, durations and schedules are
  read as written, and counts wrap at 32 bits. A failed start leaves nothing open, and a process that ends
  with status 0 has closed all it opened. Over any interleaving of workers, crashes, expiries and failed
  settlements no message is lost and attempts stay bounded; a message that keeps failing reaches
  the dead letters after as many deliveries as allowed; in the good case the message of a new
  deployment ends with its objects in the cluster and its result stored and published, and nothing deploys it again. Theorems of kind error show where the code misses its intent: claims of
  rows without a result, the release of finished stages, the cancelled context of a late rollout, the
  unready rollout that counts as a success, the regular stop that may be fatal, and ambiguous hosts.

  Outside code is an argument of the definitions: the clientset of the Kubernetes API,
  \<open>retry.RetryOnConflict\<close>, \<open>resource.ParseQuantity\<close>, the AMQP
  channel, the acknowledger, the faults and delays of PostgreSQL and how it writes jsonb, the clock.
  All act on one arbitrary state. The model's clock advances only in such calls, and a renewal of the
  lease happens between them.

  Fuel. \<open>parse_json\<close> starts with twice the length of its text, which \<open>parse_value_text\<close> shows to be enough
  for what the service writes; \<open>WaitForRollout\<close> needs two more than the polls that fit before the
  deadline (\<open>poll_ends\<close>); the wait for a deletion needs 601, the polls that fit in its 60
  seconds (\<open>Deploy_ends\<close>).

  Not modelled: what \<open>net/http\<close> does with a connection, the time limit of its shutdown, log lines that are not fatal.
  The texts of errors made by \<open>encoding/json\<close> are abstracted. The conversion of a Kubernetes object to
  JSON, which client-go does, is left out: the model stops at the objects handed to it.
\<close>

end
